theory Spec2Isabelle
  imports Main "HOL-Library.Word"
begin

unbundle bit_operations_syntax

section \<open>Data model of the driver (xmm7360.c)\<close>

text \<open>
  The C integer types are words of their width. Arithmetic that C performs after integer
  promotion is written on \<open>int\<close>/\<open>nat\<close> (through \<open>uint\<close>/\<open>unat\<close>) and converted back to
  the width of the variable it is stored in, as the C assignment does.
\<close>

type_synonym u8 = "8 word"
type_synonym u16 = "16 word"
type_synonym u32 = "32 word"
type_synonym u64 = "64 word"
type_synonym dma_addr_t = "64 word"

subsection \<open>Structures\<close>

text \<open>\<^verbatim>\<open>struct cmd_ring_entry\<close>: an entry of the command ring.\<close>

record cmd_ring_entry =
  ptr :: dma_addr_t
  len :: u16
  parm :: u8
  cmd :: u8
  extra :: u32
  unk :: u32
  flags :: u32

definition CMD_RING_OPEN :: u8 where [simp]: "CMD_RING_OPEN = 1"
definition CMD_RING_CLOSE :: u8 where [simp]: "CMD_RING_CLOSE = 3"
definition CMD_WAKEUP :: u8 where [simp]: "CMD_WAKEUP = 4"
definition CMD_FLAG_DONE :: u32 where [simp]: "CMD_FLAG_DONE = 1"
definition CMD_FLAG_READY :: u32 where [simp]: "CMD_FLAG_READY = 2"

text \<open>
  \<^verbatim>\<open>struct td_ring_entry\<close>: a transfer descriptor. The fields \<^verbatim>\<open>length\<close>, \<^verbatim>\<open>flags\<close> and
  \<^verbatim>\<open>unk\<close> carry the suffix \<open>_td\<close>, their plain names being taken.
\<close>

record td_ring_entry =
  addr :: dma_addr_t
  length_td :: u16
  flags_td :: u16
  unk_td :: u32

definition TD_FLAG_COMPLETE :: u16 where [simp]: "TD_FLAG_COMPLETE = 0x200"

text \<open>\<^verbatim>\<open>struct control\<close>: the bus addresses of the control structures.\<close>

record control =
  ctl_status :: dma_addr_t
  ctl_s_wptr :: dma_addr_t
  ctl_s_rptr :: dma_addr_t
  ctl_c_wptr :: dma_addr_t
  ctl_c_rptr :: dma_addr_t
  ctl_c_ring :: dma_addr_t
  ctl_c_ring_size :: u16
  ctl_unk :: u16

text \<open>\<^verbatim>\<open>struct status\<close>: written by the modem.\<close>

record status =
  code :: u32
  mode :: u32
  asleep :: u32
  pad :: u32

definition CMD_RING_SIZE :: nat where [simp]: "CMD_RING_SIZE = 0x80"

text \<open>
  \<^verbatim>\<open>struct control_page\<close>. The arrays of fixed size (\<^verbatim>\<open>s_wptr[16]\<close>, \<^verbatim>\<open>s_rptr[16]\<close>,
  \<^verbatim>\<open>c_ring[CMD_RING_SIZE]\<close>) are functions of the index; every access checks the index
  against the size of the array and stops with \<open>OutOfBounds\<close> outside it.
\<close>

record control_page =
  ctl :: control
  status :: status
  s_wptr :: "nat \<Rightarrow> u32"
  s_rptr :: "nat \<Rightarrow> u32"
  c_wptr :: u32
  c_rptr :: u32
  c_ring :: "nat \<Rightarrow> cmd_ring_entry"

definition BAR0_MODE :: nat where [simp]: "BAR0_MODE = 0x0c"
definition BAR0_DOORBELL :: nat where [simp]: "BAR0_DOORBELL = 0x04"
definition BAR0_WAKEUP :: nat where [simp]: "BAR0_WAKEUP = 0x14"
definition DOORBELL_TD :: int where [simp]: "DOORBELL_TD = 0"
definition DOORBELL_CMD :: int where [simp]: "DOORBELL_CMD = 1"
definition BAR2_STATUS :: nat where [simp]: "BAR2_STATUS = 0x00"
definition BAR2_MODE :: nat where [simp]: "BAR2_MODE = 0x18"
definition BAR2_CONTROL :: nat where [simp]: "BAR2_CONTROL = 0x19"
definition BAR2_CONTROLH :: nat where [simp]: "BAR2_CONTROLH = 0x1a"
definition BAR2_BLANK0 :: nat where [simp]: "BAR2_BLANK0 = 0x1b"
definition BAR2_BLANK1 :: nat where [simp]: "BAR2_BLANK1 = 0x1c"
definition BAR2_BLANK2 :: nat where [simp]: "BAR2_BLANK2 = 0x1d"
definition BAR2_BLANK3 :: nat where [simp]: "BAR2_BLANK3 = 0x1e"

text \<open>
  \<^verbatim>\<open>struct td_ring\<close>. The field \<^verbatim>\<open>size\<close> is \<open>size_ring\<close>. The arrays allocated at ring
  creation are lists: \<open>tds\<close> the descriptors, \<open>pages\<close> the buffer pages (each a list of
  bytes), \<open>pages_phys\<close> their bus addresses. A ring that owns no memory has empty lists,
  and every access checks the index against the length.
\<close>

record td_ring =
  size_ring :: u8
  last_handled :: u8
  page_size :: u16
  tds :: "td_ring_entry list"
  tds_phys :: dma_addr_t
  pages :: "u8 list list"
  pages_phys :: "dma_addr_t list"

text \<open>
  \<^verbatim>\<open>struct queue_pair\<close>: \<open>xmm_set\<close> says whether the back pointer \<^verbatim>\<open>qp->xmm\<close> is set.
  The character device and the wait queue belong to the kernel; the spin lock is taken
  and released inside one call and holds no state between calls.
\<close>

record queue_pair =
  xmm_set :: bool
  num :: int
  "open" :: int

subsection \<open>What the device and the kernel see\<close>

text \<open>
  Stores to the memory shared with the modem, register accesses and delays are recorded
  in program order in a trace, so that the order of two stores is part of the model.
\<close>

datatype cmd_field = F_ptr | F_cmd | F_parm | F_len | F_extra | F_unk | F_flags

datatype td_field = F_addr | F_length | F_flags_td | F_unk_td

datatype loc =
    Ctl
  | CRing nat cmd_field
  | CWptr
  | SWptr nat
  | SRptr nat
  | Tds nat nat td_field
  | Page nat nat

datatype event =
    Store loc
  | Bar0Write nat u32
  | Bar2Write nat u32
  | Bar2Read nat u32
  | Msleep nat
  | Mdelay nat
  | Warn

text \<open>Resources the probe routine acquires from the kernel.\<close>

datatype resource =
    DevStruct
  | PciEnabled
  | Region nat
  | IoMap nat
  | IrqVectors
  | Irq nat
  | ControlPage
  | Cdev nat

text \<open>
  \<^verbatim>\<open>struct xmm_dev\<close>, followed by the environment of the driver:
  \<^item> \<open>bar0\<close>, \<open>bar2\<close>: whether the register window is mapped (the pointer is not NULL);
  \<^item> \<open>trace\<close>: the events so far;
  \<^item> \<open>bar2_dev\<close>, \<open>bar2_reads\<close>: what the modem answers to the \<open>k\<close>-th read of a
    register of window 2, and the number of reads so far;
  \<^item> \<open>dma_pool\<close>, \<open>dma_allocs\<close>: the bus address the \<open>k\<close>-th coherent allocation
    returns, and the number of allocations so far (allocations succeed, as the source
    takes for granted);
  \<^item> \<open>held\<close>: the kernel resources held; \<open>drvdata\<close>: whether \<^verbatim>\<open>pci_set_drvdata\<close> has run.
\<close>

record xmm_dev =
  bar0 :: bool
  bar2 :: bool
  irq :: "nat \<Rightarrow> int"
  cp :: "control_page option"
  cp_phys :: dma_addr_t
  td_ring :: "nat \<Rightarrow> td_ring"
  qp :: "nat \<Rightarrow> queue_pair"
  trace :: "event list"
  bar2_dev :: "nat \<Rightarrow> nat \<Rightarrow> u32"
  bar2_reads :: nat
  dma_pool :: "nat \<Rightarrow> dma_addr_t"
  dma_allocs :: nat
  held :: "resource set"
  drvdata :: bool

subsection \<open>Outcomes\<close>

text \<open>
  A call either returns or stops: \<open>BUG\<close> is a \<^verbatim>\<open>BUG_ON\<close> that fired, \<open>OutOfBounds\<close> an
  access outside an array, \<open>NullPointer\<close> a dereference of NULL, \<open>Blocked\<close> a wait whose
  condition the environment never makes true.
\<close>

datatype halt = BUG | OutOfBounds | NullPointer | Blocked

definition EAGAIN :: int where [simp]: "EAGAIN = 11"
definition ENOMEM :: int where [simp]: "ENOMEM = 12"
definition EBUSY :: int where [simp]: "EBUSY = 16"
definition ENODEV :: int where [simp]: "ENODEV = 19"
definition EINVAL :: int where [simp]: "EINVAL = 22"
definition ENOSPC :: int where [simp]: "ENOSPC = 28"
definition ETIMEDOUT :: int where [simp]: "ETIMEDOUT = 110"
definition ERESTARTSYS :: int where [simp]: "ERESTARTSYS = 512"

text \<open>Statements in program order: the first that stops ends the sequence.\<close>

fun steps :: "('s \<Rightarrow> halt + 's) list \<Rightarrow> 's \<Rightarrow> halt + 's" where
  "steps [] s = Inr s"
| "steps (f # fs) s = (case f s of Inl e \<Rightarrow> Inl e | Inr s' \<Rightarrow> steps fs s')"

definition emit :: "event \<Rightarrow> xmm_dev \<Rightarrow> xmm_dev" where
  "emit e xmm = xmm\<lparr>trace := trace xmm @ [e]\<rparr>"

text \<open>A store through \<^verbatim>\<open>xmm->cp\<close>.\<close>

definition cp_store :: "loc \<Rightarrow> (control_page \<Rightarrow> control_page) \<Rightarrow> xmm_dev \<Rightarrow> halt + xmm_dev" where
  "cp_store l f xmm =
     (case cp xmm of
        None \<Rightarrow> Inl NullPointer
      | Some c \<Rightarrow> Inr (emit (Store l) (xmm\<lparr>cp := Some (f c)\<rparr>)))"

text \<open>A store to a field of \<^verbatim>\<open>xmm->cp->c_ring[i]\<close>.\<close>

definition c_ring_store ::
  "nat \<Rightarrow> cmd_field \<Rightarrow> (cmd_ring_entry \<Rightarrow> cmd_ring_entry) \<Rightarrow> xmm_dev \<Rightarrow> halt + xmm_dev" where
  "c_ring_store i fld f xmm =
     (if i < CMD_RING_SIZE
      then cp_store (CRing i fld) (\<lambda>c. c\<lparr>c_ring := (c_ring c)(i := f (c_ring c i))\<rparr>) xmm
      else Inl OutOfBounds)"

subsection \<open>Zeroed memory\<close>

text \<open>
  \<^verbatim>\<open>kzalloc\<close> and \<^verbatim>\<open>dma_alloc_coherent\<close> return zeroed memory: the device structure and
  the control page start from these values.
\<close>

definition zero_entry :: cmd_ring_entry where
  "zero_entry = \<lparr>ptr = 0, len = 0, parm = 0, cmd = 0, extra = 0, unk = 0, flags = 0\<rparr>"

definition zero_control_page :: control_page where
  "zero_control_page =
     \<lparr>ctl = \<lparr>ctl_status = 0, ctl_s_wptr = 0, ctl_s_rptr = 0, ctl_c_wptr = 0, ctl_c_rptr = 0,
              ctl_c_ring = 0, ctl_c_ring_size = 0, ctl_unk = 0\<rparr>,
      status = \<lparr>code = 0, mode = 0, asleep = 0, pad = 0\<rparr>,
      s_wptr = (\<lambda>_. 0), s_rptr = (\<lambda>_. 0), c_wptr = 0, c_rptr = 0,
      c_ring = (\<lambda>_. zero_entry)\<rparr>"

definition zero_td_ring :: td_ring where
  "zero_td_ring =
     \<lparr>size_ring = 0, last_handled = 0, page_size = 0, tds = [], tds_phys = 0,
      pages = [], pages_phys = []\<rparr>"

definition zero_xmm_dev :: "(nat \<Rightarrow> nat \<Rightarrow> u32) \<Rightarrow> (nat \<Rightarrow> dma_addr_t) \<Rightarrow> xmm_dev" where
  "zero_xmm_dev dev pool =
     \<lparr>bar0 = False, bar2 = False, irq = (\<lambda>_. 0), cp = None, cp_phys = 0,
      td_ring = (\<lambda>_. zero_td_ring),
      qp = (\<lambda>_. \<lparr>xmm_set = False, num = 0, open = 0\<rparr>),
      trace = [], bar2_dev = dev, bar2_reads = 0, dma_pool = pool, dma_allocs = 0,
      held = {}, drvdata = False\<rparr>"

section \<open>The command ring\<close>

text \<open>
  \<^verbatim>\<open>xmm7360_ding\<close>: wake the modem if it sleeps, then write the doorbell register.
\<close>

definition xmm7360_ding :: "xmm_dev \<Rightarrow> int \<Rightarrow> halt + xmm_dev" where
  "xmm7360_ding xmm bell =
     (case cp xmm of
        None \<Rightarrow> Inl NullPointer
      | Some c \<Rightarrow>
          if \<not> bar0 xmm then Inl NullPointer
          else
            let xmm1 = (if asleep (status c) \<noteq> 0 then emit (Bar0Write BAR0_WAKEUP 1) xmm else xmm)
            in Inr (emit (Bar0Write BAR0_DOORBELL (of_int bell)) xmm1))"

text \<open>
  \<^verbatim>\<open>xmm7360_cmd_ring_submit\<close>. \<^verbatim>\<open>u8 wptr = xmm->cp->c_wptr\<close> truncates the 32-bit pointer;
  \<^verbatim>\<open>(wptr + 1) % CMD_RING_SIZE\<close> is computed on \<^verbatim>\<open>int\<close>; the comparison with the 32-bit
  \<^verbatim>\<open>c_rptr\<close> is unsigned on 32 bits.
\<close>

definition xmm7360_cmd_ring_submit ::
  "xmm_dev \<Rightarrow> u8 \<Rightarrow> u8 \<Rightarrow> u16 \<Rightarrow> dma_addr_t \<Rightarrow> u32 \<Rightarrow> halt + (int \<times> xmm_dev)" where
  "xmm7360_cmd_ring_submit xmm cmd' parm' len' ptr' extra' =
     (case cp xmm of
        None \<Rightarrow> Inl NullPointer
      | Some c \<Rightarrow>
          let wptr = (ucast (c_wptr c) :: u8);
              new_wptr = (of_nat ((unat wptr + 1) mod CMD_RING_SIZE) :: u8)
          in if (ucast new_wptr :: u32) = c_rptr c then Inr (- EAGAIN, xmm)
             else
               (case steps
                  [c_ring_store (unat wptr) F_ptr (\<lambda>e. e\<lparr>ptr := ptr'\<rparr>),
                   c_ring_store (unat wptr) F_cmd (\<lambda>e. e\<lparr>cmd := cmd'\<rparr>),
                   c_ring_store (unat wptr) F_parm (\<lambda>e. e\<lparr>parm := parm'\<rparr>),
                   c_ring_store (unat wptr) F_len (\<lambda>e. e\<lparr>len := len'\<rparr>),
                   c_ring_store (unat wptr) F_extra (\<lambda>e. e\<lparr>extra := extra'\<rparr>),
                   c_ring_store (unat wptr) F_unk (\<lambda>e. e\<lparr>unk := 0\<rparr>),
                   c_ring_store (unat wptr) F_flags (\<lambda>e. e\<lparr>flags := CMD_FLAG_READY\<rparr>),
                   cp_store CWptr (\<lambda>c. c\<lparr>c_wptr := ucast new_wptr\<rparr>)] xmm
                of Inl e \<Rightarrow> Inl e
                 | Inr xmm' \<Rightarrow> Inr (0, xmm')))"

text \<open>
  The entries the modem has not consumed yet: those from the read pointer up to, and
  not including, the write pointer, around the ring.
\<close>

definition cmd_pending :: "control_page \<Rightarrow> nat \<Rightarrow> bool" where
  "cmd_pending c i =
     (i < CMD_RING_SIZE \<and>
      (int i - uint (c_rptr c)) mod 128 < (uint (c_wptr c) - uint (c_rptr c)) mod 128)"


section \<open>Transfer-descriptor rings\<close>

text \<open>
  A store to a field of \<^verbatim>\<open>ring->tds[i]\<close>, the descriptor array of ring \<open>rid\<close>, which the
  modem reads.
\<close>

definition td_store ::
  "nat \<Rightarrow> nat \<Rightarrow> td_field \<Rightarrow> (td_ring_entry \<Rightarrow> td_ring_entry) \<Rightarrow> xmm_dev \<Rightarrow> halt + xmm_dev" where
  "td_store rid i fld f xmm =
     (let ring = td_ring xmm rid
      in if i < length (tds ring)
         then Inr (emit (Store (Tds rid i fld))
                (xmm\<lparr>td_ring := (td_ring xmm)(rid := ring\<lparr>tds := (tds ring)[i := f (tds ring ! i)]\<rparr>)\<rparr>))
         else Inl OutOfBounds)"

text \<open>
  \<^verbatim>\<open>memcpy(ring->pages[i], buf, len)\<close> and \<^verbatim>\<open>copy_from_user(ring->pages[i], buf, len)\<close>,
  with \<open>data\<close> the \<open>len\<close> bytes at \<open>buf\<close>: the first \<open>len\<close> bytes of the page are
  replaced. A copy longer than the page would run past its end.
\<close>

definition page_copy :: "nat \<Rightarrow> nat \<Rightarrow> u8 list \<Rightarrow> xmm_dev \<Rightarrow> halt + xmm_dev" where
  "page_copy rid i data xmm =
     (let ring = td_ring xmm rid
      in if i < length (pages ring) \<and> length data \<le> length (pages ring ! i)
         then Inr (emit (Store (Page rid i))
                (xmm\<lparr>td_ring := (td_ring xmm)(rid := ring\<lparr>pages :=
                    (pages ring)[i := data @ drop (length data) (pages ring ! i)]\<rparr>)\<rparr>))
         else Inl OutOfBounds)"

text \<open>
  \<^verbatim>\<open>xmm7360_td_ring_full\<close>. \<^verbatim>\<open>(wptr + 1) & (ring->size - 1)\<close> is computed on \<^verbatim>\<open>int\<close> and
  stored back into the \<^verbatim>\<open>u8 wptr\<close>; the comparison with the 32-bit \<^verbatim>\<open>s_rptr[ring_id]\<close>
  is on 32 bits.
\<close>

definition xmm7360_td_ring_full :: "xmm_dev \<Rightarrow> u8 \<Rightarrow> halt + bool" where
  "xmm7360_td_ring_full xmm ring_id =
     (case cp xmm of
        None \<Rightarrow> Inl NullPointer
      | Some c \<Rightarrow>
          if \<not> unat ring_id < 16 then Inl OutOfBounds
          else
            let ring = td_ring xmm (unat ring_id);
                wptr = (ucast (s_wptr c (unat ring_id)) :: u8);
                wptr = (of_int ((uint wptr + 1) AND (uint (size_ring ring) - 1)) :: u8)
            in Inr ((ucast wptr :: u32) = s_rptr c (unat ring_id)))"

text \<open>
  The last two statements of the three functions that advance a write pointer:
  \<^verbatim>\<open>BUG_ON(wptr == xmm->cp->s_rptr[ring_id]); xmm->cp->s_wptr[ring_id] = wptr;\<close>
\<close>

definition publish_wptr :: "nat \<Rightarrow> u8 \<Rightarrow> xmm_dev \<Rightarrow> halt + xmm_dev" where
  "publish_wptr rid wptr xmm =
     (case cp xmm of
        None \<Rightarrow> Inl NullPointer
      | Some c \<Rightarrow>
          if (ucast wptr :: u32) = s_rptr c rid then Inl BUG
          else cp_store (SWptr rid) (\<lambda>c. c\<lparr>s_wptr := (s_wptr c)(rid := ucast wptr)\<rparr>) xmm)"

text \<open>
  \<^verbatim>\<open>xmm7360_td_ring_write_user\<close>, with \<open>data\<close> the \<open>len\<close> bytes of user memory at \<open>buf\<close>
  (\<^verbatim>\<open>size_t len\<close> is \<open>length data\<close>; the store to the 16-bit \<^verbatim>\<open>length\<close> truncates it).
\<close>

definition xmm7360_td_ring_write_user :: "xmm_dev \<Rightarrow> u8 \<Rightarrow> u8 list \<Rightarrow> halt + xmm_dev" where
  "xmm7360_td_ring_write_user xmm ring_id data =
     (case cp xmm of
        None \<Rightarrow> Inl NullPointer
      | Some c \<Rightarrow>
          if \<not> unat ring_id < 16 then Inl OutOfBounds
          else
            let ring = td_ring xmm (unat ring_id);
                wptr = (ucast (s_wptr c (unat ring_id)) :: u8)
            in if size_ring ring = 0 then Inl BUG
               else if length data > unat (page_size ring) then Inl BUG
               else if ring_id AND 1 \<noteq> 0 then Inl BUG
               else
                 steps
                   [page_copy (unat ring_id) (unat wptr) data,
                    td_store (unat ring_id) (unat wptr) F_length
                      (\<lambda>t. t\<lparr>length_td := of_nat (length data)\<rparr>),
                    td_store (unat ring_id) (unat wptr) F_flags_td (\<lambda>t. t\<lparr>flags_td := 0\<rparr>),
                    td_store (unat ring_id) (unat wptr) F_unk_td (\<lambda>t. t\<lparr>unk_td := 0\<rparr>),
                    publish_wptr (unat ring_id)
                      (of_int ((uint wptr + 1) AND (uint (size_ring ring) - 1)))] xmm)"

text \<open>
  \<^verbatim>\<open>xmm7360_td_ring_write\<close>: the same statements with \<^verbatim>\<open>memcpy\<close> from kernel memory. Its
  \<^verbatim>\<open>int len\<close> is the length of \<open>data\<close>, so it is not negative here.
\<close>

definition xmm7360_td_ring_write :: "xmm_dev \<Rightarrow> u8 \<Rightarrow> u8 list \<Rightarrow> halt + xmm_dev" where
  "xmm7360_td_ring_write xmm ring_id data =
     (case cp xmm of
        None \<Rightarrow> Inl NullPointer
      | Some c \<Rightarrow>
          if \<not> unat ring_id < 16 then Inl OutOfBounds
          else
            let ring = td_ring xmm (unat ring_id);
                wptr = (ucast (s_wptr c (unat ring_id)) :: u8)
            in if size_ring ring = 0 then Inl BUG
               else if int (length data) > uint (page_size ring) then Inl BUG
               else if ring_id AND 1 \<noteq> 0 then Inl BUG
               else
                 steps
                   [page_copy (unat ring_id) (unat wptr) data,
                    td_store (unat ring_id) (unat wptr) F_length
                      (\<lambda>t. t\<lparr>length_td := of_nat (length data)\<rparr>),
                    td_store (unat ring_id) (unat wptr) F_flags_td (\<lambda>t. t\<lparr>flags_td := 0\<rparr>),
                    td_store (unat ring_id) (unat wptr) F_unk_td (\<lambda>t. t\<lparr>unk_td := 0\<rparr>),
                    publish_wptr (unat ring_id)
                      (of_int ((uint wptr + 1) AND (uint (size_ring ring) - 1)))] xmm)"

text \<open>
  \<^verbatim>\<open>xmm7360_td_ring_read\<close>: hand the descriptor at the write pointer to the modem as an
  empty buffer of a whole page. On a ring that is disabled or is a send ring it warns and
  returns.
\<close>

definition xmm7360_td_ring_read :: "xmm_dev \<Rightarrow> u8 \<Rightarrow> halt + xmm_dev" where
  "xmm7360_td_ring_read xmm ring_id =
     (case cp xmm of
        None \<Rightarrow> Inl NullPointer
      | Some c \<Rightarrow>
          if \<not> unat ring_id < 16 then Inl OutOfBounds
          else
            let ring = td_ring xmm (unat ring_id);
                wptr = (ucast (s_wptr c (unat ring_id)) :: u8)
            in if size_ring ring = 0 then Inr (emit Warn xmm)
               else if ring_id AND 1 = 0 then Inr (emit Warn xmm)
               else
                 steps
                   [td_store (unat ring_id) (unat wptr) F_length
                      (\<lambda>t. t\<lparr>length_td := page_size ring\<rparr>),
                    td_store (unat ring_id) (unat wptr) F_flags_td (\<lambda>t. t\<lparr>flags_td := 0\<rparr>),
                    td_store (unat ring_id) (unat wptr) F_unk_td (\<lambda>t. t\<lparr>unk_td := 0\<rparr>),
                    publish_wptr (unat ring_id)
                      (of_int ((uint wptr + 1) AND (uint (size_ring ring) - 1)))] xmm)"

text \<open>
  The entries of a ring in flight: the distance from the read pointer to the write
  pointer, around a ring of capacity \<open>C\<close>.
\<close>

definition td_outstanding :: "control_page \<Rightarrow> nat \<Rightarrow> nat \<Rightarrow> nat" where
  "td_outstanding c rid C = nat ((uint (s_wptr c rid) - uint (s_rptr c rid)) mod int C)"

text \<open>
  \<^verbatim>\<open>dma_alloc_coherent\<close>: the next bus address of the pool; the memory itself is the zeroed
  list or record the caller installs.
\<close>

definition dma_alloc_coherent :: "xmm_dev \<Rightarrow> dma_addr_t \<times> xmm_dev" where
  "dma_alloc_coherent xmm =
     (dma_pool xmm (dma_allocs xmm), xmm\<lparr>dma_allocs := Suc (dma_allocs xmm)\<rparr>)"

text \<open>
  One round of the loop of \<^verbatim>\<open>xmm7360_td_ring_create\<close>:
  \<^verbatim>\<open>ring->pages[i] = dma_alloc_coherent(.., ring->page_size, &ring->pages_phys[i], ..);\<close>
  \<^verbatim>\<open>ring->tds[i].addr = ring->pages_phys[i];\<close>
\<close>

definition create_page :: "nat \<Rightarrow> nat \<Rightarrow> xmm_dev \<Rightarrow> halt + xmm_dev" where
  "create_page rid i xmm =
     (let (a, xmm1) = dma_alloc_coherent xmm;
          ring = td_ring xmm1 rid
      in if i < length (pages ring) \<and> i < length (pages_phys ring)
         then td_store rid i F_addr (\<lambda>t. t\<lparr>addr := a\<rparr>)
                (xmm1\<lparr>td_ring := (td_ring xmm1)(rid := ring
                   \<lparr>pages := (pages ring)[i := replicate (unat (page_size ring)) 0],
                    pages_phys := (pages_phys ring)[i := a]\<rparr>)\<rparr>)
         else Inl OutOfBounds)"

text \<open>
  \<^verbatim>\<open>xmm7360_td_ring_create\<close>. \<^verbatim>\<open>size & (size-1)\<close> is computed on \<^verbatim>\<open>int\<close>. The value
  \<^verbatim>\<open>xmm7360_cmd_ring_submit\<close> returns is dropped, as in the source.
\<close>

definition xmm7360_td_ring_create :: "xmm_dev \<Rightarrow> u8 \<Rightarrow> u8 \<Rightarrow> halt + xmm_dev" where
  "xmm7360_td_ring_create xmm ring_id size' =
     (if \<not> unat ring_id < 16 then Inl OutOfBounds
      else if size_ring (td_ring xmm (unat ring_id)) \<noteq> 0 then Inl BUG
      else if uint size' AND (uint size' - 1) \<noteq> 0 then Inl BUG
      else
        let (tp, xmm1) = dma_alloc_coherent xmm;
            ring = zero_td_ring
              \<lparr>size_ring := size', page_size := 0x1000,
               tds := replicate (unat size') \<lparr>addr = 0, length_td = 0, flags_td = 0, unk_td = 0\<rparr>,
               tds_phys := tp,
               pages := replicate (unat size') [],
               pages_phys := replicate (unat size') 0\<rparr>;
            xmm2 = xmm1\<lparr>td_ring := (td_ring xmm1)(unat ring_id := ring)\<rparr>
        in case steps
                  (map (create_page (unat ring_id)) [0..<unat size'] @
                   [cp_store (SWptr (unat ring_id)) (\<lambda>c. c\<lparr>s_wptr := (s_wptr c)(unat ring_id := 0)\<rparr>),
                    cp_store (SRptr (unat ring_id)) (\<lambda>c. c\<lparr>s_rptr := (s_rptr c)(unat ring_id := 0)\<rparr>)])
                  xmm2
           of Inl e \<Rightarrow> Inl e
            | Inr xmm3 \<Rightarrow>
                (case xmm7360_cmd_ring_submit xmm3 CMD_RING_OPEN ring_id (ucast size')
                        (tds_phys (td_ring xmm3 (unat ring_id))) 0x60
                 of Inl e \<Rightarrow> Inl e
                  | Inr (ret, xmm4) \<Rightarrow> xmm7360_ding xmm4 DOORBELL_CMD))"

text \<open>
  \<^verbatim>\<open>xmm7360_td_ring_destroy\<close>. The freed arrays become empty lists: the memory is gone,
  though the C pointers still hold the old addresses.
\<close>

definition xmm7360_td_ring_destroy :: "xmm_dev \<Rightarrow> u8 \<Rightarrow> halt + xmm_dev" where
  "xmm7360_td_ring_destroy xmm ring_id =
     (if \<not> unat ring_id < 16 then Inl OutOfBounds
      else if size_ring (td_ring xmm (unat ring_id)) = 0 then Inr (emit Warn xmm)
      else
        (case xmm7360_cmd_ring_submit xmm CMD_RING_CLOSE ring_id 0 0 0 of
           Inl e \<Rightarrow> Inl e
         | Inr (ret, xmm1) \<Rightarrow>
             (case xmm7360_ding xmm1 DOORBELL_CMD of
                Inl e \<Rightarrow> Inl e
              | Inr xmm2 \<Rightarrow>
                  let ring = td_ring xmm2 (unat ring_id)
                  in if length (pages ring) < unat (size_ring ring)
                        \<or> length (pages_phys ring) < unat (size_ring ring)
                     then Inl OutOfBounds
                     else Inr (xmm2\<lparr>td_ring := (td_ring xmm2)(unat ring_id :=
                            ring\<lparr>pages := [], pages_phys := [], tds := [], size_ring := 0\<rparr>)\<rparr>))))"

section \<open>Queue pairs\<close>

text \<open>
  The loop of \<^verbatim>\<open>xmm7360_qp_start\<close>:
  \<^verbatim>\<open>while (!xmm7360_td_ring_full(xmm, id)) xmm7360_td_ring_read(xmm, id);\<close>
  It need not end (a read pointer outside the ring is never reached), so the result is an
  option and \<open>None\<close> stands for a loop that runs forever.
\<close>

partial_function (option) qp_start_loop :: "xmm_dev \<Rightarrow> u8 \<Rightarrow> (halt + xmm_dev) option" where
  "qp_start_loop xmm ring_id =
     (case xmm7360_td_ring_full xmm ring_id of
        Inl e \<Rightarrow> Some (Inl e)
      | Inr full \<Rightarrow>
          if full then Some (Inr xmm)
          else (case xmm7360_td_ring_read xmm ring_id of
                  Inl e \<Rightarrow> Some (Inl e)
                | Inr xmm' \<Rightarrow> qp_start_loop xmm' ring_id))"

text \<open>
  \<^verbatim>\<open>xmm7360_qp_start\<close> on \<^verbatim>\<open>&xmm->qp[n]\<close>. The ring ids \<^verbatim>\<open>qp->num*2\<close> and \<^verbatim>\<open>qp->num*2+1\<close> are
  \<^verbatim>\<open>int\<close> values passed as \<^verbatim>\<open>u8\<close>.
\<close>

definition xmm7360_qp_start :: "xmm_dev \<Rightarrow> nat \<Rightarrow> (halt + (int \<times> xmm_dev)) option" where
  "xmm7360_qp_start xmm n =
     (if open (qp xmm n) \<noteq> 0 then Some (Inr (- EBUSY, xmm))
      else
        let xmm1 = xmm\<lparr>qp := (qp xmm)(n := (qp xmm n)\<lparr>open := 1\<rparr>)\<rparr>;
            tx = (of_int (num (qp xmm n) * 2) :: u8);
            rx = (of_int (num (qp xmm n) * 2 + 1) :: u8)
        in case steps
                  [\<lambda>x. xmm7360_td_ring_create x tx 8,
                   \<lambda>x. xmm7360_td_ring_create x rx 8,
                   \<lambda>x. xmm7360_ding x DOORBELL_CMD] xmm1
           of Inl e \<Rightarrow> Some (Inl e)
            | Inr xmm2 \<Rightarrow>
                (case qp_start_loop xmm2 rx of
                   None \<Rightarrow> None
                 | Some (Inl e) \<Rightarrow> Some (Inl e)
                 | Some (Inr xmm3) \<Rightarrow>
                     (case xmm7360_ding xmm3 DOORBELL_TD of
                        Inl e \<Rightarrow> Some (Inl e)
                      | Inr xmm4 \<Rightarrow> Some (Inr (0, xmm4)))))"

text \<open>\<^verbatim>\<open>xmm7360_qp_stop\<close> on \<^verbatim>\<open>&xmm->qp[n]\<close>.\<close>

definition xmm7360_qp_stop :: "xmm_dev \<Rightarrow> nat \<Rightarrow> halt + (int \<times> xmm_dev)" where
  "xmm7360_qp_stop xmm n =
     (if open (qp xmm n) = 0 then Inr (- ENODEV, xmm)
      else
        let xmm1 = xmm\<lparr>qp := (qp xmm)(n := (qp xmm n)\<lparr>open := 0\<rparr>)\<rparr>;
            tx = (of_int (num (qp xmm n) * 2) :: u8);
            rx = (of_int (num (qp xmm n) * 2 + 1) :: u8)
        in case steps
                  [\<lambda>x. xmm7360_td_ring_destroy x tx,
                   \<lambda>x. xmm7360_td_ring_destroy x rx] xmm1
           of Inl e \<Rightarrow> Inl e
            | Inr xmm2 \<Rightarrow> Inr (0, xmm2))"

text \<open>
  The shape of a ring that \<^verbatim>\<open>xmm7360_td_ring_create\<close> has set up with a capacity
  \<open>2 ^ k\<close>: the descriptor and page arrays have that many elements, every page has
  \<^verbatim>\<open>page_size\<close> bytes, and the write pointer, which only the driver stores, is inside the
  ring.
\<close>

definition td_ring_inv :: "xmm_dev \<Rightarrow> nat \<Rightarrow> nat \<Rightarrow> bool" where
  "td_ring_inv xmm rid k =
     (k < 8 \<and> size_ring (td_ring xmm rid) = 2 ^ k \<and>
      length (tds (td_ring xmm rid)) = 2 ^ k \<and>
      length (pages (td_ring xmm rid)) = 2 ^ k \<and>
      (\<forall>p \<in> set (pages (td_ring xmm rid)). length p = unat (page_size (td_ring xmm rid))) \<and>
      (case cp xmm of None \<Rightarrow> False | Some c \<Rightarrow> unat (s_wptr c rid) < 2 ^ k))"

text \<open>The published write pointer of a ring is below the capacity of the ring.\<close>

definition wptr_in_ring :: "xmm_dev \<Rightarrow> nat \<Rightarrow> bool" where
  "wptr_in_ring xmm rid =
     (case cp xmm of
        None \<Rightarrow> False
      | Some c \<Rightarrow> unat (s_wptr c rid) < unat (size_ring (td_ring xmm rid)))"

subsection \<open>Blocking waits\<close>

text \<open>
  What ends a sleep in \<^verbatim>\<open>wait_event_interruptible\<close>: a signal, or progress of the modem,
  which rewrites the control page and wakes the sleeper.
\<close>

datatype wakeup = Signal | Progress "control_page \<Rightarrow> control_page"

text \<open>
  \<^verbatim>\<open>wait_event_interruptible(wq, condition)\<close>: 0 at once if the condition holds;
  \<open>-ERESTARTSYS\<close> if a signal ends the sleep; 0 if the modem's progress makes the
  condition true. A sleeper woken with the condition still false sleeps on: the call
  does not return (\<open>Blocked\<close>).
\<close>

definition wait_event_interruptible ::
  "(xmm_dev \<Rightarrow> bool) \<Rightarrow> wakeup \<Rightarrow> xmm_dev \<Rightarrow> halt + (int \<times> xmm_dev)" where
  "wait_event_interruptible condition w xmm =
     (if condition xmm then Inr (0, xmm)
      else (case w of
              Signal \<Rightarrow> Inr (- ERESTARTSYS, xmm)
            | Progress f \<Rightarrow>
                let xmm' = xmm\<lparr>cp := map_option f (cp xmm)\<rparr>
                in if condition xmm' then Inr (0, xmm') else Inl Blocked))"

text \<open>\<^verbatim>\<open>xmm7360_cmd_ring_wait\<close>: wait for all commands to complete.\<close>

definition xmm7360_cmd_ring_wait :: "xmm_dev \<Rightarrow> wakeup \<Rightarrow> halt + (int \<times> xmm_dev)" where
  "xmm7360_cmd_ring_wait xmm w =
     (case cp xmm of
        None \<Rightarrow> Inl NullPointer
      | Some _ \<Rightarrow>
          wait_event_interruptible
            (\<lambda>x. case cp x of None \<Rightarrow> False | Some c \<Rightarrow> c_rptr c = c_wptr c) w xmm)"

subsection \<open>Reading from a queue pair\<close>

text \<open>
  \<^verbatim>\<open>xmm7360_qp_read_user\<close> on \<^verbatim>\<open>&xmm->qp[n]\<close> with a user buffer of \<open>size'\<close> bytes. The result
  is the \<^verbatim>\<open>size_t\<close> returned, the bytes copied to the user buffer, and the state.
  \<^item> The index \<^verbatim>\<open>qp->num*2+1\<close> into \<^verbatim>\<open>td_ring[16]\<close> and \<^verbatim>\<open>s_rptr[16]\<close> is an \<^verbatim>\<open>int\<close>.
  \<^item> \<^verbatim>\<open>return ret\<close> converts the \<^verbatim>\<open>int\<close> to \<^verbatim>\<open>size_t\<close> (64 bits).
  \<^item> \<^verbatim>\<open>nread > size\<close> compares as \<^verbatim>\<open>size_t\<close>; \<^verbatim>\<open>nread\<close> holds a 16-bit length, so it is
    not negative.
  \<^item> \<^verbatim>\<open>copy_to_user(buf, ring->pages[idx], nread)\<close> reads \<open>nread\<close> bytes of the page; more
    than the page holds is a read past its end.
  \<^item> \<^verbatim>\<open>(idx + 1) & (ring->size - 1)\<close> is computed on \<^verbatim>\<open>int\<close> and stored in the 8-bit
    \<^verbatim>\<open>last_handled\<close>.
\<close>

definition xmm7360_qp_read_user ::
  "xmm_dev \<Rightarrow> nat \<Rightarrow> u64 \<Rightarrow> wakeup \<Rightarrow> halt + (u64 \<times> u8 list \<times> xmm_dev)" where
  "xmm7360_qp_read_user xmm n size' w =
     (let r = num (qp xmm n) * 2 + 1
      in if \<not> (0 \<le> r \<and> r < 16) then Inl OutOfBounds
         else
           (case cp xmm of
              None \<Rightarrow> Inl NullPointer
            | Some _ \<Rightarrow>
               (case wait_event_interruptible
                       (\<lambda>x. case cp x of
                               None \<Rightarrow> False
                             | Some c \<Rightarrow> s_rptr c (nat r) \<noteq> ucast (last_handled (td_ring x (nat r))))
                       w xmm
                of Inl e \<Rightarrow> Inl e
                 | Inr (ret, xmm1) \<Rightarrow>
                     if ret \<noteq> 0 then Inr (of_int ret, [], xmm1)
                     else
                       let ring = td_ring xmm1 (nat r);
                           idx = unat (last_handled ring)
                       in if \<not> idx < length (tds ring) then Inl OutOfBounds
                          else
                            let len = length_td (tds ring ! idx);
                                nread = (if (ucast len :: u64) > size' then unat size' else unat len)
                            in if \<not> (idx < length (pages ring) \<and> nread \<le> length (pages ring ! idx))
                               then Inl OutOfBounds
                               else
                                 (case steps
                                    [\<lambda>x. xmm7360_td_ring_read x (of_int r),
                                     \<lambda>x. xmm7360_ding x DOORBELL_TD] xmm1
                                  of Inl e \<Rightarrow> Inl e
                                   | Inr xmm2 \<Rightarrow>
                                       let ring2 = td_ring xmm2 (nat r)
                                       in Inr (of_nat nread, take nread (pages ring ! idx),
                                            xmm2\<lparr>td_ring := (td_ring xmm2)(nat r := ring2
                                              \<lparr>last_handled :=
                                                 of_int ((int idx + 1) AND (uint (size_ring ring2) - 1))\<rparr>)\<rparr>)))))"

text \<open>
  \<^verbatim>\<open>xmm7360_read\<close>, the \<^verbatim>\<open>read\<close> of the character device of pair \<open>n\<close>. \<^verbatim>\<open>ret\<close> is a
  \<^verbatim>\<open>size_t\<close>, so \<^verbatim>\<open>ret < 0\<close> is an unsigned comparison; the value returned is \<^verbatim>\<open>ret\<close> read
  as the signed \<^verbatim>\<open>ssize_t\<close>. The result is that value, the bytes copied, the file offset
  and the state.
\<close>

definition xmm7360_read ::
  "xmm_dev \<Rightarrow> nat \<Rightarrow> u64 \<Rightarrow> u64 \<Rightarrow> wakeup \<Rightarrow> halt + (int \<times> u8 list \<times> u64 \<times> xmm_dev)" where
  "xmm7360_read xmm n size' offset w =
     (case xmm7360_qp_read_user xmm n size' w of
        Inl e \<Rightarrow> Inl e
      | Inr (ret, bytes, xmm') \<Rightarrow>
          if ret < 0 then Inr (sint ret, bytes, offset, xmm')
          else Inr (sint ret, bytes, offset + ret, xmm'))"

section \<open>Bring-up\<close>

subsection \<open>Register accesses\<close>

text \<open>
  A write to \<^verbatim>\<open>xmm->bar0[reg]\<close> or \<^verbatim>\<open>xmm->bar2[reg]\<close>, and a read of \<^verbatim>\<open>xmm->bar2[reg]\<close>, which
  the modem answers.
\<close>

definition bar0_write :: "nat \<Rightarrow> u32 \<Rightarrow> xmm_dev \<Rightarrow> halt + xmm_dev" where
  "bar0_write reg v xmm = (if bar0 xmm then Inr (emit (Bar0Write reg v) xmm) else Inl NullPointer)"

definition bar2_write :: "nat \<Rightarrow> u32 \<Rightarrow> xmm_dev \<Rightarrow> halt + xmm_dev" where
  "bar2_write reg v xmm = (if bar2 xmm then Inr (emit (Bar2Write reg v) xmm) else Inl NullPointer)"

definition bar2_read :: "nat \<Rightarrow> xmm_dev \<Rightarrow> halt + (u32 \<times> xmm_dev)" where
  "bar2_read reg xmm =
     (if bar2 xmm
      then let v = bar2_dev xmm reg (bar2_reads xmm)
           in Inr (v, emit (Bar2Read reg v) (xmm\<lparr>bar2_reads := Suc (bar2_reads xmm)\<rparr>))
      else Inl NullPointer)"

subsection \<open>The command ring handshake\<close>

text \<open>
  The first polling loop of \<^verbatim>\<open>xmm7360_cmd_ring_init\<close>:
  \<^verbatim>\<open>while (xmm->bar2[BAR2_MODE] == 0 && --timeout) msleep(10);\<close>
  The \<^verbatim>\<open>int timeout\<close> is its 32 bits; the result is its value after the loop.
\<close>

function cmd_ring_init_poll1 :: "u32 \<Rightarrow> xmm_dev \<Rightarrow> halt + (u32 \<times> xmm_dev)" where
  "cmd_ring_init_poll1 timeout xmm =
     (case bar2_read BAR2_MODE xmm of
        Inl e \<Rightarrow> Inl e
      | Inr (v, xmm1) \<Rightarrow>
          if v = 0
          then (if timeout - 1 \<noteq> 0
                then cmd_ring_init_poll1 (timeout - 1) (emit (Msleep 10) xmm1)
                else Inr (timeout - 1, xmm1))
          else Inr (timeout, xmm1))"
  by pat_completeness auto
termination
  by (relation "measure (\<lambda>(t, x). unat (t - 1))")
    (auto simp add: unat_minus_one [where w = "t - 1" for t :: u32, simplified] unat_gt_0)

text \<open>
  The second polling loop of \<^verbatim>\<open>xmm7360_cmd_ring_init\<close>:
  \<^verbatim>\<open>while (xmm->bar2[BAR2_MODE] != 2 && !--timeout) msleep(10);\<close>
\<close>

function cmd_ring_init_poll2 :: "u32 \<Rightarrow> xmm_dev \<Rightarrow> halt + (u32 \<times> xmm_dev)" where
  "cmd_ring_init_poll2 timeout xmm =
     (case bar2_read BAR2_MODE xmm of
        Inl e \<Rightarrow> Inl e
      | Inr (v, xmm1) \<Rightarrow>
          if v \<noteq> 2
          then (if timeout - 1 = 0
                then cmd_ring_init_poll2 (timeout - 1) (emit (Msleep 10) xmm1)
                else Inr (timeout - 1, xmm1))
          else Inr (timeout, xmm1))"
  by pat_completeness auto
termination
  by (relation "measure (\<lambda>(t, x). if t = 1 then 1 else 0)") auto

text \<open>
  \<^verbatim>\<open>xmm7360_cmd_ring_init\<close>. The offsets of the members of \<^verbatim>\<open>struct control_page\<close> are those
  of the 64-bit layout (\<^verbatim>\<open>status\<close> at 56, \<^verbatim>\<open>s_wptr\<close> at 72, \<^verbatim>\<open>s_rptr\<close> at 136, \<^verbatim>\<open>c_wptr\<close>
  at 200, \<^verbatim>\<open>c_rptr\<close> at 204, \<^verbatim>\<open>c_ring\<close> at 208). A store to the 32-bit register
  \<^verbatim>\<open>bar2[BAR2_CONTROL]\<close> keeps the low half of the address.
\<close>

definition xmm7360_cmd_ring_init :: "xmm_dev \<Rightarrow> wakeup \<Rightarrow> halt + (int \<times> xmm_dev)" where
  "xmm7360_cmd_ring_init xmm w =
     (let (a, xmm1) = dma_alloc_coherent xmm;
          xmm2 = xmm1\<lparr>cp := Some zero_control_page, cp_phys := a,
                      held := insert ControlPage (held xmm1)\<rparr>
      in case steps
                [cp_store Ctl (\<lambda>c. c\<lparr>ctl := (ctl c)\<lparr>ctl_status := a + 56\<rparr>\<rparr>),
                 cp_store Ctl (\<lambda>c. c\<lparr>ctl := (ctl c)\<lparr>ctl_s_wptr := a + 72\<rparr>\<rparr>),
                 cp_store Ctl (\<lambda>c. c\<lparr>ctl := (ctl c)\<lparr>ctl_s_rptr := a + 136\<rparr>\<rparr>),
                 cp_store Ctl (\<lambda>c. c\<lparr>ctl := (ctl c)\<lparr>ctl_c_wptr := a + 200\<rparr>\<rparr>),
                 cp_store Ctl (\<lambda>c. c\<lparr>ctl := (ctl c)\<lparr>ctl_c_rptr := a + 204\<rparr>\<rparr>),
                 cp_store Ctl (\<lambda>c. c\<lparr>ctl := (ctl c)\<lparr>ctl_c_ring := a + 208\<rparr>\<rparr>),
                 cp_store Ctl (\<lambda>c. c\<lparr>ctl := (ctl c)\<lparr>ctl_c_ring_size := of_nat CMD_RING_SIZE\<rparr>\<rparr>),
                 bar2_write BAR2_CONTROL (ucast a),
                 bar2_write BAR2_CONTROLH (ucast (drop_bit 32 a)),
                 bar0_write BAR0_MODE 1] xmm2
         of Inl e \<Rightarrow> Inl e
          | Inr xmm3 \<Rightarrow>
         (case cmd_ring_init_poll1 100 xmm3 of
            Inl e \<Rightarrow> Inl e
          | Inr (timeout, xmm4) \<Rightarrow>
              if timeout = 0 then Inr (- ETIMEDOUT, xmm4)
              else
         (case steps
                 [bar2_write BAR2_BLANK0 0, bar2_write BAR2_BLANK1 0,
                  bar2_write BAR2_BLANK2 0, bar2_write BAR2_BLANK3 0,
                  bar0_write BAR0_MODE 2] xmm4
          of Inl e \<Rightarrow> Inl e
           | Inr xmm5 \<Rightarrow>
         (case cmd_ring_init_poll2 100 xmm5 of
            Inl e \<Rightarrow> Inl e
          | Inr (timeout, xmm6) \<Rightarrow>
              if timeout = 0 then Inr (- ETIMEDOUT, xmm6)
              else
         (case xmm7360_cmd_ring_submit xmm6 CMD_WAKEUP 0 1 0 0 of
            Inl e \<Rightarrow> Inl e
          | Inr (ret, xmm7) \<Rightarrow>
              if ret \<noteq> 0 then Inr (ret, xmm7)
              else
         (case xmm7360_cmd_ring_submit xmm7 0xf0 0x80 0 0 0 of
            Inl e \<Rightarrow> Inl e
          | Inr (ret, xmm8) \<Rightarrow>
              if ret \<noteq> 0 then Inr (ret, xmm8)
              else
         (case xmm7360_ding xmm8 DOORBELL_CMD of
            Inl e \<Rightarrow> Inl e
          | Inr xmm9 \<Rightarrow>
         (case xmm7360_cmd_ring_wait xmm9 w of
            Inl e \<Rightarrow> Inl e
          | Inr (ret, xmm10) \<Rightarrow>
              if ret \<noteq> 0 then Inr (ret, xmm10) else Inr (0, xmm10)))))))))"

text \<open>\<^verbatim>\<open>xmm7360_cmd_ring_free\<close>.\<close>

definition xmm7360_cmd_ring_free :: "xmm_dev \<Rightarrow> xmm_dev" where
  "xmm7360_cmd_ring_free xmm =
     (let xmm1 = (if bar0 xmm then emit (Bar0Write BAR0_MODE 0) xmm else xmm);
          xmm2 = (if cp xmm1 \<noteq> None then xmm1\<lparr>held := held xmm1 - {ControlPage}\<rparr> else xmm1)
      in xmm2\<lparr>cp := None\<rparr>)"

subsection \<open>Attach and detach\<close>

text \<open>
  What the kernel answers to the calls of \<^verbatim>\<open>xmm7360_probe\<close>: whether \<^verbatim>\<open>kzalloc\<close> and
  \<^verbatim>\<open>pci_iomap\<close> return memory, the values the other calls return, the interrupt numbers,
  and what ends the wait for the command ring to drain.
\<close>

record kernel =
  kzalloc_ok :: bool
  pci_enable_device_ret :: int
  pci_request_region_ret :: "nat \<Rightarrow> int"
  pci_iomap_ok :: "nat \<Rightarrow> bool"
  pci_alloc_irq_vectors_ret :: int
  pci_irq_vector :: "nat \<Rightarrow> int"
  request_irq_ret :: "nat \<Rightarrow> int"
  cdev_device_add_ret :: "nat \<Rightarrow> int"
  cmd_ring_wakeup :: wakeup

text \<open>
  A \<^verbatim>\<open>for\<close> loop over the indices \<open>is\<close> whose body sets \<^verbatim>\<open>ret\<close> and leaves with
  \<^verbatim>\<open>goto fail\<close> when it is not zero.
\<close>

fun for_until :: "nat list \<Rightarrow> (nat \<Rightarrow> 's \<Rightarrow> int \<times> 's) \<Rightarrow> 's \<Rightarrow> int \<times> 's" where
  "for_until [] body s = (0, s)"
| "for_until (i # is) body s =
     (case body i s of (ret, s') \<Rightarrow> if ret \<noteq> 0 then (ret, s') else for_until is body s')"

text \<open>
  \<^verbatim>\<open>xmm7360_remove\<close>. \<^verbatim>\<open>pci_get_drvdata\<close> returns NULL until \<^verbatim>\<open>pci_set_drvdata\<close> has run,
  and the first statement reads through the pointer. Nothing unmaps the register
  windows.
\<close>

definition xmm7360_remove :: "xmm_dev \<Rightarrow> halt + xmm_dev" where
  "xmm7360_remove xmm =
     (if \<not> drvdata xmm then Inl NullPointer
      else
        let xmm1 = fold (\<lambda>i x. if xmm_set (qp x i) then x\<lparr>held := held x - {Cdev i}\<rparr> else x)
                     [0..<8] xmm;
            xmm2 = xmm7360_cmd_ring_free xmm1;
            xmm3 = fold (\<lambda>i x. if irq x i \<noteq> 0 then x\<lparr>held := held x - {Irq i}\<rparr> else x)
                     [0..<4] xmm2
        in Inr (xmm3\<lparr>held := held xmm3 - {IrqVectors} - {Region 0} - {Region 2}
                                - {PciEnabled} - {DevStruct}\<rparr>))"

text \<open>\<^verbatim>\<open>xmm7360_create_cdev\<close>.\<close>

definition xmm7360_create_cdev :: "kernel \<Rightarrow> nat \<Rightarrow> xmm_dev \<Rightarrow> int \<times> xmm_dev" where
  "xmm7360_create_cdev k num' xmm =
     (let xmm1 = xmm\<lparr>qp := (qp xmm)(num' := \<lparr>xmm_set = True, num = int num', open = 0\<rparr>)\<rparr>;
          ret = cdev_device_add_ret k num'
      in if ret \<noteq> 0 then (ret, xmm1)
         else (0, xmm1\<lparr>held := insert (Cdev num') (held xmm1)\<rparr>))"

text \<open>
  The loop of \<^verbatim>\<open>xmm7360_probe\<close> that waits for the modem to boot, from round \<open>i\<close> on. The
  result says whether the loop left through the crash-dump branch, and gives the last
  status read.
\<close>

definition STATUS_READY :: u32 where [simp]: "STATUS_READY = 0x600df00d"
definition STATUS_CRASHED :: u32 where [simp]: "STATUS_CRASHED = 0xbadc0ded"

function probe_poll :: "nat \<Rightarrow> u32 \<Rightarrow> xmm_dev \<Rightarrow> halt + (bool \<times> u32 \<times> xmm_dev)" where
  "probe_poll i st xmm =
     (if i < 100
      then (case bar2_read BAR2_STATUS xmm of
              Inl e \<Rightarrow> Inl e
            | Inr (st', xmm1) \<Rightarrow>
                if st' = STATUS_READY then Inr (False, st', xmm1)
                else if st' = STATUS_CRASHED then Inr (True, st', xmm1)
                else probe_poll (i + 1) st' (emit (Mdelay 200) xmm1))
      else Inr (False, st, xmm))"
  by pat_completeness auto
termination
  by (relation "measure (\<lambda>(i, s, x). 100 - i)") auto

text \<open>The label \<^verbatim>\<open>fail\<close> of \<^verbatim>\<open>xmm7360_probe\<close>: \<^verbatim>\<open>xmm7360_remove(dev); return ret;\<close>\<close>

definition probe_fail :: "int \<Rightarrow> xmm_dev \<Rightarrow> halt + (int \<times> xmm_dev)" where
  "probe_fail ret xmm =
     (case xmm7360_remove xmm of Inl e \<Rightarrow> Inl e | Inr xmm' \<Rightarrow> Inr (ret, xmm'))"

text \<open>
  \<^verbatim>\<open>xmm7360_probe\<close>, on a modem that answers register reads by \<open>dev\<close> and a pool of bus
  addresses \<open>pool\<close>. \<^verbatim>\<open>xmm->pci_dev = dev\<close> comes before the test of \<^verbatim>\<open>xmm\<close>, so a failed
  \<^verbatim>\<open>kzalloc\<close> is a NULL dereference. The test after \<^verbatim>\<open>pci_set_dma_mask\<close> reads the \<^verbatim>\<open>ret\<close> that
  the last \<^verbatim>\<open>request_irq\<close> left.
\<close>

definition xmm7360_probe ::
  "kernel \<Rightarrow> (nat \<Rightarrow> nat \<Rightarrow> u32) \<Rightarrow> (nat \<Rightarrow> dma_addr_t) \<Rightarrow> halt + (int \<times> xmm_dev)" where
  "xmm7360_probe k dev pool =
     (if \<not> kzalloc_ok k then Inl NullPointer
      else
        let xmm = (zero_xmm_dev dev pool)\<lparr>held := {DevStruct}\<rparr>
        in if pci_enable_device_ret k \<noteq> 0 then probe_fail (pci_enable_device_ret k) xmm
        else
        let xmm = xmm\<lparr>held := insert PciEnabled (held xmm)\<rparr>
        in if pci_request_region_ret k 0 \<noteq> 0 then probe_fail (pci_request_region_ret k 0) xmm
        else
        let xmm = xmm\<lparr>held := insert (Region 0) (held xmm)\<rparr>;
            xmm = (if pci_iomap_ok k 0
                   then xmm\<lparr>bar0 := True, held := insert (IoMap 0) (held xmm)\<rparr> else xmm)
        in if pci_request_region_ret k 2 \<noteq> 0 then probe_fail (pci_request_region_ret k 2) xmm
        else
        let xmm = xmm\<lparr>held := insert (Region 2) (held xmm)\<rparr>;
            xmm = (if pci_iomap_ok k 2
                   then xmm\<lparr>bar2 := True, held := insert (IoMap 2) (held xmm)\<rparr> else xmm)
        in if pci_alloc_irq_vectors_ret k < 0 then probe_fail (pci_alloc_irq_vectors_ret k) xmm
        else
        let xmm = xmm\<lparr>held := insert IrqVectors (held xmm)\<rparr>
        in case for_until [0..<4]
                  (\<lambda>i x. let x1 = x\<lparr>irq := (irq x)(i := pci_irq_vector k i)\<rparr>
                          in if request_irq_ret k i \<noteq> 0 then (request_irq_ret k i, x1)
                             else (0, x1\<lparr>held := insert (Irq i) (held x1)\<rparr>)) xmm
           of (ret, xmm) \<Rightarrow>
        if ret \<noteq> 0 then probe_fail ret xmm
        else
        let xmm = xmm\<lparr>drvdata := True\<rparr>
        in case probe_poll 0 0 xmm of
             Inl e \<Rightarrow> Inl e
           | Inr (crashed, st, xmm) \<Rightarrow>
        if crashed then probe_fail (- EINVAL) xmm
        else if st \<noteq> STATUS_READY then probe_fail (- EINVAL) xmm
        else if ret \<noteq> 0 then probe_fail ret xmm
        else
        (case xmm7360_cmd_ring_init xmm (cmd_ring_wakeup k) of
           Inl e \<Rightarrow> Inl e
         | Inr (ret, xmm) \<Rightarrow>
        if ret \<noteq> 0 then probe_fail ret xmm
        else
        (case for_until [0..<8] (xmm7360_create_cdev k) xmm of
           (ret, xmm) \<Rightarrow>
        if ret \<noteq> 0 then probe_fail ret xmm else Inr (ret, xmm))))"

section \<open>Closed forms of the states the operations leave\<close>

text \<open>
  The functions of this section are not in the source. Each one writes down the state an
  operation of the driver leaves when it returns; the lemmas that follow the definitions
  prove that the operation returns exactly that state.
\<close>

text \<open>After \<^verbatim>\<open>xmm7360_ding\<close>.\<close>

definition rung :: "int \<Rightarrow> xmm_dev \<Rightarrow> xmm_dev" where
  "rung bell x =
     (case cp x of
        None \<Rightarrow> x
      | Some c \<Rightarrow>
          emit (Bar0Write BAR0_DOORBELL (of_int bell))
            (if asleep (status c) \<noteq> 0 then emit (Bar0Write BAR0_WAKEUP 1) x else x))"

text \<open>The state a successful submission leaves.\<close>

definition submitted ::
  "xmm_dev \<Rightarrow> control_page \<Rightarrow> u8 \<Rightarrow> u8 \<Rightarrow> u16 \<Rightarrow> dma_addr_t \<Rightarrow> u32 \<Rightarrow> xmm_dev" where
  "submitted xmm c cmd' parm' len' ptr' extra' =
     xmm\<lparr>cp := Some (c\<lparr>c_ring := (c_ring c)(unat (c_wptr c) :=
                 \<lparr>ptr = ptr', len = len', parm = parm', cmd = cmd',
                  extra = extra', unk = 0, flags = CMD_FLAG_READY\<rparr>),
               c_wptr := of_nat ((unat (c_wptr c) + 1) mod 128)\<rparr>),
         trace := trace xmm @
           [Store (CRing (unat (c_wptr c)) F_ptr), Store (CRing (unat (c_wptr c)) F_cmd),
            Store (CRing (unat (c_wptr c)) F_parm), Store (CRing (unat (c_wptr c)) F_len),
            Store (CRing (unat (c_wptr c)) F_extra), Store (CRing (unat (c_wptr c)) F_unk),
            Store (CRing (unat (c_wptr c)) F_flags), Store CWptr]\<rparr>"

text \<open>
  After a call of \<^verbatim>\<open>xmm7360_cmd_ring_submit\<close> whose result the caller drops: the command
  is in the ring if there was room, and the state is unchanged if there was none.
\<close>

definition queued_cp ::
  "u8 \<Rightarrow> u8 \<Rightarrow> u16 \<Rightarrow> dma_addr_t \<Rightarrow> u32 \<Rightarrow> control_page \<Rightarrow> control_page" where
  "queued_cp cmd' parm' len' ptr' extra' c =
     (if c_rptr c = of_nat ((unat (c_wptr c) + 1) mod 128) then c
      else c\<lparr>c_ring := (c_ring c)(unat (c_wptr c) :=
                 \<lparr>ptr = ptr', len = len', parm = parm', cmd = cmd',
                  extra = extra', unk = 0, flags = CMD_FLAG_READY\<rparr>),
             c_wptr := of_nat ((unat (c_wptr c) + 1) mod 128)\<rparr>)"

definition queued :: "u8 \<Rightarrow> u8 \<Rightarrow> u16 \<Rightarrow> dma_addr_t \<Rightarrow> u32 \<Rightarrow> xmm_dev \<Rightarrow> xmm_dev" where
  "queued cmd' parm' len' ptr' extra' x =
     (case cp x of
        None \<Rightarrow> x
      | Some c \<Rightarrow>
          if c_rptr c = of_nat ((unat (c_wptr c) + 1) mod 128) then x
          else submitted x c cmd' parm' len' ptr' extra')"

text \<open>
  In \<^verbatim>\<open>xmm7360_td_ring_create\<close>: the ring structure installed before the loop, and the
  state after \<open>m\<close> rounds of the loop over a ring of \<open>n\<close> slots.
\<close>

definition installed :: "nat \<Rightarrow> u8 \<Rightarrow> xmm_dev \<Rightarrow> xmm_dev" where
  "installed rid size' x =
     x\<lparr>td_ring := (td_ring x)(rid := zero_td_ring
          \<lparr>size_ring := size', page_size := 0x1000,
           tds := replicate (unat size') \<lparr>addr = 0, length_td = 0, flags_td = 0, unk_td = 0\<rparr>,
           tds_phys := dma_pool x (dma_allocs x),
           pages := replicate (unat size') [],
           pages_phys := replicate (unat size') 0\<rparr>),
       dma_allocs := Suc (dma_allocs x)\<rparr>"

definition created :: "nat \<Rightarrow> nat \<Rightarrow> nat \<Rightarrow> xmm_dev \<Rightarrow> xmm_dev" where
  "created rid n m x =
     x\<lparr>td_ring := (td_ring x)(rid := (td_ring x rid)
          \<lparr>pages := replicate m (replicate (unat (page_size (td_ring x rid))) 0) @ replicate (n - m) [],
           pages_phys := map (\<lambda>i. dma_pool x (dma_allocs x + i)) [0..<m] @ replicate (n - m) 0,
           tds := map (\<lambda>i. \<lparr>addr = dma_pool x (dma_allocs x + i), length_td = 0,
                            flags_td = 0, unk_td = 0\<rparr>) [0..<m]
                  @ replicate (n - m) \<lparr>addr = 0, length_td = 0, flags_td = 0, unk_td = 0\<rparr>\<rparr>),
       dma_allocs := dma_allocs x + m,
       trace := trace x @ map (\<lambda>i. Store (Tds rid i F_addr)) [0..<m]\<rparr>"

definition pointers_reset :: "nat \<Rightarrow> xmm_dev \<Rightarrow> xmm_dev" where
  "pointers_reset rid x =
     (case cp x of
        None \<Rightarrow> x
      | Some c \<Rightarrow>
          x\<lparr>cp := Some (c\<lparr>s_wptr := (s_wptr c)(rid := 0), s_rptr := (s_rptr c)(rid := 0)\<rparr>),
            trace := trace x @ [Store (SWptr rid), Store (SRptr rid)]\<rparr>)"

text \<open>After \<^verbatim>\<open>xmm7360_td_ring_create\<close>.\<close>

definition ring_created :: "u8 \<Rightarrow> u8 \<Rightarrow> xmm_dev \<Rightarrow> xmm_dev" where
  "ring_created ring_id size' x =
     (let x1 = pointers_reset (unat ring_id)
                 (created (unat ring_id) (unat size') (unat size') (installed (unat ring_id) size' x))
      in rung DOORBELL_CMD
           (queued CMD_RING_OPEN ring_id (ucast size') (tds_phys (td_ring x1 (unat ring_id))) 0x60 x1))"

text \<open>
  After \<^verbatim>\<open>xmm7360_td_ring_read\<close> on a receive ring that is not full: the descriptor at the
  write pointer offers a whole page, and the write pointer has moved on.
\<close>

definition posted :: "nat \<Rightarrow> xmm_dev \<Rightarrow> xmm_dev" where
  "posted rid x =
     (case cp x of
        None \<Rightarrow> x
      | Some c \<Rightarrow>
          x\<lparr>td_ring := (td_ring x)(rid := (td_ring x rid)
               \<lparr>tds := (tds (td_ring x rid))[unat (s_wptr c rid) :=
                    \<lparr>addr = addr (tds (td_ring x rid) ! unat (s_wptr c rid)),
                     length_td = page_size (td_ring x rid), flags_td = 0, unk_td = 0\<rparr>]\<rparr>),
            cp := Some (c\<lparr>s_wptr := (s_wptr c)(rid :=
                 of_nat ((unat (s_wptr c rid) + 1) mod unat (size_ring (td_ring x rid))))\<rparr>),
            trace := trace x @
              [Store (Tds rid (unat (s_wptr c rid)) F_length),
               Store (Tds rid (unat (s_wptr c rid)) F_flags_td),
               Store (Tds rid (unat (s_wptr c rid)) F_unk_td),
               Store (SWptr rid)]\<rparr>)"

text \<open>After \<^verbatim>\<open>xmm7360_qp_start\<close> on a closed queue pair \<open>n\<close> with \<^verbatim>\<open>qp->num\<close> equal to \<open>n\<close>.\<close>

definition qp_started :: "nat \<Rightarrow> xmm_dev \<Rightarrow> xmm_dev" where
  "qp_started n x =
     rung DOORBELL_TD
       ((posted (2 * n + 1) ^^ 7)
          (rung DOORBELL_CMD
             (ring_created (of_nat (2 * n + 1)) 8
                (ring_created (of_nat (2 * n)) 8
                   (x\<lparr>qp := (qp x)(n := (qp x n)\<lparr>open := 1\<rparr>)\<rparr>)))))"

text \<open>The events of the operations, in program order.\<close>

definition ding_trace :: "control_page \<Rightarrow> int \<Rightarrow> event list" where
  "ding_trace c bell =
     (if asleep (status c) \<noteq> 0 then [Bar0Write BAR0_WAKEUP 1] else []) @
     [Bar0Write BAR0_DOORBELL (of_int bell)]"

definition submit_trace :: "nat \<Rightarrow> event list" where
  "submit_trace w =
     [Store (CRing w F_ptr), Store (CRing w F_cmd), Store (CRing w F_parm),
      Store (CRing w F_len), Store (CRing w F_extra), Store (CRing w F_unk),
      Store (CRing w F_flags), Store CWptr]"

definition create_trace :: "nat \<Rightarrow> nat \<Rightarrow> event list" where
  "create_trace rid n =
     map (\<lambda>i. Store (Tds rid i F_addr)) [0..<n] @ [Store (SWptr rid), Store (SRptr rid)]"

definition post_trace :: "nat \<Rightarrow> nat \<Rightarrow> event list" where
  "post_trace rid i =
     [Store (Tds rid i F_length), Store (Tds rid i F_flags_td), Store (Tds rid i F_unk_td),
      Store (SWptr rid)]"

text \<open>
  The events of a call of \<^verbatim>\<open>xmm7360_cmd_ring_submit\<close> on the control page \<open>c\<close>: none if the
  command ring is full.
\<close>

definition queue_trace :: "control_page \<Rightarrow> event list" where
  "queue_trace c =
     (if c_rptr c = of_nat ((unat (c_wptr c) + 1) mod 128) then []
      else submit_trace (unat (c_wptr c)))"

text \<open>The descriptors of a ring after the slots \<open>w, \<dots>, w + d - 1\<close> have been posted.\<close>

definition offered :: "u16 \<Rightarrow> nat \<Rightarrow> nat \<Rightarrow> td_ring_entry list \<Rightarrow> td_ring_entry list" where
  "offered ps w d ts =
     map (\<lambda>i. if w \<le> i \<and> i < w + d
                then \<lparr>addr = addr (ts ! i), length_td = ps, flags_td = 0, unk_td = 0\<rparr>
                else ts ! i) [0..<length ts]"

subsection \<open>The wait for the modem to boot\<close>






subsection \<open>A device with queue pair 0 open\<close>

text \<open>
  The state used to run the theorems on concrete input: queue pair 0 is open, its send
  ring (0) and receive ring (1) have capacity 8 and pages of 4096 zero bytes, and the
  pointers of the two rings are the arguments.
\<close>

definition example_ring :: td_ring where
  "example_ring =
     \<lparr>size_ring = 8, last_handled = 0, page_size = 0x1000,
      tds = replicate 8 \<lparr>addr = 0, length_td = 0, flags_td = 0, unk_td = 0\<rparr>,
      tds_phys = 0, pages = replicate 8 (replicate 4096 0), pages_phys = replicate 8 0\<rparr>"

definition example_page :: "u32 \<Rightarrow> u32 \<Rightarrow> u32 \<Rightarrow> u32 \<Rightarrow> control_page" where
  "example_page w0 r0 w1 r1 =
     zero_control_page\<lparr>s_wptr := (\<lambda>_. 0)(0 := w0, 1 := w1), s_rptr := (\<lambda>_. 0)(0 := r0, 1 := r1)\<rparr>"

definition example_xmm :: "u32 \<Rightarrow> u32 \<Rightarrow> u32 \<Rightarrow> u32 \<Rightarrow> xmm_dev" where
  "example_xmm w0 r0 w1 r1 =
     (zero_xmm_dev (\<lambda>_ _. 0) (\<lambda>_. 0))
       \<lparr>bar0 := True, bar2 := True,
        cp := Some (example_page w0 r0 w1 r1),
        td_ring := (\<lambda>_. zero_td_ring)(0 := example_ring, 1 := example_ring),
        qp := (\<lambda>i. \<lparr>xmm_set = True, num = int i, open = 0\<rparr>)
                (0 := \<lparr>xmm_set = True, num = 0, open = 1\<rparr>)\<rparr>"

subsection \<open>A device with every queue pair closed\<close>

text \<open>
  The state after a successful probe, with the command-ring pointers as arguments: the
  register windows are mapped, the control page is allocated, and the eight queue pairs
  are closed.
\<close>

definition closed_xmm :: "u32 \<Rightarrow> u32 \<Rightarrow> xmm_dev" where
  "closed_xmm cw cr =
     (zero_xmm_dev (\<lambda>_ _. 0) (\<lambda>_. 0))
       \<lparr>bar0 := True, bar2 := True,
        cp := Some (zero_control_page\<lparr>c_wptr := cw, c_rptr := cr\<rparr>),
        qp := (\<lambda>i. \<lparr>xmm_set = True, num = int i, open = 0\<rparr>)\<rparr>"

subsection \<open>A delivery on the receive ring of pair 0\<close>

text \<open>
  Queue pair 0 right after it was opened and the modem delivered five bytes: the receive
  ring has write pointer 7 and read pointer 1, nothing is handled yet
  (\<^verbatim>\<open>last_handled = 0\<close>), the slots 0 to 6 were posted with the length of a page, and the
  modem has put the bytes 1 to 5 into page 0 and the length 5 and the flag
  \<^verbatim>\<open>TD_FLAG_COMPLETE\<close> into descriptor 0. The second definition is the state after one
  \<^verbatim>\<open>read\<close> of that pair.
\<close>

definition example_delivered :: xmm_dev where
  "example_delivered =
     (example_xmm 0 0 7 1)
       \<lparr>td_ring := (\<lambda>_. zero_td_ring)
          (0 := example_ring,
           1 := example_ring
             \<lparr>tds := \<lparr>addr = 0, length_td = 5, flags_td = TD_FLAG_COMPLETE, unk_td = 0\<rparr> #
                     replicate 6 \<lparr>addr = 0, length_td = 0x1000, flags_td = 0, unk_td = 0\<rparr> @
                     [\<lparr>addr = 0, length_td = 0, flags_td = 0, unk_td = 0\<rparr>],
              pages := ([1, 2, 3, 4, 5] @ replicate 4091 0) # replicate 7 (replicate 4096 0)\<rparr>)\<rparr>"

definition example_after_read :: xmm_dev where
  "example_after_read =
     (example_xmm 0 0 0 1)
       \<lparr>td_ring := (\<lambda>_. zero_td_ring)
          (0 := example_ring,
           1 := example_ring
             \<lparr>last_handled := 1,
              tds := \<lparr>addr = 0, length_td = 5, flags_td = TD_FLAG_COMPLETE, unk_td = 0\<rparr> #
                     replicate 6 \<lparr>addr = 0, length_td = 0x1000, flags_td = 0, unk_td = 0\<rparr> @
                     [\<lparr>addr = 0, length_td = 0x1000, flags_td = 0, unk_td = 0\<rparr>],
              pages := ([1, 2, 3, 4, 5] @ replicate 4091 0) # replicate 7 (replicate 4096 0)\<rparr>),
        trace := post_trace 1 7 @ [Bar0Write BAR0_DOORBELL 0]\<rparr>"

subsection \<open>Kernels and modems for the bring-up\<close>

text \<open>
  A modem that completes every queued command when the driver waits for the command
  ring, a kernel in which every call of \<^verbatim>\<open>xmm7360_probe\<close> succeeds, and a pool of bus
  addresses.
\<close>

definition drains :: wakeup where
  "drains = Progress (\<lambda>c. c\<lparr>c_rptr := c_wptr c\<rparr>)"


definition example_pool :: "nat \<Rightarrow> dma_addr_t" where
  "example_pool n = 0x10000 * (of_nat n + 1)"



definition stuck_modem :: "nat \<Rightarrow> nat \<Rightarrow> u32" where
  "stuck_modem reg n =
     (if reg = BAR2_STATUS then STATUS_READY else if reg = BAR2_MODE then 1 else 0)"

text \<open>
  The device structure as \<^verbatim>\<open>xmm7360_probe\<close> passes it to \<^verbatim>\<open>xmm7360_cmd_ring_init\<close>, on the
  modem whose mode register stays at 1: both register windows are mapped.
\<close>

definition stuck_xmm :: xmm_dev where
  "stuck_xmm = (zero_xmm_dev stuck_modem example_pool)\<lparr>bar0 := True, bar2 := True\<rparr>"

section \<open>Properties of the command ring\<close>

lemma entry_all_fields [simp]:
  "(e::cmd_ring_entry)\<lparr>ptr := a, cmd := b, parm := p, len := l, extra := x, unk := u, flags := f\<rparr>
     = \<lparr>ptr = a, len = l, parm = p, cmd = b, extra = x, unk = u, flags = f\<rparr>"
  by (cases e) simp

lemma ucast_of_nat_small: "n < 256 \<Longrightarrow> (ucast (of_nat n :: u8) :: u32) = of_nat n"
  by (simp add: ucast_eq unsigned_of_nat take_bit_nat_eq_self)

lemma unat_u8_trunc: "unat (ucast (x::u32) :: u8) = unat x mod 256"
  by (simp add: unsigned_ucast_eq take_bit_eq_mod)

lemma next_trunc: "(unat (ucast (x::u32) :: u8) + 1) mod 128 = (unat x + 1) mod 128"
proof -
  have "unat x mod 256 mod 128 = unat x mod 128"
    by (rule mod_mod_cancel) simp
  then show ?thesis
    unfolding unat_u8_trunc
    by (metis mod_add_left_eq)
qed

lemma ucast_next: "(ucast (of_nat (n mod 128) :: u8) :: u32) = of_nat (n mod 128)"
proof -
  have "n mod 128 < 256" by (rule less_trans [of _ 128]) simp_all
  then show ?thesis by (rule ucast_of_nat_small)
qed

lemma steps_submit:
  assumes "cp xmm = Some c" "w < 128"
  shows "steps
           [c_ring_store w F_ptr (\<lambda>e. e\<lparr>ptr := ptr'\<rparr>),
            c_ring_store w F_cmd (\<lambda>e. e\<lparr>cmd := cmd'\<rparr>),
            c_ring_store w F_parm (\<lambda>e. e\<lparr>parm := parm'\<rparr>),
            c_ring_store w F_len (\<lambda>e. e\<lparr>len := len'\<rparr>),
            c_ring_store w F_extra (\<lambda>e. e\<lparr>extra := extra'\<rparr>),
            c_ring_store w F_unk (\<lambda>e. e\<lparr>unk := 0\<rparr>),
            c_ring_store w F_flags (\<lambda>e. e\<lparr>flags := CMD_FLAG_READY\<rparr>),
            cp_store CWptr (\<lambda>c. c\<lparr>c_wptr := nw\<rparr>)] xmm
         = Inr (xmm\<lparr>cp := Some (c\<lparr>c_ring := (c_ring c)(w :=
                        \<lparr>ptr = ptr', len = len', parm = parm', cmd = cmd',
                         extra = extra', unk = 0, flags = CMD_FLAG_READY\<rparr>),
                      c_wptr := nw\<rparr>),
                  trace := trace xmm @
                    [Store (CRing w F_ptr), Store (CRing w F_cmd), Store (CRing w F_parm),
                     Store (CRing w F_len), Store (CRing w F_extra), Store (CRing w F_unk),
                     Store (CRing w F_flags), Store CWptr]\<rparr>)"
  using assms
  by (simp add: c_ring_store_def cp_store_def emit_def)

lemma submit_full:
  assumes "cp xmm = Some c" "c_rptr c = of_nat ((unat (c_wptr c) + 1) mod 128)"
  shows "xmm7360_cmd_ring_submit xmm cmd' parm' len' ptr' extra' = Inr (- EAGAIN, xmm)"
  using assms
  by (simp add: xmm7360_cmd_ring_submit_def Let_def next_trunc [simplified] ucast_next
      del: steps.simps)

lemma submit_room:
  assumes "cp xmm = Some c" "c_rptr c \<noteq> of_nat ((unat (c_wptr c) + 1) mod 128)"
    "c_wptr c < 128"
  shows "xmm7360_cmd_ring_submit xmm cmd' parm' len' ptr' extra' =
           Inr (0, submitted xmm c cmd' parm' len' ptr' extra')"
proof -
  have w: "unat (c_wptr c) < 128" using assms(3) by (simp add: word_less_nat_alt)
  then have t: "unat (ucast (c_wptr c) :: u8) = unat (c_wptr c)" by (simp add: unat_u8_trunc)
  show ?thesis
    using assms(1,2) w steps_submit [OF assms(1) w, of ptr' cmd' parm' len' extra'
        "of_nat ((unat (c_wptr c) + 1) mod 128)"]
    by (simp add: xmm7360_cmd_ring_submit_def submitted_def Let_def t ucast_next
        del: steps.simps)
qed

lemma not_pending_wptr: "\<not> cmd_pending c (unat (c_wptr c))"
  by (simp add: cmd_pending_def)

text \<open>
  Claim C1. With the write pointer inside the ring (which every submission preserves),
  submit computes \<open>next = (writePtr + 1) mod 128\<close>. If \<open>next\<close> equals the read pointer it
  returns \<open>-EAGAIN\<close> and the state, trace included, is the one it was given. Otherwise
  it returns 0 and the trace grows by the seven field stores to the entry at the old write
  pointer followed, last, by the store of the write pointer; the entry holds the
  arguments, \<open>unk = 0\<close> and the READY flag; the write pointer is \<open>next\<close>; the entry
  written is not among the entries pending for the modem, so every pending entry is as
  it was.
\<close>

theorem C1_cmd_ring_submit:
  assumes "cp xmm = Some c" and "c_wptr c < 128"
  shows "xmm7360_cmd_ring_submit xmm cmd' parm' len' ptr' extra' =
           (if c_rptr c = of_nat ((unat (c_wptr c) + 1) mod 128)
            then Inr (- EAGAIN, xmm)
            else Inr (0,
              xmm\<lparr>cp := Some (c\<lparr>c_ring := (c_ring c)(unat (c_wptr c) :=
                          \<lparr>ptr = ptr', len = len', parm = parm', cmd = cmd',
                           extra = extra', unk = 0, flags = CMD_FLAG_READY\<rparr>),
                        c_wptr := of_nat ((unat (c_wptr c) + 1) mod 128)\<rparr>),
                  trace := trace xmm @
                    [Store (CRing (unat (c_wptr c)) F_ptr), Store (CRing (unat (c_wptr c)) F_cmd),
                     Store (CRing (unat (c_wptr c)) F_parm), Store (CRing (unat (c_wptr c)) F_len),
                     Store (CRing (unat (c_wptr c)) F_extra), Store (CRing (unat (c_wptr c)) F_unk),
                     Store (CRing (unat (c_wptr c)) F_flags), Store CWptr]\<rparr>))
         \<and> \<not> cmd_pending c (unat (c_wptr c))
         \<and> (\<forall>i e. cmd_pending c i \<longrightarrow> ((c_ring c)(unat (c_wptr c) := e)) i = c_ring c i)"
proof (intro conjI)
  show "xmm7360_cmd_ring_submit xmm cmd' parm' len' ptr' extra' =
           (if c_rptr c = of_nat ((unat (c_wptr c) + 1) mod 128)
            then Inr (- EAGAIN, xmm)
            else Inr (0,
              xmm\<lparr>cp := Some (c\<lparr>c_ring := (c_ring c)(unat (c_wptr c) :=
                          \<lparr>ptr = ptr', len = len', parm = parm', cmd = cmd',
                           extra = extra', unk = 0, flags = CMD_FLAG_READY\<rparr>),
                        c_wptr := of_nat ((unat (c_wptr c) + 1) mod 128)\<rparr>),
                  trace := trace xmm @
                    [Store (CRing (unat (c_wptr c)) F_ptr), Store (CRing (unat (c_wptr c)) F_cmd),
                     Store (CRing (unat (c_wptr c)) F_parm), Store (CRing (unat (c_wptr c)) F_len),
                     Store (CRing (unat (c_wptr c)) F_extra), Store (CRing (unat (c_wptr c)) F_unk),
                     Store (CRing (unat (c_wptr c)) F_flags), Store CWptr]\<rparr>))"
  proof (cases "c_rptr c = of_nat ((unat (c_wptr c) + 1) mod 128)")
    case True
    with assms(1) show ?thesis by (simp add: submit_full)
  next
    case False
    with assms show ?thesis by (simp add: submit_room submitted_def)
  qed
  show "\<not> cmd_pending c (unat (c_wptr c))"
    by (rule not_pending_wptr)
  show "\<forall>i e. cmd_pending c i \<longrightarrow> ((c_ring c)(unat (c_wptr c) := e)) i = c_ring c i"
    using not_pending_wptr [of c] by auto
qed

theorem C1_cmd_ring_submit_witness:
  "xmm7360_cmd_ring_submit
      ((zero_xmm_dev (\<lambda>_ _. 0) (\<lambda>_. 0))\<lparr>cp := Some (zero_control_page\<lparr>c_wptr := 127\<rparr>)\<rparr>)
      CMD_RING_OPEN 2 8 0x1000 0x60
    = Inr (- EAGAIN,
      (zero_xmm_dev (\<lambda>_ _. 0) (\<lambda>_. 0))\<lparr>cp := Some (zero_control_page\<lparr>c_wptr := 127\<rparr>)\<rparr>)
   \<and> (\<exists>xmm'. xmm7360_cmd_ring_submit
      ((zero_xmm_dev (\<lambda>_ _. 0) (\<lambda>_. 0))\<lparr>cp := Some (zero_control_page\<lparr>c_wptr := 5, c_rptr := 3\<rparr>)\<rparr>)
      CMD_RING_OPEN 2 8 0x1000 0x60 = Inr (0, xmm')
      \<and> map_option c_wptr (cp xmm') = Some 6
      \<and> map_option (\<lambda>c. c_ring c 5) (cp xmm') =
          Some \<lparr>ptr = 0x1000, len = 8, parm = 2, cmd = 1, extra = 0x60, unk = 0, flags = 2\<rparr>
      \<and> last (trace xmm') = Store CWptr)"
proof -
  let ?x1 = "(zero_xmm_dev (\<lambda>_ _. 0) (\<lambda>_. 0))\<lparr>cp := Some (zero_control_page\<lparr>c_wptr := 127\<rparr>)\<rparr>"
  let ?x2 = "(zero_xmm_dev (\<lambda>_ _. 0) (\<lambda>_. 0))\<lparr>cp := Some (zero_control_page\<lparr>c_wptr := 5, c_rptr := 3\<rparr>)\<rparr>"
  have a1: "cp ?x1 = Some (zero_control_page\<lparr>c_wptr := 127\<rparr>)" by simp
  have b1: "c_wptr (zero_control_page\<lparr>c_wptr := 127\<rparr>) < 128" by simp
  have a2: "cp ?x2 = Some (zero_control_page\<lparr>c_wptr := 5, c_rptr := 3\<rparr>)" by simp
  have b2: "c_wptr (zero_control_page\<lparr>c_wptr := 5, c_rptr := 3\<rparr>) < 128" by simp
  show ?thesis
    using C1_cmd_ring_submit [OF a1 b1, where cmd' = CMD_RING_OPEN and parm' = 2 and len' = 8
          and ptr' = "0x1000" and extra' = "0x60"]
      C1_cmd_ring_submit [OF a2 b2, where cmd' = CMD_RING_OPEN and parm' = 2 and len' = 8
          and ptr' = "0x1000" and extra' = "0x60"]
    by (simp add: zero_control_page_def)
qed

section \<open>Properties of the transfer-descriptor rings\<close>

lemma k_cases: "k < 8 \<Longrightarrow> k = (7::nat) \<or> k = 6 \<or> k = 5 \<or> k = 4 \<or> k < 4 \<and> (k = 3 \<or> k = 2 \<or> k = 1 \<or> k = 0)"
  by linarith

lemma uint_pow2_u8:
  assumes "k < 8"
  shows "uint ((2::u8) ^ k) = 2 ^ k"
  using k_cases [OF assms] by (elim disjE conjE) simp_all

lemma td_next_pow2:
  assumes "sz = (2::u8) ^ k" "k < 8"
  shows "(of_int ((uint (w::u8) + 1) AND (uint sz - 1)) :: u8) = of_nat ((unat w + 1) mod 2 ^ k)"
proof -
  have "uint sz - 1 = mask k"
    using assms by (simp add: uint_pow2_u8 mask_eq_exp_minus_1)
  then have "(uint w + 1) AND (uint sz - 1) = (uint w + 1) mod 2 ^ k"
    by (simp only: take_bit_eq_mod flip: take_bit_eq_mask)
  also have "\<dots> = int ((unat w + 1) mod 2 ^ k)"
    by (simp add: zmod_int add.commute)
  finally show ?thesis by simp
qed

lemma mod_pow2_u8_trunc:
  assumes "k < 8"
  shows "(unat (ucast (x::u32) :: u8) + 1) mod 2 ^ k = (unat x + 1) mod 2 ^ k"
proof -
  have "(2::nat) ^ k dvd 2 ^ 8" using assms by (intro le_imp_power_dvd) simp
  then have "unat x mod 256 mod 2 ^ k = unat x mod 2 ^ k"
    by (simp add: mod_mod_cancel)
  then show ?thesis
    unfolding unat_u8_trunc by (metis mod_add_left_eq)
qed

lemma pow2_lt_256:
  assumes "k < 8"
  shows "n mod 2 ^ k < (256::nat)"
proof -
  have b: "(2::nat) ^ k \<le> 2 ^ 7" using assms by (intro power_increasing) simp_all
  have a: "n mod 2 ^ k < 2 ^ k" by simp
  from a b have "n mod 2 ^ k < 2 ^ 7" by (rule less_le_trans)
  then show ?thesis by simp
qed

lemma ucast_u8_eq_u32:
  assumes "n < 256"
  shows "((ucast (of_nat n :: u8) :: u32) = r) = (n = unat r)"
proof -
  have "(ucast (of_nat n :: u8) :: u32) = of_nat n"
    using assms by (rule ucast_of_nat_small)
  moreover have "((of_nat n :: u32) = r) = (n = unat r)"
    using assms by (auto simp add: unat_of_nat dest: of_nat_inverse)
  ultimately show ?thesis by simp
qed

lemma td_ring_full_pow2:
  assumes "cp xmm = Some c" "unat ring_id < 16"
    "size_ring (td_ring xmm (unat ring_id)) = 2 ^ k" "k < 8"
  shows "xmm7360_td_ring_full xmm ring_id =
           Inr ((unat (s_wptr c (unat ring_id)) + 1) mod 2 ^ k = unat (s_rptr c (unat ring_id)))"
  using assms
  by (simp add: xmm7360_td_ring_full_def Let_def td_next_pow2 [OF _ assms(4)]
      mod_pow2_u8_trunc [simplified] ucast_u8_eq_u32 pow2_lt_256)

lemma full_iff_int:
  fixes W R C :: int
  assumes "0 \<le> R" "R < C"
  shows "((W + 1) mod C = R) = ((W - R) mod C = C - 1)"
proof -
  have R: "R mod C = R"
    using assms by simp
  have C1: "(C - 1) mod C = C - 1"
    using assms by (intro mod_pos_pos_trivial) linarith+
  have "((W + 1) mod C = R) = ((W + 1) mod C = R mod C)"
    by (simp only: R)
  also have "\<dots> = (C dvd (W + 1 - R))"
    by (rule mod_eq_dvd_iff)
  also have "\<dots> = (C dvd ((W - R) - (C - 1) + C))"
    by (simp add: algebra_simps)
  also have "\<dots> = (C dvd ((W - R) - (C - 1)))"
    by (rule dvd_add_triv_right_iff)
  also have "\<dots> = ((W - R) mod C = (C - 1) mod C)"
    by (rule mod_eq_dvd_iff [symmetric])
  finally show ?thesis by (simp only: C1)
qed

lemma incr_int:
  fixes D C :: int
  assumes "0 < C" "D mod C \<noteq> C - 1"
  shows "(D + 1) mod C = D mod C + 1"
proof -
  have "0 \<le> D mod C" "D mod C < C"
    using assms(1) by simp_all
  with assms(2) have "0 \<le> D mod C + 1" "D mod C + 1 < C" by linarith+
  then have "(D mod C + 1) mod C = D mod C + 1"
    by (rule mod_pos_pos_trivial)
  then show ?thesis by (simp add: mod_add_left_eq)
qed


lemma uint_next_u32:
  assumes "k < 8"
  shows "uint (of_nat ((unat (w::u32) + 1) mod 2 ^ k) :: u32) = (uint w + 1) mod 2 ^ k"
proof -
  have "(unat w + 1) mod 2 ^ k < 256" using assms by (rule pow2_lt_256)
  then have "(unat w + 1) mod 2 ^ k < 2 ^ 32" by simp
  then have "unat (of_nat ((unat w + 1) mod 2 ^ k) :: u32) = (unat w + 1) mod 2 ^ k"
    by (simp add: unat_of_nat)
  then have "uint (of_nat ((unat w + 1) mod 2 ^ k) :: u32) = int ((unat w + 1) mod 2 ^ k)"
    by (metis uint_nat)
  then show ?thesis by (simp add: zmod_int add.commute)
qed

text \<open>
  Claim C2. For a ring whose capacity is a power of two \<open>C = 2 ^ k\<close> and any write and
  read pointers, the fullness check returns whether \<open>(writePtr + 1) mod C = readPtr\<close>.
  With the read pointer inside the ring this is the case exactly when \<open>C - 1\<close> entries are
  outstanding. The number outstanding is at most \<open>C - 1\<close>, and advancing the write
  pointer of a ring that is not full adds one to it.
\<close>

theorem C2_td_ring_full:
  assumes "cp xmm = Some c" and "unat ring_id < 16"
    and "size_ring (td_ring xmm (unat ring_id)) = 2 ^ k" and "k < 8"
  shows "xmm7360_td_ring_full xmm ring_id =
           Inr ((unat (s_wptr c (unat ring_id)) + 1) mod 2 ^ k = unat (s_rptr c (unat ring_id)))
       \<and> (unat (s_rptr c (unat ring_id)) < 2 ^ k \<longrightarrow>
            (xmm7360_td_ring_full xmm ring_id = Inr True) =
              (td_outstanding c (unat ring_id) (2 ^ k) = 2 ^ k - 1))
       \<and> td_outstanding c (unat ring_id) (2 ^ k) \<le> 2 ^ k - 1
       \<and> (unat (s_rptr c (unat ring_id)) < 2 ^ k \<longrightarrow>
            xmm7360_td_ring_full xmm ring_id = Inr False \<longrightarrow>
            td_outstanding
              (c\<lparr>s_wptr := (s_wptr c)(unat ring_id :=
                   of_nat ((unat (s_wptr c (unat ring_id)) + 1) mod 2 ^ k))\<rparr>)
              (unat ring_id) (2 ^ k)
            = td_outstanding c (unat ring_id) (2 ^ k) + 1)"
proof -
  let ?W = "uint (s_wptr c (unat ring_id))" and ?R = "uint (s_rptr c (unat ring_id))"
  let ?C = "(2::int) ^ k"
  have full: "xmm7360_td_ring_full xmm ring_id =
           Inr ((unat (s_wptr c (unat ring_id)) + 1) mod 2 ^ k = unat (s_rptr c (unat ring_id)))"
    using assms by (rule td_ring_full_pow2)
  have cond: "((unat (s_wptr c (unat ring_id)) + 1) mod 2 ^ k = unat (s_rptr c (unat ring_id)))
      = ((?W + 1) mod ?C = ?R)"
  proof -
    have "((?W + 1) mod ?C = ?R) =
      (int ((unat (s_wptr c (unat ring_id)) + 1) mod 2 ^ k) = int (unat (s_rptr c (unat ring_id))))"
      by (simp add: zmod_int add.commute)
    then show ?thesis by (simp only: of_nat_eq_iff)
  qed
  have Cpos: "0 < ?C" by simp
  have out: "int (td_outstanding c (unat ring_id) (2 ^ k)) = (?W - ?R) mod ?C"
    by (simp add: td_outstanding_def)
  have c1: "int (2 ^ k - 1 :: nat) = ?C - 1"
    by (simp add: of_nat_diff)
  have iff: "unat (s_rptr c (unat ring_id)) < 2 ^ k \<Longrightarrow>
      ((?W + 1) mod ?C = ?R) = (td_outstanding c (unat ring_id) (2 ^ k) = 2 ^ k - 1)"
  proof -
    assume "unat (s_rptr c (unat ring_id)) < 2 ^ k"
    then have "?R < ?C"
      by (metis of_nat_less_iff of_nat_numeral of_nat_power uint_nat)
    then have "((?W + 1) mod ?C = ?R) = ((?W - ?R) mod ?C = ?C - 1)"
      by (intro full_iff_int) simp_all
    also have "\<dots> = (int (td_outstanding c (unat ring_id) (2 ^ k)) = int (2 ^ k - 1))"
      by (simp only: out c1)
    finally show ?thesis by (simp only: of_nat_eq_iff)
  qed
  have le: "td_outstanding c (unat ring_id) (2 ^ k) \<le> 2 ^ k - 1"
  proof -
    have "(?W - ?R) mod ?C < ?C" using Cpos by (rule pos_mod_bound)
    then have "int (td_outstanding c (unat ring_id) (2 ^ k)) \<le> int (2 ^ k - 1)"
      by (simp only: out c1)
    then show ?thesis by (simp only: of_nat_le_iff)
  qed
  have step: "td_outstanding
              (c\<lparr>s_wptr := (s_wptr c)(unat ring_id :=
                   of_nat ((unat (s_wptr c (unat ring_id)) + 1) mod 2 ^ k))\<rparr>)
              (unat ring_id) (2 ^ k)
            = td_outstanding c (unat ring_id) (2 ^ k) + 1"
    if r: "unat (s_rptr c (unat ring_id)) < 2 ^ k"
      and nf: "xmm7360_td_ring_full xmm ring_id = Inr False"
  proof -
    from nf full cond have "(?W + 1) mod ?C \<noteq> ?R" by simp
    with iff [OF r] have "td_outstanding c (unat ring_id) (2 ^ k) \<noteq> 2 ^ k - 1" by simp
    then have "int (td_outstanding c (unat ring_id) (2 ^ k)) \<noteq> int (2 ^ k - 1)"
      by (simp only: of_nat_eq_iff) simp
    then have ne: "(?W - ?R) mod ?C \<noteq> ?C - 1" by (simp only: out c1) simp
    have "((?W + 1) mod ?C - ?R) mod ?C = (?W - ?R + 1) mod ?C"
      by (simp add: mod_diff_left_eq algebra_simps)
    also have "\<dots> = (?W - ?R) mod ?C + 1"
      using Cpos ne by (rule incr_int)
    finally have "int (td_outstanding
              (c\<lparr>s_wptr := (s_wptr c)(unat ring_id :=
                   of_nat ((unat (s_wptr c (unat ring_id)) + 1) mod 2 ^ k))\<rparr>)
              (unat ring_id) (2 ^ k))
            = int (td_outstanding c (unat ring_id) (2 ^ k) + 1)"
      by (simp add: td_outstanding_def uint_next_u32 [OF assms(4), simplified])
    then show ?thesis by (simp only: of_nat_eq_iff)
  qed
  show ?thesis
    using full cond iff le step by simp
qed

theorem C2_td_ring_full_witness:
  "xmm7360_td_ring_full (example_xmm 0 0 7 0) 1 = Inr True
   \<and> td_outstanding (example_page 0 0 7 0) 1 8 = 7
   \<and> xmm7360_td_ring_full (example_xmm 0 0 2 0) 1 = Inr False
   \<and> td_outstanding (example_page 0 0 2 0) 1 8 = 2
   \<and> td_outstanding ((example_page 0 0 2 0)\<lparr>s_wptr := (s_wptr (example_page 0 0 2 0))(1 := 3)\<rparr>) 1 8 = 3"
proof -
  have a: "cp (example_xmm 0 0 7 0) = Some (example_page 0 0 7 0)"
    and b: "cp (example_xmm 0 0 2 0) = Some (example_page 0 0 2 0)"
    by (simp_all add: example_xmm_def)
  have i: "unat (1::u8) < 16" by simp
  have s: "size_ring (td_ring (example_xmm 0 0 7 0) (unat (1::u8))) = 2 ^ 3"
    and t: "size_ring (td_ring (example_xmm 0 0 2 0) (unat (1::u8))) = 2 ^ 3"
    by (simp_all add: example_xmm_def example_ring_def)
  have k: "(3::nat) < 8" by simp
  show ?thesis
    using C2_td_ring_full [OF a i s k] C2_td_ring_full [OF b i t k]
    by (simp add: example_page_def zero_control_page_def td_outstanding_def)
qed

subsection \<open>The operations that advance a write pointer\<close>

lemma td_all_fields [simp]:
  "(t::td_ring_entry)\<lparr>length_td := l, flags_td := f, unk_td := u\<rparr>
     = \<lparr>addr = addr t, length_td = l, flags_td = f, unk_td = u\<rparr>"
  by (cases t) simp

lemma u8_index:
  assumes "unat (x::u32) < 2 ^ k" "k < 8"
  shows "unat (ucast x :: u8) = unat x"
proof -
  have "(2::nat) ^ k \<le> 2 ^ 7" using assms(2) by (intro power_increasing) simp_all
  with assms(1) have "unat x < 2 ^ 7" by (rule less_le_trans)
  then show ?thesis by (simp add: unat_u8_trunc)
qed

lemma publish_wptr_eq:
  assumes "cp xmm = Some c"
  shows "publish_wptr rid w xmm =
    (if (ucast w :: u32) = s_rptr c rid then Inl BUG
     else Inr (xmm\<lparr>cp := Some (c\<lparr>s_wptr := (s_wptr c)(rid := ucast w)\<rparr>),
                  trace := trace xmm @ [Store (SWptr rid)]\<rparr>))"
  using assms by (simp add: publish_wptr_def cp_store_def emit_def)

lemma td_ring_write_user_ok:
  assumes c: "cp xmm = Some c" and i: "unat ring_id < 16"
    and sz: "size_ring (td_ring xmm (unat ring_id)) = 2 ^ k" and k: "k < 8"
    and w: "unat (s_wptr c (unat ring_id)) < 2 ^ k"
    and lt: "length (tds (td_ring xmm (unat ring_id))) = 2 ^ k"
    and lp: "length (pages (td_ring xmm (unat ring_id))) = 2 ^ k"
    and pg: "\<forall>p \<in> set (pages (td_ring xmm (unat ring_id))). length p = unat (page_size (td_ring xmm (unat ring_id)))"
    and len: "length data \<le> unat (page_size (td_ring xmm (unat ring_id)))"
    and even: "ring_id AND 1 = 0"
    and nf: "xmm7360_td_ring_full xmm ring_id = Inr False"
  shows "xmm7360_td_ring_write_user xmm ring_id data =
    Inr (xmm\<lparr>td_ring := (td_ring xmm)(unat ring_id := (td_ring xmm (unat ring_id))
               \<lparr>pages := (pages (td_ring xmm (unat ring_id)))[unat (s_wptr c (unat ring_id)) :=
                    data @ drop (length data) (pages (td_ring xmm (unat ring_id)) ! unat (s_wptr c (unat ring_id)))],
                tds := (tds (td_ring xmm (unat ring_id)))[unat (s_wptr c (unat ring_id)) :=
                    \<lparr>addr = addr (tds (td_ring xmm (unat ring_id)) ! unat (s_wptr c (unat ring_id))),
                     length_td = of_nat (length data), flags_td = 0, unk_td = 0\<rparr>]\<rparr>),
             cp := Some (c\<lparr>s_wptr := (s_wptr c)(unat ring_id :=
                  of_nat ((unat (s_wptr c (unat ring_id)) + 1) mod 2 ^ k))\<rparr>),
             trace := trace xmm @
               [Store (Page (unat ring_id) (unat (s_wptr c (unat ring_id)))),
                Store (Tds (unat ring_id) (unat (s_wptr c (unat ring_id))) F_length),
                Store (Tds (unat ring_id) (unat (s_wptr c (unat ring_id))) F_flags_td),
                Store (Tds (unat ring_id) (unat (s_wptr c (unat ring_id))) F_unk_td),
                Store (SWptr (unat ring_id))]\<rparr>)"
proof -
  let ?rid = "unat ring_id" and ?w = "unat (s_wptr c (unat ring_id))"
  let ?ring = "td_ring xmm ?rid"
  have w8: "unat (ucast (s_wptr c ?rid) :: u8) = ?w" using w k by (rule u8_index)
  have nz: "size_ring ?ring \<noteq> 0"
    using sz k k_cases [OF k] by (elim disjE conjE) simp_all
  have pw: "length (pages ?ring ! ?w) = unat (page_size ?ring)"
    using pg lp w by simp
  have nxt: "(of_int ((uint (ucast (s_wptr c ?rid) :: u8) + 1) AND (uint (size_ring ?ring) - 1)) :: u8)
      = of_nat ((?w + 1) mod 2 ^ k)"
    using td_next_pow2 [OF sz k, of "ucast (s_wptr c ?rid)"] by (simp only: w8)
  have nfull: "(ucast (of_nat ((?w + 1) mod 2 ^ k) :: u8) :: u32) \<noteq> s_rptr c ?rid"
    using nf c i by (simp add: xmm7360_td_ring_full_def Let_def nxt)
  have uc: "(ucast (of_nat ((?w + 1) mod 2 ^ k) :: u8) :: u32) = of_nat ((?w + 1) mod 2 ^ k)"
    by (rule ucast_of_nat_small) (rule pow2_lt_256 [OF k])
  show ?thesis
    using c i nz len even w lt lp pw nfull
    by (simp add: xmm7360_td_ring_write_user_def Let_def w8 nxt uc page_copy_def td_store_def
        publish_wptr_eq emit_def del: One_nat_def)
qed


lemma td_store_cp: "td_store rid i fld f xmm = Inr xmm' \<Longrightarrow> cp xmm' = cp xmm"
  by (auto simp: td_store_def Let_def emit_def split: if_splits)

lemma page_copy_cp: "page_copy rid i data xmm = Inr xmm' \<Longrightarrow> cp xmm' = cp xmm"
  by (auto simp: page_copy_def Let_def emit_def split: if_splits)

lemma publish_wptr_cp:
  assumes "publish_wptr rid w xmm = Inr xmm'" "cp xmm = Some c"
  shows "cp xmm' = Some (c\<lparr>s_wptr := (s_wptr c)(rid := ucast w)\<rparr>) \<and> ucast w \<noteq> s_rptr c rid"
  using assms by (auto simp: publish_wptr_eq split: if_splits)

lemma write_steps_cp:
  assumes "steps [page_copy rid i data, td_store rid i f1 g1, td_store rid i f2 g2,
             td_store rid i f3 g3, publish_wptr rid w] xmm = Inr xmm'" "cp xmm = Some c"
  shows "cp xmm' = Some (c\<lparr>s_wptr := (s_wptr c)(rid := ucast w)\<rparr>) \<and> ucast w \<noteq> s_rptr c rid"
proof -
  from assms(1) obtain x1 x2 x3 x4 where
    "page_copy rid i data xmm = Inr x1" "td_store rid i f1 g1 x1 = Inr x2"
    "td_store rid i f2 g2 x2 = Inr x3" "td_store rid i f3 g3 x3 = Inr x4"
    "publish_wptr rid w x4 = Inr xmm'"
    by (auto split: sum.splits)
  then show ?thesis
    using assms(2) by (metis page_copy_cp td_store_cp publish_wptr_cp)
qed

lemma read_steps_cp:
  assumes "steps [td_store rid i f1 g1, td_store rid i f2 g2,
             td_store rid i f3 g3, publish_wptr rid w] xmm = Inr xmm'" "cp xmm = Some c"
  shows "cp xmm' = Some (c\<lparr>s_wptr := (s_wptr c)(rid := ucast w)\<rparr>) \<and> ucast w \<noteq> s_rptr c rid"
proof -
  from assms(1) obtain x2 x3 x4 where
    "td_store rid i f1 g1 xmm = Inr x2"
    "td_store rid i f2 g2 x2 = Inr x3" "td_store rid i f3 g3 x3 = Inr x4"
    "publish_wptr rid w x4 = Inr xmm'"
    by (auto split: sum.splits)
  then show ?thesis
    using assms(2) by (metis td_store_cp publish_wptr_cp)
qed

lemma next_u32:
  assumes "k < 8"
  shows "(ucast (of_nat ((unat (ucast (x::u32) :: u8) + 1) mod 2 ^ k) :: u8) :: u32)
          = of_nat ((unat x + 1) mod 2 ^ k)"
proof -
  have "(ucast (of_nat ((unat x + 1) mod 2 ^ k) :: u8) :: u32) = of_nat ((unat x + 1) mod 2 ^ k)"
    by (rule ucast_of_nat_small) (rule pow2_lt_256 [OF assms])
  then show ?thesis by (simp only: mod_pow2_u8_trunc [OF assms])
qed

lemma unat_next_lt:
  assumes "k < 8"
  shows "unat (of_nat (n mod 2 ^ k) :: u32) < 2 ^ k"
proof -
  have "n mod 2 ^ k < 256" using assms by (rule pow2_lt_256)
  then have "unat (of_nat (n mod 2 ^ k) :: u32) = n mod 2 ^ k"
    by (simp add: unat_of_nat)
  then show ?thesis by simp
qed

lemma write_user_advances:
  assumes "xmm7360_td_ring_write_user xmm ring_id data = Inr xmm'" "cp xmm = Some c"
    "size_ring (td_ring xmm (unat ring_id)) = 2 ^ k" "k < 8"
  shows "cp xmm' = Some (c\<lparr>s_wptr := (s_wptr c)(unat ring_id :=
            of_nat ((unat (s_wptr c (unat ring_id)) + 1) mod 2 ^ k))\<rparr>)"
proof -
  from assms(1,2) have "steps
       [page_copy (unat ring_id) (unat (ucast (s_wptr c (unat ring_id)) :: u8)) data,
        td_store (unat ring_id) (unat (ucast (s_wptr c (unat ring_id)) :: u8)) F_length
          (\<lambda>t. t\<lparr>length_td := of_nat (length data)\<rparr>),
        td_store (unat ring_id) (unat (ucast (s_wptr c (unat ring_id)) :: u8)) F_flags_td (\<lambda>t. t\<lparr>flags_td := 0\<rparr>),
        td_store (unat ring_id) (unat (ucast (s_wptr c (unat ring_id)) :: u8)) F_unk_td (\<lambda>t. t\<lparr>unk_td := 0\<rparr>),
        publish_wptr (unat ring_id)
          (of_int ((uint (ucast (s_wptr c (unat ring_id)) :: u8) + 1) AND (uint (size_ring (td_ring xmm (unat ring_id))) - 1)))] xmm
       = Inr xmm'"
    by (simp add: xmm7360_td_ring_write_user_def Let_def del: steps.simps split: if_splits)
  from write_steps_cp [OF this assms(2)] show ?thesis
    by (simp only: td_next_pow2 [OF assms(3,4)] next_u32 [OF assms(4)])
qed


lemma int_gt_uint: "(int n > uint (x::u16)) = (n > unat x)"
  by (simp only: uint_nat of_nat_less_iff)

lemma td_ring_write_eq_user:
  "xmm7360_td_ring_write xmm ring_id data = xmm7360_td_ring_write_user xmm ring_id data"
  unfolding xmm7360_td_ring_write_def xmm7360_td_ring_write_user_def int_gt_uint
  by (rule refl)

lemma td_store_size:
  "td_store rid i fld f xmm = Inr xmm' \<Longrightarrow>
     size_ring (td_ring xmm' r) = size_ring (td_ring xmm r)
     \<and> page_size (td_ring xmm' r) = page_size (td_ring xmm r)
     \<and> length (tds (td_ring xmm' r)) = length (tds (td_ring xmm r))
     \<and> pages (td_ring xmm' r) = pages (td_ring xmm r)"
  by (auto simp: td_store_def Let_def emit_def split: if_splits)


lemma steps_preserve:
  assumes "steps fs s = Inr s'"
    and "\<And>f x x'. f \<in> set fs \<Longrightarrow> f x = Inr x' \<Longrightarrow> Q x' = Q x"
  shows "Q s' = Q s"
  using assms
proof (induction fs arbitrary: s)
  case Nil
  then show ?case by simp
next
  case (Cons f fs)
  from Cons.prems(1) obtain x where fx: "f s = Inr x" and rest: "steps fs x = Inr s'"
    by (auto split: sum.splits)
  have "Q s' = Q x" using rest Cons.prems(2) by (intro Cons.IH) auto
  moreover have "Q x = Q s" using fx Cons.prems(2) by auto
  ultimately show ?case by simp
qed

lemma page_copy_size:
  "page_copy rid i data xmm = Inr xmm' \<Longrightarrow> size_ring (td_ring xmm' r) = size_ring (td_ring xmm r)"
  by (auto simp: page_copy_def Let_def emit_def split: if_splits)

lemma publish_wptr_size:
  "publish_wptr rid w xmm = Inr xmm' \<Longrightarrow> size_ring (td_ring xmm' r) = size_ring (td_ring xmm r)"
  by (auto simp: publish_wptr_def cp_store_def emit_def split: if_splits option.splits)

lemma td_store_size_ring:
  "td_store rid i fld f xmm = Inr xmm' \<Longrightarrow> size_ring (td_ring xmm' r) = size_ring (td_ring xmm r)"
  by (auto simp: td_store_def Let_def emit_def split: if_splits)

lemma write_steps_size:
  assumes "steps [page_copy rid i data, td_store rid i f1 g1, td_store rid i f2 g2,
             td_store rid i f3 g3, publish_wptr rid w] xmm = Inr xmm'"
  shows "size_ring (td_ring xmm' r) = size_ring (td_ring xmm r)"
proof -
  from assms obtain x1 x2 x3 x4 where
    "page_copy rid i data xmm = Inr x1" "td_store rid i f1 g1 x1 = Inr x2"
    "td_store rid i f2 g2 x2 = Inr x3" "td_store rid i f3 g3 x3 = Inr x4"
    "publish_wptr rid w x4 = Inr xmm'"
    by (auto split: sum.splits)
  then show ?thesis
    by (simp add: page_copy_size [of rid i data xmm x1 r] td_store_size_ring [of rid i f1 g1 x1 x2 r]
        td_store_size_ring [of rid i f2 g2 x2 x3 r] td_store_size_ring [of rid i f3 g3 x3 x4 r]
        publish_wptr_size [of rid w x4 xmm' r])
qed

lemma read_steps_size:
  assumes "steps [td_store rid i f1 g1, td_store rid i f2 g2,
             td_store rid i f3 g3, publish_wptr rid w] xmm = Inr xmm'"
  shows "size_ring (td_ring xmm' r) = size_ring (td_ring xmm r)"
proof -
  from assms obtain x2 x3 x4 where
    "td_store rid i f1 g1 xmm = Inr x2"
    "td_store rid i f2 g2 x2 = Inr x3" "td_store rid i f3 g3 x3 = Inr x4"
    "publish_wptr rid w x4 = Inr xmm'"
    by (auto split: sum.splits)
  then show ?thesis
    by (simp add: td_store_size_ring [of rid i f1 g1 xmm x2 r]
        td_store_size_ring [of rid i f2 g2 x2 x3 r] td_store_size_ring [of rid i f3 g3 x3 x4 r]
        publish_wptr_size [of rid w x4 xmm' r])
qed

lemma write_user_steps:
  assumes "xmm7360_td_ring_write_user xmm ring_id data = Inr xmm'" "cp xmm = Some c"
  shows "steps
       [page_copy (unat ring_id) (unat (ucast (s_wptr c (unat ring_id)) :: u8)) data,
        td_store (unat ring_id) (unat (ucast (s_wptr c (unat ring_id)) :: u8)) F_length
          (\<lambda>t. t\<lparr>length_td := of_nat (length data)\<rparr>),
        td_store (unat ring_id) (unat (ucast (s_wptr c (unat ring_id)) :: u8)) F_flags_td (\<lambda>t. t\<lparr>flags_td := 0\<rparr>),
        td_store (unat ring_id) (unat (ucast (s_wptr c (unat ring_id)) :: u8)) F_unk_td (\<lambda>t. t\<lparr>unk_td := 0\<rparr>),
        publish_wptr (unat ring_id)
          (of_int ((uint (ucast (s_wptr c (unat ring_id)) :: u8) + 1) AND (uint (size_ring (td_ring xmm (unat ring_id))) - 1)))] xmm
       = Inr xmm'"
  using assms
  by (simp add: xmm7360_td_ring_write_user_def Let_def del: steps.simps split: if_splits)

lemma write_user_size:
  assumes "xmm7360_td_ring_write_user xmm ring_id data = Inr xmm'" "cp xmm = Some c"
  shows "size_ring (td_ring xmm' r) = size_ring (td_ring xmm r)"
  using write_user_steps [OF assms] by (rule write_steps_size)

lemma read_size:
  assumes "xmm7360_td_ring_read xmm ring_id = Inr xmm'" "cp xmm = Some c"
  shows "size_ring (td_ring xmm' r) = size_ring (td_ring xmm r)"
proof (cases "size_ring (td_ring xmm (unat ring_id)) = 0 \<or> ring_id AND 1 = 0")
  case True
  with assms show ?thesis
    by (auto simp: xmm7360_td_ring_read_def Let_def emit_def simp del: steps.simps
        split: if_splits)
next
  case False
  with assms have "steps
       [td_store (unat ring_id) (unat (ucast (s_wptr c (unat ring_id)) :: u8)) F_length
          (\<lambda>t. t\<lparr>length_td := page_size (td_ring xmm (unat ring_id))\<rparr>),
        td_store (unat ring_id) (unat (ucast (s_wptr c (unat ring_id)) :: u8)) F_flags_td (\<lambda>t. t\<lparr>flags_td := 0\<rparr>),
        td_store (unat ring_id) (unat (ucast (s_wptr c (unat ring_id)) :: u8)) F_unk_td (\<lambda>t. t\<lparr>unk_td := 0\<rparr>),
        publish_wptr (unat ring_id)
          (of_int ((uint (ucast (s_wptr c (unat ring_id)) :: u8) + 1) AND (uint (size_ring (td_ring xmm (unat ring_id))) - 1)))] xmm
       = Inr xmm'"
    by (simp add: xmm7360_td_ring_read_def Let_def del: steps.simps split: if_splits)
  then show ?thesis by (rule read_steps_size)
qed

lemma read_advances:
  assumes "xmm7360_td_ring_read xmm ring_id = Inr xmm'" "cp xmm = Some c"
    "size_ring (td_ring xmm (unat ring_id)) = 2 ^ k" "k < 8"
  shows "cp xmm' = Some (if ring_id AND 1 = 0 then c else c\<lparr>s_wptr := (s_wptr c)(unat ring_id :=
            of_nat ((unat (s_wptr c (unat ring_id)) + 1) mod 2 ^ k))\<rparr>)"
proof (cases "ring_id AND 1 = 0")
  case True
  with assms(1,2) show ?thesis
    by (auto simp: xmm7360_td_ring_read_def Let_def emit_def simp del: steps.simps
        split: option.splits if_splits)
next
  case False
  have nz: "size_ring (td_ring xmm (unat ring_id)) \<noteq> 0"
    using assms(3) k_cases [OF assms(4)] by (elim disjE conjE) simp_all
  from assms(1,2) False nz have "steps
       [td_store (unat ring_id) (unat (ucast (s_wptr c (unat ring_id)) :: u8)) F_length
          (\<lambda>t. t\<lparr>length_td := page_size (td_ring xmm (unat ring_id))\<rparr>),
        td_store (unat ring_id) (unat (ucast (s_wptr c (unat ring_id)) :: u8)) F_flags_td (\<lambda>t. t\<lparr>flags_td := 0\<rparr>),
        td_store (unat ring_id) (unat (ucast (s_wptr c (unat ring_id)) :: u8)) F_unk_td (\<lambda>t. t\<lparr>unk_td := 0\<rparr>),
        publish_wptr (unat ring_id)
          (of_int ((uint (ucast (s_wptr c (unat ring_id)) :: u8) + 1) AND (uint (size_ring (td_ring xmm (unat ring_id))) - 1)))] xmm
       = Inr xmm'"
    by (simp add: xmm7360_td_ring_read_def Let_def del: steps.simps split: if_splits)
  from read_steps_cp [OF this assms(2)] False show ?thesis
    by (simp only: td_next_pow2 [OF assms(3,4)] next_u32 [OF assms(4)] if_False)
qed

lemma td_ring_read_ok:
  assumes c: "cp xmm = Some c" and i: "unat ring_id < 16"
    and sz: "size_ring (td_ring xmm (unat ring_id)) = 2 ^ k" and k: "k < 8"
    and w: "unat (s_wptr c (unat ring_id)) < 2 ^ k"
    and lt: "length (tds (td_ring xmm (unat ring_id))) = 2 ^ k"
    and odd: "ring_id AND 1 \<noteq> 0"
    and nf: "xmm7360_td_ring_full xmm ring_id = Inr False"
  shows "xmm7360_td_ring_read xmm ring_id =
    Inr (xmm\<lparr>td_ring := (td_ring xmm)(unat ring_id := (td_ring xmm (unat ring_id))
               \<lparr>tds := (tds (td_ring xmm (unat ring_id)))[unat (s_wptr c (unat ring_id)) :=
                    \<lparr>addr = addr (tds (td_ring xmm (unat ring_id)) ! unat (s_wptr c (unat ring_id))),
                     length_td = page_size (td_ring xmm (unat ring_id)), flags_td = 0, unk_td = 0\<rparr>]\<rparr>),
             cp := Some (c\<lparr>s_wptr := (s_wptr c)(unat ring_id :=
                  of_nat ((unat (s_wptr c (unat ring_id)) + 1) mod 2 ^ k))\<rparr>),
             trace := trace xmm @
               [Store (Tds (unat ring_id) (unat (s_wptr c (unat ring_id))) F_length),
                Store (Tds (unat ring_id) (unat (s_wptr c (unat ring_id))) F_flags_td),
                Store (Tds (unat ring_id) (unat (s_wptr c (unat ring_id))) F_unk_td),
                Store (SWptr (unat ring_id))]\<rparr>)"
proof -
  let ?rid = "unat ring_id" and ?w = "unat (s_wptr c (unat ring_id))"
  let ?ring = "td_ring xmm ?rid"
  have w8: "unat (ucast (s_wptr c ?rid) :: u8) = ?w" using w k by (rule u8_index)
  have nz: "size_ring ?ring \<noteq> 0"
    using sz k k_cases [OF k] by (elim disjE conjE) simp_all
  have nxt: "(of_int ((uint (ucast (s_wptr c ?rid) :: u8) + 1) AND (uint (size_ring ?ring) - 1)) :: u8)
      = of_nat ((?w + 1) mod 2 ^ k)"
    using td_next_pow2 [OF sz k, of "ucast (s_wptr c ?rid)"] by (simp only: w8)
  have nfull: "(ucast (of_nat ((?w + 1) mod 2 ^ k) :: u8) :: u32) \<noteq> s_rptr c ?rid"
    using nf c i by (simp add: xmm7360_td_ring_full_def Let_def nxt)
  have uc: "(ucast (of_nat ((?w + 1) mod 2 ^ k) :: u8) :: u32) = of_nat ((?w + 1) mod 2 ^ k)"
    by (rule ucast_of_nat_small) (rule pow2_lt_256 [OF k])
  show ?thesis
    using c i nz odd w lt nfull
    by (simp add: xmm7360_td_ring_read_def Let_def w8 nxt uc td_store_def
        publish_wptr_eq emit_def del: One_nat_def)
qed

lemma unat_pow2_u8:
  assumes "k < 8"
  shows "unat ((2::u8) ^ k) = 2 ^ k"
  using k_cases [OF assms] by (elim disjE conjE) simp_all

text \<open>
  Claim C3. On a ring set up by creation (nonzero power-of-two capacity, so the ring
  exists), with \<open>length data \<le> page_size\<close>, an even ring id and a ring that is not full,
  \<^verbatim>\<open>xmm7360_td_ring_write\<close> and \<^verbatim>\<open>xmm7360_td_ring_write_user\<close> return: no \<^verbatim>\<open>BUG_ON\<close> fires,
  the one after the advance included. The data replace the first bytes of the page at
  the write slot, the descriptor there gets the length of the data and zero flags, and
  the write pointer is published, last, advanced by one modulo the capacity.
\<close>

theorem C3_td_ring_write:
  assumes inv: "td_ring_inv xmm (unat ring_id) k"
    and c: "cp xmm = Some c" and i: "unat ring_id < 16"
    and len: "length data \<le> unat (page_size (td_ring xmm (unat ring_id)))"
    and even: "ring_id AND 1 = 0"
    and nf: "xmm7360_td_ring_full xmm ring_id = Inr False"
  shows "xmm7360_td_ring_write xmm ring_id data =
    Inr (xmm\<lparr>td_ring := (td_ring xmm)(unat ring_id := (td_ring xmm (unat ring_id))
               \<lparr>pages := (pages (td_ring xmm (unat ring_id)))[unat (s_wptr c (unat ring_id)) :=
                    data @ drop (length data) (pages (td_ring xmm (unat ring_id)) ! unat (s_wptr c (unat ring_id)))],
                tds := (tds (td_ring xmm (unat ring_id)))[unat (s_wptr c (unat ring_id)) :=
                    \<lparr>addr = addr (tds (td_ring xmm (unat ring_id)) ! unat (s_wptr c (unat ring_id))),
                     length_td = of_nat (length data), flags_td = 0, unk_td = 0\<rparr>]\<rparr>),
             cp := Some (c\<lparr>s_wptr := (s_wptr c)(unat ring_id :=
                  of_nat ((unat (s_wptr c (unat ring_id)) + 1) mod 2 ^ k))\<rparr>),
             trace := trace xmm @
               [Store (Page (unat ring_id) (unat (s_wptr c (unat ring_id)))),
                Store (Tds (unat ring_id) (unat (s_wptr c (unat ring_id))) F_length),
                Store (Tds (unat ring_id) (unat (s_wptr c (unat ring_id))) F_flags_td),
                Store (Tds (unat ring_id) (unat (s_wptr c (unat ring_id))) F_unk_td),
                Store (SWptr (unat ring_id))]\<rparr>)
    \<and> xmm7360_td_ring_write_user xmm ring_id data = xmm7360_td_ring_write xmm ring_id data"
proof -
  from inv c have k: "k < 8" and sz: "size_ring (td_ring xmm (unat ring_id)) = 2 ^ k"
    and lt: "length (tds (td_ring xmm (unat ring_id))) = 2 ^ k"
    and lp: "length (pages (td_ring xmm (unat ring_id))) = 2 ^ k"
    and pg: "\<forall>p \<in> set (pages (td_ring xmm (unat ring_id))).
               length p = unat (page_size (td_ring xmm (unat ring_id)))"
    and w: "unat (s_wptr c (unat ring_id)) < 2 ^ k"
    by (simp_all add: td_ring_inv_def)
  show ?thesis
    using td_ring_write_user_ok [OF c i sz k w lt lp pg len even nf]
    by (simp only: td_ring_write_eq_user simp_thms)
qed

theorem C3_td_ring_write_witness:
  "\<exists>xmm'. xmm7360_td_ring_write (example_xmm 2 0 0 0) 0 [1, 2, 3] = Inr xmm'
     \<and> xmm7360_td_ring_write_user (example_xmm 2 0 0 0) 0 [1, 2, 3] = Inr xmm'
     \<and> map_option (\<lambda>c. s_wptr c 0) (cp xmm') = Some 3
     \<and> take 4 (pages (td_ring xmm' 0) ! 2) = [1, 2, 3, 0]
     \<and> tds (td_ring xmm' 0) ! 2 = \<lparr>addr = 0, length_td = 3, flags_td = 0, unk_td = 0\<rparr>"
proof -
  have inv: "td_ring_inv (example_xmm 2 0 0 0) (unat (0::u8)) 3"
    by (simp add: td_ring_inv_def example_xmm_def example_ring_def example_page_def)
  have c: "cp (example_xmm 2 0 0 0) = Some (example_page 2 0 0 0)"
    by (simp add: example_xmm_def)
  have i: "unat (0::u8) < 16" by simp
  have len: "length [1, 2, 3 :: u8] \<le> unat (page_size (td_ring (example_xmm 2 0 0 0) (unat (0::u8))))"
    by (simp add: example_xmm_def example_ring_def)
  have even: "(0::u8) AND 1 = 0" by simp
  have nf: "xmm7360_td_ring_full (example_xmm 2 0 0 0) 0 = Inr False"
    by (simp add: xmm7360_td_ring_full_def example_xmm_def example_ring_def example_page_def)
  show ?thesis
    using C3_td_ring_write [OF inv c i len even nf]
    by (simp add: example_xmm_def example_ring_def example_page_def)
qed


lemma advanced_in_ring:
  assumes "cp xmm' = Some (c\<lparr>s_wptr := (s_wptr c)(rid := of_nat (n mod 2 ^ k))\<rparr>)"
    and "size_ring (td_ring xmm' rid) = 2 ^ k" and "k < 8"
  shows "wptr_in_ring xmm' rid"
  using assms unat_next_lt [OF assms(3), of n]
  by (simp add: wptr_in_ring_def unat_pow2_u8)

text \<open>
  Claim C10. For a ring whose capacity is a nonzero power of two \<open>2 ^ k\<close>, the expression
  \<^verbatim>\<open>(wptr + 1) & (ring->size - 1)\<close> is \<open>(wptr + 1) mod 2 ^ k\<close>; the fullness check compares
  this value with the read pointer; and whenever \<^verbatim>\<open>xmm7360_td_ring_write\<close>,
  \<^verbatim>\<open>xmm7360_td_ring_write_user\<close> or \<^verbatim>\<open>xmm7360_td_ring_read\<close> (on a receive ring) returns,
  the published write pointer is that value, the capacity is unchanged, and the pointer
  is below the capacity. On a send ring \<^verbatim>\<open>xmm7360_td_ring_read\<close> leaves the control page
  as it was.
\<close>

theorem C10_wptr_below_capacity:
  assumes c: "cp xmm = Some c"
    and sz: "size_ring (td_ring xmm (unat ring_id)) = 2 ^ k" and k: "k < 8"
  shows "(\<forall>w::u8. (of_int ((uint w + 1) AND (uint (size_ring (td_ring xmm (unat ring_id))) - 1)) :: u8)
              = of_nat ((unat w + 1) mod 2 ^ k))
    \<and> (unat ring_id < 16 \<longrightarrow>
         xmm7360_td_ring_full xmm ring_id =
           Inr ((unat (s_wptr c (unat ring_id)) + 1) mod 2 ^ k = unat (s_rptr c (unat ring_id))))
    \<and> (\<forall>data xmm'. xmm7360_td_ring_write xmm ring_id data = Inr xmm' \<longrightarrow>
          cp xmm' = Some (c\<lparr>s_wptr := (s_wptr c)(unat ring_id :=
                      of_nat ((unat (s_wptr c (unat ring_id)) + 1) mod 2 ^ k))\<rparr>)
          \<and> size_ring (td_ring xmm' (unat ring_id)) = 2 ^ k
          \<and> wptr_in_ring xmm' (unat ring_id))
    \<and> (\<forall>data xmm'. xmm7360_td_ring_write_user xmm ring_id data = Inr xmm' \<longrightarrow>
          cp xmm' = Some (c\<lparr>s_wptr := (s_wptr c)(unat ring_id :=
                      of_nat ((unat (s_wptr c (unat ring_id)) + 1) mod 2 ^ k))\<rparr>)
          \<and> size_ring (td_ring xmm' (unat ring_id)) = 2 ^ k
          \<and> wptr_in_ring xmm' (unat ring_id))
    \<and> (\<forall>xmm'. xmm7360_td_ring_read xmm ring_id = Inr xmm' \<longrightarrow> ring_id AND 1 \<noteq> 0 \<longrightarrow>
          cp xmm' = Some (c\<lparr>s_wptr := (s_wptr c)(unat ring_id :=
                      of_nat ((unat (s_wptr c (unat ring_id)) + 1) mod 2 ^ k))\<rparr>)
          \<and> size_ring (td_ring xmm' (unat ring_id)) = 2 ^ k
          \<and> wptr_in_ring xmm' (unat ring_id))
    \<and> (\<forall>xmm'. xmm7360_td_ring_read xmm ring_id = Inr xmm' \<longrightarrow> ring_id AND 1 = 0 \<longrightarrow>
          cp xmm' = cp xmm \<and> size_ring (td_ring xmm' (unat ring_id)) = 2 ^ k)"
proof (intro conjI allI impI)
  fix w :: u8
  show "(of_int ((uint w + 1) AND (uint (size_ring (td_ring xmm (unat ring_id))) - 1)) :: u8)
          = of_nat ((unat w + 1) mod 2 ^ k)"
    using sz k by (rule td_next_pow2)
next
  assume "unat ring_id < 16"
  with c show "xmm7360_td_ring_full xmm ring_id =
           Inr ((unat (s_wptr c (unat ring_id)) + 1) mod 2 ^ k = unat (s_rptr c (unat ring_id)))"
    using sz k by (rule td_ring_full_pow2)
next
  fix data xmm'
  assume "xmm7360_td_ring_write xmm ring_id data = Inr xmm'"
  then have r: "xmm7360_td_ring_write_user xmm ring_id data = Inr xmm'"
    by (simp only: td_ring_write_eq_user)
  show a: "cp xmm' = Some (c\<lparr>s_wptr := (s_wptr c)(unat ring_id :=
                      of_nat ((unat (s_wptr c (unat ring_id)) + 1) mod 2 ^ k))\<rparr>)"
    using r c sz k by (rule write_user_advances)
  show b: "size_ring (td_ring xmm' (unat ring_id)) = 2 ^ k"
    using write_user_size [OF r c] sz by simp
  show "wptr_in_ring xmm' (unat ring_id)"
    using a b k by (rule advanced_in_ring)
next
  fix data xmm'
  assume r: "xmm7360_td_ring_write_user xmm ring_id data = Inr xmm'"
  show a: "cp xmm' = Some (c\<lparr>s_wptr := (s_wptr c)(unat ring_id :=
                      of_nat ((unat (s_wptr c (unat ring_id)) + 1) mod 2 ^ k))\<rparr>)"
    using r c sz k by (rule write_user_advances)
  show b: "size_ring (td_ring xmm' (unat ring_id)) = 2 ^ k"
    using write_user_size [OF r c] sz by simp
  show "wptr_in_ring xmm' (unat ring_id)"
    using a b k by (rule advanced_in_ring)
next
  fix xmm'
  assume r: "xmm7360_td_ring_read xmm ring_id = Inr xmm'" and odd: "ring_id AND 1 \<noteq> 0"
  show a: "cp xmm' = Some (c\<lparr>s_wptr := (s_wptr c)(unat ring_id :=
                      of_nat ((unat (s_wptr c (unat ring_id)) + 1) mod 2 ^ k))\<rparr>)"
    using read_advances [OF r c sz k] odd by simp
  show b: "size_ring (td_ring xmm' (unat ring_id)) = 2 ^ k"
    using read_size [OF r c] sz by simp
  show "wptr_in_ring xmm' (unat ring_id)"
    using a b k by (rule advanced_in_ring)
next
  fix xmm'
  assume r: "xmm7360_td_ring_read xmm ring_id = Inr xmm'" and even: "ring_id AND 1 = 0"
  show "cp xmm' = cp xmm"
    using read_advances [OF r c sz k] even c by simp
  show "size_ring (td_ring xmm' (unat ring_id)) = 2 ^ k"
    using read_size [OF r c] sz by simp
qed

theorem C10_wptr_below_capacity_witness:
  "(\<exists>xmm'. xmm7360_td_ring_read (example_xmm 0 0 7 1) 1 = Inr xmm'
      \<and> map_option (\<lambda>c. s_wptr c 1) (cp xmm') = Some 0 \<and> wptr_in_ring xmm' 1)
   \<and> (\<exists>xmm'. xmm7360_td_ring_write (example_xmm 6 0 0 0) 0 [7] = Inr xmm'
      \<and> map_option (\<lambda>c. s_wptr c 0) (cp xmm') = Some 7 \<and> wptr_in_ring xmm' 0)
   \<and> (\<exists>xmm'. xmm7360_td_ring_write_user (example_xmm 6 0 0 0) 0 [7] = Inr xmm'
      \<and> map_option (\<lambda>c. s_wptr c 0) (cp xmm') = Some 7 \<and> wptr_in_ring xmm' 0)
   \<and> xmm7360_td_ring_full (example_xmm 0 0 7 1) 1 = Inr False
   \<and> (of_int ((uint (7::u8) + 1) AND (uint (8::u8) - 1)) :: u8) = 0"
proof -
  have c1: "cp (example_xmm 0 0 7 1) = Some (example_page 0 0 7 1)"
    and c0: "cp (example_xmm 6 0 0 0) = Some (example_page 6 0 0 0)"
    by (simp_all add: example_xmm_def)
  have s1: "size_ring (td_ring (example_xmm 0 0 7 1) (unat (1::u8))) = 2 ^ 3"
    and s0: "size_ring (td_ring (example_xmm 6 0 0 0) (unat (0::u8))) = 2 ^ 3"
    by (simp_all add: example_xmm_def example_ring_def)
  have k: "(3::nat) < 8" by simp
  have r1: "\<exists>xmm'. xmm7360_td_ring_read (example_xmm 0 0 7 1) 1 = Inr xmm'"
    by (simp add: xmm7360_td_ring_read_def td_store_def publish_wptr_def cp_store_def emit_def
        example_xmm_def example_ring_def example_page_def)
  have w0: "\<exists>xmm'. xmm7360_td_ring_write_user (example_xmm 6 0 0 0) 0 [7] = Inr xmm'"
    by (simp add: xmm7360_td_ring_write_user_def td_store_def page_copy_def publish_wptr_def
        cp_store_def emit_def example_xmm_def example_ring_def example_page_def)
  show ?thesis
    using C10_wptr_below_capacity [OF c1 s1 k] C10_wptr_below_capacity [OF c0 s0 k] r1 w0
    by (auto simp add: example_page_def td_ring_write_eq_user)
qed

section \<open>Properties of the queue pairs\<close>

lemma steps_append:
  "steps (fs @ gs) s = (case steps fs s of Inl e \<Rightarrow> Inl e | Inr s' \<Rightarrow> steps gs s')"
  by (induction fs arbitrary: s) (auto split: sum.splits)

lemma list_update_append_replicate:
  assumes "length xs = m" "m < n"
  shows "(xs @ replicate (n - m) z)[m := v] = (xs @ [v]) @ replicate (n - Suc m) z"
proof -
  from assms(2) have "replicate (n - m) z = z # replicate (n - Suc m) z"
    by (simp add: Suc_diff_Suc flip: replicate_Suc)
  with assms(1) show ?thesis by (simp add: list_update_append)
qed

lemma nth_append_replicate:
  assumes "length xs = m" "m < n"
  shows "(xs @ replicate (n - m) z) ! m = z"
  using assms by (simp add: nth_append)

lemma create_page_created:
  assumes "m < n"
  shows "create_page rid m (created rid n m x) = Inr (created rid n (Suc m) x)"
  using assms
  by (simp add: create_page_def dma_alloc_coherent_def created_def td_store_def Let_def emit_def
      list_update_append_replicate nth_append_replicate replicate_app_Cons_same)

lemma create_loop:
  assumes "m \<le> n"
  shows "steps (map (create_page rid) [0..<m]) (created rid n 0 x) = Inr (created rid n m x)"
  using assms
proof (induction m)
  case 0
  then show ?case by simp
next
  case (Suc m)
  then have "m < n" by simp
  with Suc show ?case
    by (simp add: steps_append create_page_created)
qed

lemma created_0_installed:
  "created rid (unat size') 0 (installed rid size' x) = installed rid size' x"
  by (simp add: created_def installed_def zero_td_ring_def)

lemma ding_rung:
  assumes "cp x = Some c" "bar0 x"
  shows "xmm7360_ding x bell = Inr (rung bell x)"
  using assms by (simp add: xmm7360_ding_def rung_def Let_def)

lemma ding_rung':
  assumes "cp x \<noteq> None" "bar0 x"
  shows "xmm7360_ding x bell = Inr (rung bell x)"
  using assms by (auto simp add: ding_rung)

lemma submit_queued:
  assumes "cp x = Some c" "c_wptr c < 128"
  shows "xmm7360_cmd_ring_submit x cmd' parm' len' ptr' extra' =
     Inr (if c_rptr c = of_nat ((unat (c_wptr c) + 1) mod 128) then - EAGAIN else 0,
          queued cmd' parm' len' ptr' extra' x)"
  using assms by (simp add: queued_def submit_full submit_room)

lemma cp_created [simp]: "cp (created rid n m x) = cp x"
  and bar0_created [simp]: "bar0 (created rid n m x) = bar0 x"
  and qp_created [simp]: "qp (created rid n m x) = qp x"
  by (simp_all add: created_def)

lemma cp_installed [simp]: "cp (installed rid sz x) = cp x"
  and bar0_installed [simp]: "bar0 (installed rid sz x) = bar0 x"
  and qp_installed [simp]: "qp (installed rid sz x) = qp x"
  by (simp_all add: installed_def)

lemma bar0_pointers_reset [simp]: "bar0 (pointers_reset rid x) = bar0 x"
  and qp_pointers_reset [simp]: "qp (pointers_reset rid x) = qp x"
  and td_ring_pointers_reset [simp]: "td_ring (pointers_reset rid x) = td_ring x"
  by (simp_all add: pointers_reset_def split: option.splits)

lemma cp_pointers_reset:
  "cp x = Some c \<Longrightarrow> cp (pointers_reset rid x) =
      Some (c\<lparr>s_wptr := (s_wptr c)(rid := 0), s_rptr := (s_rptr c)(rid := 0)\<rparr>)"
  by (simp add: pointers_reset_def)

lemma reset_steps:
  assumes "cp x = Some c"
  shows "steps [cp_store (SWptr rid) (\<lambda>c. c\<lparr>s_wptr := (s_wptr c)(rid := 0)\<rparr>),
                cp_store (SRptr rid) (\<lambda>c. c\<lparr>s_rptr := (s_rptr c)(rid := 0)\<rparr>)] x
         = Inr (pointers_reset rid x)"
  using assms by (simp add: cp_store_def emit_def pointers_reset_def)

lemma pow2_and_pred:
  assumes "k < 8"
  shows "uint ((2::u8) ^ k) AND (uint ((2::u8) ^ k) - 1) = 0"
  using k_cases [OF assms] by (elim disjE conjE) simp_all

lemma bar0_queued [simp]: "bar0 (queued a b l p e x) = bar0 x"
  and qp_queued [simp]: "qp (queued a b l p e x) = qp x"
  and td_ring_queued [simp]: "td_ring (queued a b l p e x) = td_ring x"
  by (simp_all add: queued_def submitted_def split: option.splits)

lemma cp_queued_None [simp]: "(cp (queued a b l p e x) = None) = (cp x = None)"
  by (simp add: queued_def submitted_def split: option.splits)

lemma cp_pointers_reset_None [simp]: "(cp (pointers_reset rid x) = None) = (cp x = None)"
  by (simp add: pointers_reset_def split: option.splits)

lemma td_ring_create_ok:
  assumes i: "unat ring_id < 16" and z: "size_ring (td_ring x (unat ring_id)) = 0"
    and sz: "size' = 2 ^ k" and k: "k < 8"
    and c: "cp x = Some c" and b: "bar0 x" and w: "c_wptr c < 128"
  shows "xmm7360_td_ring_create x ring_id size' = Inr (ring_created ring_id size' x)"
proof -
  let ?rid = "unat ring_id" and ?n = "unat size'"
  let ?x2 = "installed ?rid size' x"
  let ?x3 = "pointers_reset ?rid (created ?rid ?n ?n ?x2)"
  have loop: "steps (map (create_page ?rid) [0..<?n]) ?x2 = Inr (created ?rid ?n ?n ?x2)"
    using create_loop [of ?n ?n ?rid ?x2] by (simp only: created_0_installed le_refl)
  have c3: "cp ?x3 = Some (c\<lparr>s_wptr := (s_wptr c)(?rid := 0), s_rptr := (s_rptr c)(?rid := 0)\<rparr>)"
    using c by (simp add: cp_pointers_reset)
  have st: "steps (map (create_page ?rid) [0..<?n] @
                   [cp_store (SWptr ?rid) (\<lambda>c. c\<lparr>s_wptr := (s_wptr c)(?rid := 0)\<rparr>),
                    cp_store (SRptr ?rid) (\<lambda>c. c\<lparr>s_rptr := (s_rptr c)(?rid := 0)\<rparr>)]) ?x2
            = Inr ?x3"
    using c by (simp add: steps_append loop reset_steps del: steps.simps)
  have w3: "c_wptr (c\<lparr>s_wptr := (s_wptr c)(?rid := 0), s_rptr := (s_rptr c)(?rid := 0)\<rparr>) < 128"
    using w by simp
  have pw: "uint size' AND (uint size' - 1) = 0"
    using sz pow2_and_pred [OF k] by simp
  have inst: "(case dma_alloc_coherent x of (tp, xmm1) \<Rightarrow> f tp xmm1) =
      f (dma_pool x (dma_allocs x)) (x\<lparr>dma_allocs := Suc (dma_allocs x)\<rparr>)" for f :: "dma_addr_t \<Rightarrow> xmm_dev \<Rightarrow> halt + xmm_dev"
    by (simp add: dma_alloc_coherent_def)
  have x2: "x\<lparr>dma_allocs := Suc (dma_allocs x),
         td_ring := (td_ring x)(?rid := zero_td_ring
          \<lparr>size_ring := size', page_size := 0x1000,
           tds := replicate (unat size') \<lparr>addr = 0, length_td = 0, flags_td = 0, unk_td = 0\<rparr>,
           tds_phys := dma_pool x (dma_allocs x),
           pages := replicate (unat size') [],
           pages_phys := replicate (unat size') 0\<rparr>)\<rparr> = ?x2"
    by (simp add: installed_def zero_td_ring_def)
  show ?thesis
    using i z pw b c
    by (simp add: xmm7360_td_ring_create_def dma_alloc_coherent_def Let_def x2 st
        submit_queued [OF c3 w3] ding_rung' ring_created_def
        del: steps.simps CMD_RING_OPEN_def DOORBELL_CMD_def)
qed


lemma cp_queued: "cp (queued a b l p e x) = map_option (queued_cp a b l p e) (cp x)"
  by (simp add: queued_def queued_cp_def submitted_def split: option.splits)

lemma queued_cp_frame [simp]:
  "s_wptr (queued_cp a b l p e c) = s_wptr c"
  "s_rptr (queued_cp a b l p e c) = s_rptr c"
  "status (queued_cp a b l p e c) = status c"
  "c_rptr (queued_cp a b l p e c) = c_rptr c"
  by (simp_all add: queued_cp_def)

lemma next_lt_128: "(of_nat (n mod 128) :: u32) < 128"
proof -
  have "n mod 128 < 128" by simp
  then have "unat (of_nat (n mod 128) :: u32) < 128"
    by (simp add: unat_of_nat)
  then show ?thesis by (simp add: word_less_nat_alt)
qed

lemma c_wptr_queued_cp: "c_wptr c < 128 \<Longrightarrow> c_wptr (queued_cp a b l p e c) < 128"
  by (simp add: queued_cp_def next_lt_128)

lemma cp_rung [simp]: "cp (rung b x) = cp x"
  and bar0_rung [simp]: "bar0 (rung b x) = bar0 x"
  and qp_rung [simp]: "qp (rung b x) = qp x"
  and td_ring_rung [simp]: "td_ring (rung b x) = td_ring x"
  by (simp_all add: rung_def emit_def split: option.splits)

lemma cp_pointers_reset_map:
  "cp (pointers_reset rid x) =
     map_option (\<lambda>c. c\<lparr>s_wptr := (s_wptr c)(rid := 0), s_rptr := (s_rptr c)(rid := 0)\<rparr>) (cp x)"
  by (simp add: pointers_reset_def split: option.splits)

lemma cp_ring_created:
  "cp (ring_created ring_id sz x) =
     map_option (\<lambda>c. queued_cp CMD_RING_OPEN ring_id (ucast sz) (dma_pool x (dma_allocs x)) 0x60
        (c\<lparr>s_wptr := (s_wptr c)(unat ring_id := 0), s_rptr := (s_rptr c)(unat ring_id := 0)\<rparr>)) (cp x)"
  by (simp add: ring_created_def Let_def cp_queued cp_pointers_reset_map option.map_comp comp_def
      created_def installed_def del: CMD_RING_OPEN_def)

lemma bar0_ring_created [simp]: "bar0 (ring_created ring_id sz x) = bar0 x"
  and qp_ring_created [simp]: "qp (ring_created ring_id sz x) = qp x"
  by (simp_all add: ring_created_def Let_def)

lemma td_ring_ring_created:
  "td_ring (ring_created ring_id sz x) = (td_ring x)(unat ring_id :=
     \<lparr>size_ring = sz, last_handled = 0, page_size = 0x1000,
      tds = map (\<lambda>i. \<lparr>addr = dma_pool x (Suc (dma_allocs x) + i), length_td = 0,
                       flags_td = 0, unk_td = 0\<rparr>) [0..<unat sz],
      tds_phys = dma_pool x (dma_allocs x),
      pages = replicate (unat sz) (replicate 4096 0),
      pages_phys = map (\<lambda>i. dma_pool x (Suc (dma_allocs x) + i)) [0..<unat sz]\<rparr>)"
  by (simp add: ring_created_def Let_def created_def installed_def zero_td_ring_def)

lemma read_posted:
  assumes c: "cp x = Some c" and i: "unat ring_id < 16"
    and sz: "size_ring (td_ring x (unat ring_id)) = 2 ^ k" and k: "k < 8"
    and w: "unat (s_wptr c (unat ring_id)) < 2 ^ k"
    and lt: "length (tds (td_ring x (unat ring_id))) = 2 ^ k"
    and odd: "ring_id AND 1 \<noteq> 0"
    and nf: "xmm7360_td_ring_full x ring_id = Inr False"
  shows "xmm7360_td_ring_read x ring_id = Inr (posted (unat ring_id) x)"
  using td_ring_read_ok [OF c i sz k w lt odd nf] c sz
  by (simp add: posted_def unat_pow2_u8 [OF k])

lemma unat_of_nat_u32: "n < 2 ^ 32 \<Longrightarrow> unat (of_nat n :: u32) = n"
  by (simp add: unat_of_nat)

lemma loop_closed:
  assumes "cp x = Some c" and i: "unat rx < 16" and odd: "rx AND 1 \<noteq> 0"
    and "size_ring (td_ring x (unat rx)) = 2 ^ k" and k: "k < 8"
    and "length (tds (td_ring x (unat rx))) = 2 ^ k"
    and "s_rptr c (unat rx) = 0"
    and "unat (s_wptr c (unat rx)) + d = 2 ^ k - 1"
  shows "qp_start_loop x rx = Some (Inr ((posted (unat rx) ^^ d) x))"
  using assms(1,4,6,7,8)
proof (induction d arbitrary: x c)
  case 0
  then have "(unat (s_wptr c (unat rx)) + 1) mod 2 ^ k = 0" by simp
  with 0 have "xmm7360_td_ring_full x rx = Inr True"
    using td_ring_full_pow2 [OF "0.prems"(1) i "0.prems"(2) k] by simp
  then show ?case
    by (subst qp_start_loop.simps) simp
next
  case (Suc d)
  let ?w = "unat (s_wptr c (unat rx))"
  have pos: "(0::nat) < 2 ^ k" by simp
  from Suc.prems(5) have lt: "?w + 1 < 2 ^ k" using pos by linarith
  then have md: "(?w + 1) mod 2 ^ k = ?w + 1" by simp
  have nf: "xmm7360_td_ring_full x rx = Inr False"
    using td_ring_full_pow2 [OF Suc.prems(1) i Suc.prems(2) k] Suc.prems(4) md by simp
  have w: "?w < 2 ^ k" using lt by simp
  have rd: "xmm7360_td_ring_read x rx = Inr (posted (unat rx) x)"
    using Suc.prems(1) i Suc.prems(2) k w Suc.prems(3) odd nf by (rule read_posted)
  let ?c' = "c\<lparr>s_wptr := (s_wptr c)(unat rx := of_nat (?w + 1))\<rparr>"
  have c': "cp (posted (unat rx) x) = Some ?c'"
    using Suc.prems(1,2) md by (simp add: posted_def unat_pow2_u8 [OF k])
  have s': "size_ring (td_ring (posted (unat rx) x) (unat rx)) = 2 ^ k"
    using Suc.prems(1,2) by (simp add: posted_def)
  have l': "length (tds (td_ring (posted (unat rx) x) (unat rx))) = 2 ^ k"
    using Suc.prems(1,3) by (simp add: posted_def)
  have r': "s_rptr ?c' (unat rx) = 0" using Suc.prems(4) by simp
  have "?w + 1 < 2 ^ 32"
    using lt pow2_lt_256 [OF k, of "?w + 1"] md by simp
  then have "unat (of_nat (?w + 1) :: u32) = ?w + 1"
    by (rule unat_of_nat_u32)
  then have w': "unat (s_wptr ?c' (unat rx)) + d = 2 ^ k - 1"
    using Suc.prems(5) by simp
  have "qp_start_loop (posted (unat rx) x) rx = Some (Inr ((posted (unat rx) ^^ d) (posted (unat rx) x)))"
    using c' s' l' r' w' by (rule Suc.IH)
  then show ?case
    using nf rd by (subst qp_start_loop.simps) (simp add: funpow_swap1)
qed


lemma bar0_posted [simp]: "bar0 (posted rid x) = bar0 x"
  and qp_posted [simp]: "qp (posted rid x) = qp x"
  and cp_posted_None [simp]: "(cp (posted rid x) = None) = (cp x = None)"
  by (simp_all add: posted_def split: option.splits)

lemma posted_funpow_frame [simp]:
  "bar0 ((posted rid ^^ d) x) = bar0 x"
  "qp ((posted rid ^^ d) x) = qp x"
  "(cp ((posted rid ^^ d) x) = None) = (cp x = None)"
  by (induction d) simp_all

lemma ring_ids:
  assumes "n < 8"
  shows "unat (of_nat (2 * n) :: u8) = 2 * n" "unat (of_nat (2 * n + 1) :: u8) = 2 * n + 1"
    "(of_nat (2 * n + 1) :: u8) AND 1 \<noteq> 0" "(of_nat (2 * n) :: u8) AND 1 = 0"
  using k_cases [OF assms] by (elim disjE conjE; simp)+

lemma qp_start_ok:
  assumes cl: "open (qp x n) = 0" and nm: "num (qp x n) = int n" and n: "n < 8"
    and c: "cp x = Some c" and b: "bar0 x" and w: "c_wptr c < 128"
    and z0: "size_ring (td_ring x (2 * n)) = 0" and z1: "size_ring (td_ring x (2 * n + 1)) = 0"
  shows "xmm7360_qp_start x n = Some (Inr (0, qp_started n x))"
proof -
  let ?tx = "of_nat (2 * n) :: u8" and ?rx = "of_nat (2 * n + 1) :: u8"
  let ?x0 = "x\<lparr>qp := (qp x)(n := (qp x n)\<lparr>open := 1\<rparr>)\<rparr>"
  let ?x1 = "ring_created ?tx 8 ?x0"
  let ?x2 = "ring_created ?rx 8 ?x1"
  let ?x3 = "rung DOORBELL_CMD ?x2"
  note ids = ring_ids [OF n]
  have tx: "(of_int (num (qp x n) * 2) :: u8) = ?tx"
    and rx: "(of_int (num (qp x n) * 2 + 1) :: u8) = ?rx"
    by (simp_all add: nm mult.commute)
  have k: "(3::nat) < 8" and e: "(8::u8) = 2 ^ 3" by simp_all
  have i0: "unat ?tx < 16" and i1: "unat ?rx < 16" using n by (simp_all only: ids)
  have c0: "cp ?x0 = Some c" using c by simp
  have cr0: "xmm7360_td_ring_create ?x0 ?tx 8 = Inr ?x1"
    using i0 _ e k c0 _ w by (rule td_ring_create_ok) (simp_all only: ids, simp_all add: z0 b)
  let ?c1 = "queued_cp CMD_RING_OPEN ?tx (ucast (8::u8)) (dma_pool ?x0 (dma_allocs ?x0)) 0x60
        (c\<lparr>s_wptr := (s_wptr c)(unat ?tx := 0), s_rptr := (s_rptr c)(unat ?tx := 0)\<rparr>)"
  have c1: "cp ?x1 = Some ?c1"
    by (simp only: cp_ring_created c0 option.map)
  have w1: "c_wptr ?c1 < 128"
    by (rule c_wptr_queued_cp) (simp add: w)
  have cr1: "xmm7360_td_ring_create ?x1 ?rx 8 = Inr ?x2"
    using i1 _ e k c1 _ w1
    by (rule td_ring_create_ok) (simp_all only: ids td_ring_ring_created, simp_all add: z1 [simplified] b)
  let ?c2 = "queued_cp CMD_RING_OPEN ?rx (ucast (8::u8)) (dma_pool ?x1 (dma_allocs ?x1)) 0x60
        (?c1\<lparr>s_wptr := (s_wptr ?c1)(unat ?rx := 0), s_rptr := (s_rptr ?c1)(unat ?rx := 0)\<rparr>)"
  have c2: "cp ?x2 = Some ?c2"
    by (simp only: cp_ring_created [of ?rx 8 ?x1] c1 option.map)
  have d2: "xmm7360_ding ?x2 DOORBELL_CMD = Inr ?x3"
    by (rule ding_rung') (use c2 b in simp_all)
  have c3: "cp ?x3 = Some ?c2" using c2 by simp
  have lp: "qp_start_loop ?x3 ?rx = Some (Inr ((posted (unat ?rx) ^^ 7) ?x3))"
    using c3 i1 ids(3) _ k
    by (rule loop_closed) (simp_all only: ids td_ring_ring_created td_ring_rung, simp_all)
  have d4: "xmm7360_ding ((posted (unat ?rx) ^^ 7) ?x3) DOORBELL_TD
      = Inr (rung DOORBELL_TD ((posted (unat ?rx) ^^ 7) ?x3))"
    by (rule ding_rung') (use c2 b in simp_all)
  have "xmm7360_qp_start x n = Some (Inr (0, rung DOORBELL_TD ((posted (unat ?rx) ^^ 7) ?x3)))"
    unfolding xmm7360_qp_start_def Let_def tx rx
    by (simp only: cl steps.simps cr0 cr1 d2 lp d4 sum.case option.case simp_thms if_False)
  then show ?thesis
    by (simp only: qp_started_def ids)
qed

text \<open>
  Claim C7. \<^verbatim>\<open>xmm7360_qp_start\<close> on a pair that is open returns \<open>-EBUSY\<close>, and
  \<^verbatim>\<open>xmm7360_qp_stop\<close> on a pair that is not open returns \<open>-ENODEV\<close>; in both cases the
  state returned is the state given: no ring is created or destroyed, no slot posted, no
  doorbell rung (the trace is the same), and the open flag is as it was.
\<close>

theorem C7_reopen_reclose:
  "(open (qp xmm n) \<noteq> 0 \<longrightarrow> xmm7360_qp_start xmm n = Some (Inr (- EBUSY, xmm)))
   \<and> (open (qp xmm n) = 0 \<longrightarrow> xmm7360_qp_stop xmm n = Inr (- ENODEV, xmm))"
  by (simp add: xmm7360_qp_start_def xmm7360_qp_stop_def)

theorem C7_reopen_reclose_witness:
  "xmm7360_qp_start (example_xmm 0 0 7 0) 0 = Some (Inr (- 16, example_xmm 0 0 7 0))
   \<and> xmm7360_qp_stop (example_xmm 0 0 7 0) 1 = Inr (- 19, example_xmm 0 0 7 0)"
  using C7_reopen_reclose [of "example_xmm 0 0 7 0" 0] C7_reopen_reclose [of "example_xmm 0 0 7 0" 1]
  by (simp add: example_xmm_def)

lemma length_offered [simp]: "length (offered ps w d ts) = length ts"
  by (simp add: offered_def)

lemma nth_offered:
  "i < length ts \<Longrightarrow> offered ps w d ts ! i =
     (if w \<le> i \<and> i < w + d
      then \<lparr>addr = addr (ts ! i), length_td = ps, flags_td = 0, unk_td = 0\<rparr> else ts ! i)"
  by (simp add: offered_def)

lemma offered_0: "offered ps w 0 ts = ts"
  by (rule nth_equalityI) (auto simp add: nth_offered)

lemma offered_Suc:
  assumes "w + d < length ts"
  shows "(offered ps w d ts)[w + d := \<lparr>addr = addr (offered ps w d ts ! (w + d)), length_td = ps,
            flags_td = 0, unk_td = 0\<rparr>] = offered ps w (Suc d) ts"
proof (rule nth_equalityI)
  show "length ((offered ps w d ts)[w + d := \<lparr>addr = addr (offered ps w d ts ! (w + d)),
      length_td = ps, flags_td = 0, unk_td = 0\<rparr>]) = length (offered ps w (Suc d) ts)"
    by simp
next
  fix i
  assume "i < length ((offered ps w d ts)[w + d := \<lparr>addr = addr (offered ps w d ts ! (w + d)),
      length_td = ps, flags_td = 0, unk_td = 0\<rparr>])"
  then have i: "i < length ts" by simp
  show "(offered ps w d ts)[w + d := \<lparr>addr = addr (offered ps w d ts ! (w + d)),
      length_td = ps, flags_td = 0, unk_td = 0\<rparr>] ! i = offered ps w (Suc d) ts ! i"
    using i assms by (auto simp add: nth_list_update nth_offered)
qed

lemma posted_funpow:
  assumes "cp x = Some c" and "size_ring (td_ring x rid) = 2 ^ k" and k: "k < 8"
    and "length (tds (td_ring x rid)) = 2 ^ k"
    and "unat (s_wptr c rid) = w" and "w + d < 2 ^ k"
  shows "(posted rid ^^ d) x =
     x\<lparr>td_ring := (td_ring x)(rid := (td_ring x rid)
           \<lparr>tds := offered (page_size (td_ring x rid)) w d (tds (td_ring x rid))\<rparr>),
       cp := Some (c\<lparr>s_wptr := (s_wptr c)(rid := of_nat (w + d))\<rparr>),
       trace := trace x @ concat (map (post_trace rid) [w..<w + d])\<rparr>"
  using assms(6)
proof (induction d)
  case 0
  have "c\<lparr>s_wptr := (s_wptr c)(rid := of_nat w)\<rparr> = c"
    using assms(5) by (cases c) (auto simp add: fun_eq_iff)
  with assms(1) show ?case
    by (simp only: funpow_0 offered_0 add_0_right) simp
next
  case (Suc d)
  let ?y = "x\<lparr>td_ring := (td_ring x)(rid := (td_ring x rid)
           \<lparr>tds := offered (page_size (td_ring x rid)) w d (tds (td_ring x rid))\<rparr>),
       cp := Some (c\<lparr>s_wptr := (s_wptr c)(rid := of_nat (w + d))\<rparr>),
       trace := trace x @ concat (map (post_trace rid) [w..<w + d])\<rparr>"
  have y: "(posted rid ^^ d) x = ?y" using Suc.prems by (intro Suc.IH) simp
  have lt: "w + d < 2 ^ 32"
    using Suc.prems pow2_lt_256 [OF k, of "w + d"] by simp
  have u: "unat (of_nat (w + d) :: u32) = w + d"
    using lt by (rule unat_of_nat_u32)
  have m: "(w + d + 1) mod 2 ^ k = w + d + 1" using Suc.prems by simp
  have "posted rid ?y =
     x\<lparr>td_ring := (td_ring x)(rid := (td_ring x rid)
           \<lparr>tds := offered (page_size (td_ring x rid)) w (Suc d) (tds (td_ring x rid))\<rparr>),
       cp := Some (c\<lparr>s_wptr := (s_wptr c)(rid := of_nat (w + Suc d))\<rparr>),
       trace := trace x @ concat (map (post_trace rid) [w..<w + Suc d])\<rparr>"
    using assms(2,4) Suc.prems m
    by (simp add: posted_def u unat_pow2_u8 [OF k] offered_Suc post_trace_def
        del: of_nat_add of_nat_Suc)
  then show ?case
    by (simp only: funpow.simps comp_apply y)
qed

lemma trace_rung: "cp x = Some c \<Longrightarrow> trace (rung b x) = trace x @ ding_trace c b"
  by (simp add: rung_def emit_def ding_trace_def)

lemma trace_queued:
  "cp x = Some c \<Longrightarrow> trace (queued a b l p e x) = trace x @
     (if c_rptr c = of_nat ((unat (c_wptr c) + 1) mod 128) then []
      else submit_trace (unat (c_wptr c)))"
  by (simp add: queued_def submitted_def submit_trace_def)

lemma trace_pointers_reset:
  "cp x = Some c \<Longrightarrow> trace (pointers_reset rid x) = trace x @ [Store (SWptr rid), Store (SRptr rid)]"
  by (simp add: pointers_reset_def)

lemma trace_ring_created:
  assumes "cp x = Some c"
  shows "trace (ring_created ring_id sz x) = trace x @ create_trace (unat ring_id) (unat sz) @
     (if c_rptr c = of_nat ((unat (c_wptr c) + 1) mod 128) then []
      else submit_trace (unat (c_wptr c))) @ ding_trace c DOORBELL_CMD"
proof -
  let ?y = "created (unat ring_id) (unat sz) (unat sz) (installed (unat ring_id) sz x)"
  let ?c1 = "c\<lparr>s_wptr := (s_wptr c)(unat ring_id := 0), s_rptr := (s_rptr c)(unat ring_id := 0)\<rparr>"
  have cy: "cp ?y = Some c" using assms by simp
  have c1: "cp (pointers_reset (unat ring_id) ?y) = Some ?c1"
    using cy by (rule cp_pointers_reset)
  have ty: "trace ?y = trace x @ map (\<lambda>i. Store (Tds (unat ring_id) i F_addr)) [0..<unat sz]"
    by (simp add: created_def installed_def)
  have cq: "cp (queued CMD_RING_OPEN ring_id (ucast sz)
      (tds_phys (td_ring (pointers_reset (unat ring_id) ?y) (unat ring_id))) 0x60
      (pointers_reset (unat ring_id) ?y)) =
      Some (queued_cp CMD_RING_OPEN ring_id (ucast sz)
      (tds_phys (td_ring (pointers_reset (unat ring_id) ?y) (unat ring_id))) 0x60 ?c1)"
    by (simp only: cp_queued c1 option.map)
  show ?thesis
    unfolding ring_created_def Let_def
    by (simp only: trace_rung [OF cq] trace_queued [OF c1] trace_pointers_reset [OF cy] ty
        create_trace_def) (simp add: ding_trace_def)
qed


lemma dma_ring_created [simp]:
  "dma_pool (ring_created ring_id sz x) = dma_pool x"
  "dma_allocs (ring_created ring_id sz x) = Suc (dma_allocs x) + unat sz"
  by (simp_all add: ring_created_def Let_def rung_def queued_def submitted_def pointers_reset_def
      created_def installed_def emit_def split: option.splits)

text \<open>The control page after \<^verbatim>\<open>xmm7360_qp_start\<close> has opened pair \<open>n\<close>.\<close>

lemma qp_started_unfold:
  assumes n: "n < 8" and c: "cp x = Some c"
    and c1: "c1 = queued_cp CMD_RING_OPEN (of_nat (2 * n)) 8 (dma_pool x (dma_allocs x)) 0x60
               (c\<lparr>s_wptr := (s_wptr c)(2 * n := 0), s_rptr := (s_rptr c)(2 * n := 0)\<rparr>)"
    and c2: "c2 = queued_cp CMD_RING_OPEN (of_nat (2 * n + 1)) 8 (dma_pool x (dma_allocs x + 9)) 0x60
               (c1\<lparr>s_wptr := (s_wptr c1)(2 * n + 1 := 0), s_rptr := (s_rptr c1)(2 * n + 1 := 0)\<rparr>)"
    and x3: "x3 = rung DOORBELL_CMD (ring_created (of_nat (2 * n + 1)) 8
                (ring_created (of_nat (2 * n)) 8 (x\<lparr>qp := (qp x)(n := (qp x n)\<lparr>open := 1\<rparr>)\<rparr>)))"
  shows "cp x3 = Some c2"
    and "qp_started n x = rung DOORBELL_TD
       (x3\<lparr>td_ring := (td_ring x3)(2 * n + 1 := (td_ring x3 (2 * n + 1))
             \<lparr>tds := offered (page_size (td_ring x3 (2 * n + 1))) 0 7 (tds (td_ring x3 (2 * n + 1)))\<rparr>),
           cp := Some (c2\<lparr>s_wptr := (s_wptr c2)(2 * n + 1 := 7)\<rparr>),
           trace := trace x3 @ concat (map (post_trace (2 * n + 1)) [0..<7])\<rparr>)"
proof -
  let ?tx = "of_nat (2 * n) :: u8" and ?rx = "of_nat (2 * n + 1) :: u8"
  let ?x0 = "x\<lparr>qp := (qp x)(n := (qp x n)\<lparr>open := 1\<rparr>)\<rparr>"
  let ?x1 = "ring_created ?tx 8 ?x0"
  let ?x2 = "ring_created ?rx 8 ?x1"
  note ids = ring_ids [OF n]
  have c0: "cp ?x0 = Some c" using c by simp
  have e1: "cp ?x1 = Some c1"
    unfolding c1 by (simp only: cp_ring_created [of ?tx 8 ?x0] c0 option.map ids) simp
  have p: "Suc (dma_allocs ?x0) + unat (8::u8) = dma_allocs x + 9" by simp
  have u8: "(ucast (8::u8) :: u16) = 8" by simp
  have dp: "dma_pool ?x0 = dma_pool x" by simp
  have e2: "cp ?x2 = Some c2"
    unfolding c2
    by (simp only: cp_ring_created [of ?rx 8 ?x1] e1 option.map ids dma_ring_created p u8 dp)
  show e3: "cp x3 = Some c2"
    unfolding x3 using e2 by (simp only: cp_rung)
  have k: "(3::nat) < 8" by simp
  have sz: "size_ring (td_ring x3 (2 * n + 1)) = 2 ^ 3"
    and ln: "length (tds (td_ring x3 (2 * n + 1))) = 2 ^ 3"
    unfolding x3 by (simp_all only: td_ring_rung td_ring_ring_created ids, simp_all)
  have w0: "unat (s_wptr c2 (2 * n + 1)) = 0"
    unfolding c2 by simp
  have d: "(0::nat) + 7 < 2 ^ 3" by simp
  have "(posted (2 * n + 1) ^^ 7) x3 =
       x3\<lparr>td_ring := (td_ring x3)(2 * n + 1 := (td_ring x3 (2 * n + 1))
             \<lparr>tds := offered (page_size (td_ring x3 (2 * n + 1))) 0 7 (tds (td_ring x3 (2 * n + 1)))\<rparr>),
           cp := Some (c2\<lparr>s_wptr := (s_wptr c2)(2 * n + 1 := of_nat (0 + 7))\<rparr>),
           trace := trace x3 @ concat (map (post_trace (2 * n + 1)) [0..<0 + 7])\<rparr>"
    using e3 sz k ln w0 d by (rule posted_funpow)
  then show "qp_started n x = rung DOORBELL_TD
       (x3\<lparr>td_ring := (td_ring x3)(2 * n + 1 := (td_ring x3 (2 * n + 1))
             \<lparr>tds := offered (page_size (td_ring x3 (2 * n + 1))) 0 7 (tds (td_ring x3 (2 * n + 1)))\<rparr>),
           cp := Some (c2\<lparr>s_wptr := (s_wptr c2)(2 * n + 1 := 7)\<rparr>),
           trace := trace x3 @ concat (map (post_trace (2 * n + 1)) [0..<7])\<rparr>)"
    unfolding qp_started_def x3 by simp
qed


lemma ding_trace_status: "status c' = status c \<Longrightarrow> ding_trace c' b = ding_trace c b"
  by (simp add: ding_trace_def)

lemma qp_started_effect:
  assumes n: "n < 8" and c: "cp x = Some c"
    and c1: "c1 = queued_cp CMD_RING_OPEN (of_nat (2 * n)) 8 (dma_pool x (dma_allocs x)) 0x60
               (c\<lparr>s_wptr := (s_wptr c)(2 * n := 0), s_rptr := (s_rptr c)(2 * n := 0)\<rparr>)"
    and c2: "c2 = queued_cp CMD_RING_OPEN (of_nat (2 * n + 1)) 8 (dma_pool x (dma_allocs x + 9)) 0x60
               (c1\<lparr>s_wptr := (s_wptr c1)(2 * n + 1 := 0), s_rptr := (s_rptr c1)(2 * n + 1 := 0)\<rparr>)"
  shows "cp (qp_started n x) = Some (c2\<lparr>s_wptr := (s_wptr c2)(2 * n + 1 := 7)\<rparr>)"
    and "qp (qp_started n x) = (qp x)(n := (qp x n)\<lparr>open := 1\<rparr>)"
    and "size_ring (td_ring (qp_started n x) (2 * n)) = 8"
    and "size_ring (td_ring (qp_started n x) (2 * n + 1)) = 8"
    and "trace (qp_started n x) = trace x @
           create_trace (2 * n) 8 @ queue_trace c @ ding_trace c DOORBELL_CMD @
           create_trace (2 * n + 1) 8 @ queue_trace c1 @ ding_trace c DOORBELL_CMD @
           ding_trace c DOORBELL_CMD @
           concat (map (post_trace (2 * n + 1)) [0..<7]) @
           ding_trace c DOORBELL_TD"
proof -
  let ?tx = "of_nat (2 * n) :: u8" and ?rx = "of_nat (2 * n + 1) :: u8"
  let ?x0 = "x\<lparr>qp := (qp x)(n := (qp x n)\<lparr>open := 1\<rparr>)\<rparr>"
  let ?x1 = "ring_created ?tx 8 ?x0"
  let ?x2 = "ring_created ?rx 8 ?x1"
  let ?x3 = "rung DOORBELL_CMD ?x2"
  let ?x4 = "?x3\<lparr>td_ring := (td_ring ?x3)(2 * n + 1 := (td_ring ?x3 (2 * n + 1))
             \<lparr>tds := offered (page_size (td_ring ?x3 (2 * n + 1))) 0 7 (tds (td_ring ?x3 (2 * n + 1)))\<rparr>),
           cp := Some (c2\<lparr>s_wptr := (s_wptr c2)(2 * n + 1 := 7)\<rparr>),
           trace := trace ?x3 @ concat (map (post_trace (2 * n + 1)) [0..<7])\<rparr>"
  note ids = ring_ids [OF n]
  note u = qp_started_unfold [OF n c c1 c2 refl]
  have eq: "qp_started n x = rung DOORBELL_TD ?x4" by (rule u(2))
  have c4: "cp ?x4 = Some (c2\<lparr>s_wptr := (s_wptr c2)(2 * n + 1 := 7)\<rparr>)" by simp
  show "cp (qp_started n x) = Some (c2\<lparr>s_wptr := (s_wptr c2)(2 * n + 1 := 7)\<rparr>)"
    unfolding eq by (simp only: cp_rung c4)
  show "qp (qp_started n x) = (qp x)(n := (qp x n)\<lparr>open := 1\<rparr>)"
    unfolding eq by simp
  have ne: "2 * n \<noteq> 2 * n + 1" by simp
  show "size_ring (td_ring (qp_started n x) (2 * n)) = 8"
    unfolding eq by (simp only: td_ring_rung) (simp add: td_ring_ring_created ids [simplified])
  show "size_ring (td_ring (qp_started n x) (2 * n + 1)) = 8"
    unfolding eq by (simp only: td_ring_rung) (simp add: td_ring_ring_created ids [simplified])
  have c0: "cp ?x0 = Some c" using c by simp
  have e1: "cp ?x1 = Some c1"
    unfolding c1 by (simp only: cp_ring_created [of ?tx 8 ?x0] c0 option.map ids) simp
  have e2: "cp ?x2 = Some c2"
    using u(1) by (simp only: cp_rung)
  have s1: "status c1 = status c" unfolding c1 by simp
  have s2: "status c2 = status c" unfolding c2 by (simp add: s1)
  have t1: "trace ?x1 = trace x @ create_trace (2 * n) 8 @ queue_trace c @ ding_trace c DOORBELL_CMD"
    using trace_ring_created [OF c0, of ?tx 8]
    by (simp only: ids queue_trace_def) simp
  have t2: "trace ?x2 = trace ?x1 @ create_trace (2 * n + 1) 8 @ queue_trace c1 @ ding_trace c DOORBELL_CMD"
    using trace_ring_created [OF e1, of ?rx 8]
    by (simp only: ids queue_trace_def ding_trace_status [OF s1]) simp
  have t3: "trace ?x3 = trace ?x2 @ ding_trace c DOORBELL_CMD"
    using trace_rung [OF e2, of DOORBELL_CMD] by (simp only: ding_trace_status [OF s2])
  have t4: "trace (rung DOORBELL_TD ?x4) = trace ?x4 @ ding_trace c DOORBELL_TD"
    using trace_rung [OF c4, of DOORBELL_TD] s2 by (simp add: ding_trace_def)
  have t4': "trace ?x4 = trace ?x3 @ concat (map (post_trace (2 * n + 1)) [0..<7])" by simp
  show "trace (qp_started n x) = trace x @
           create_trace (2 * n) 8 @ queue_trace c @ ding_trace c DOORBELL_CMD @
           create_trace (2 * n + 1) 8 @ queue_trace c1 @ ding_trace c DOORBELL_CMD @
           ding_trace c DOORBELL_CMD @
           concat (map (post_trace (2 * n + 1)) [0..<7]) @
           ding_trace c DOORBELL_TD"
  proof -
    have "trace (qp_started n x) = trace ?x4 @ ding_trace c DOORBELL_TD"
      unfolding eq by (rule t4)
    then have "trace (qp_started n x) =
        (trace ?x3 @ concat (map (post_trace (2 * n + 1)) [0..<7])) @ ding_trace c DOORBELL_TD"
      by (simp only: t4')
    then have "trace (qp_started n x) =
        ((trace ?x2 @ ding_trace c DOORBELL_CMD) @ concat (map (post_trace (2 * n + 1)) [0..<7]))
          @ ding_trace c DOORBELL_TD"
      by (simp only: t3)
    then show ?thesis
      by (simp only: t2 t1 append_assoc)
  qed
qed

lemma full_after_start:
  assumes n: "n < 8" and "cp x' = Some c'" and "size_ring (td_ring x' (2 * n + 1)) = 8"
    and "s_wptr c' (2 * n + 1) = 7" and "s_rptr c' (2 * n + 1) = 0"
  shows "xmm7360_td_ring_full x' (of_nat (2 * n + 1)) = Inr True"
proof -
  note ids = ring_ids [OF n]
  have i: "unat (of_nat (2 * n + 1) :: u8) < 16" using n by (simp only: ids)
  have s: "size_ring (td_ring x' (unat (of_nat (2 * n + 1) :: u8))) = 2 ^ 3"
    using assms(3) by (simp only: ids) simp
  have k: "(3::nat) < 8" by simp
  show ?thesis
    using td_ring_full_pow2 [OF assms(2) i s k] assms(4,5)
    by (simp only: ids) simp
qed

lemma unat_next_128: "unat (of_nat (n mod 128) :: u32) = n mod 128"
proof -
  have "n mod 128 < 2 ^ 32" by (rule less_trans [of _ 128]) simp_all
  then show ?thesis by (rule unat_of_nat_u32)
qed

text \<open>
  On a closed queue pair whose rings do not exist, with room for two entries in the
  command ring, \<^verbatim>\<open>xmm7360_qp_start\<close> returns 0 and has created both rings with capacity 8,
  queued \<^verbatim>\<open>RING_OPEN\<close> for each, rung the command doorbell after each creation and once
  more after both, posted the receive slots 0 to 6 (seven of them), left the receive ring
  full, rung the data doorbell last, and marked the pair open.
\<close>

lemma qp_start_with_room:
  assumes cl: "open (qp x n) = 0" and nm: "num (qp x n) = int n" and n: "n < 8"
    and c: "cp x = Some c" and b: "bar0 x" and w: "c_wptr c < 128"
    and z0: "size_ring (td_ring x (2 * n)) = 0" and z1: "size_ring (td_ring x (2 * n + 1)) = 0"
    and room1: "c_rptr c \<noteq> of_nat ((unat (c_wptr c) + 1) mod 128)"
    and room2: "c_rptr c \<noteq> of_nat ((unat (c_wptr c) + 2) mod 128)"
  shows "\<exists>x' c'. xmm7360_qp_start x n = Some (Inr (0, x')) \<and> cp x' = Some c'
     \<and> open (qp x' n) = 1
     \<and> size_ring (td_ring x' (2 * n)) = 8 \<and> size_ring (td_ring x' (2 * n + 1)) = 8
     \<and> s_wptr c' (2 * n + 1) = 7 \<and> s_rptr c' (2 * n + 1) = 0
     \<and> xmm7360_td_ring_full x' (of_nat (2 * n + 1)) = Inr True
     \<and> c_ring c' (unat (c_wptr c)) =
          \<lparr>ptr = dma_pool x (dma_allocs x), len = 8, parm = of_nat (2 * n), cmd = CMD_RING_OPEN,
           extra = 0x60, unk = 0, flags = CMD_FLAG_READY\<rparr>
     \<and> c_ring c' ((unat (c_wptr c) + 1) mod 128) =
          \<lparr>ptr = dma_pool x (dma_allocs x + 9), len = 8, parm = of_nat (2 * n + 1),
           cmd = CMD_RING_OPEN, extra = 0x60, unk = 0, flags = CMD_FLAG_READY\<rparr>
     \<and> c_wptr c' = of_nat ((unat (c_wptr c) + 2) mod 128)
     \<and> trace x' = trace x @
          create_trace (2 * n) 8 @ submit_trace (unat (c_wptr c)) @ ding_trace c DOORBELL_CMD @
          create_trace (2 * n + 1) 8 @ submit_trace ((unat (c_wptr c) + 1) mod 128) @
          ding_trace c DOORBELL_CMD @
          ding_trace c DOORBELL_CMD @
          concat (map (post_trace (2 * n + 1)) [0..<7]) @
          ding_trace c DOORBELL_TD"
proof -
  let ?w = "unat (c_wptr c)"
  let ?e0 = "\<lparr>ptr = dma_pool x (dma_allocs x), len = 8, parm = of_nat (2 * n), cmd = CMD_RING_OPEN,
           extra = 0x60, unk = 0, flags = CMD_FLAG_READY\<rparr>"
  let ?e1 = "\<lparr>ptr = dma_pool x (dma_allocs x + 9), len = 8, parm = of_nat (2 * n + 1),
           cmd = CMD_RING_OPEN, extra = 0x60, unk = 0, flags = CMD_FLAG_READY\<rparr>"
  let ?c1 = "queued_cp CMD_RING_OPEN (of_nat (2 * n)) 8 (dma_pool x (dma_allocs x)) 0x60
               (c\<lparr>s_wptr := (s_wptr c)(2 * n := 0), s_rptr := (s_rptr c)(2 * n := 0)\<rparr>)"
  let ?c2 = "queued_cp CMD_RING_OPEN (of_nat (2 * n + 1)) 8 (dma_pool x (dma_allocs x + 9)) 0x60
               (?c1\<lparr>s_wptr := (s_wptr ?c1)(2 * n + 1 := 0), s_rptr := (s_rptr ?c1)(2 * n + 1 := 0)\<rparr>)"
  let ?c' = "?c2\<lparr>s_wptr := (s_wptr ?c2)(2 * n + 1 := 7)\<rparr>"
  have st: "xmm7360_qp_start x n = Some (Inr (0, qp_started n x))"
    using cl nm n c b w z0 z1 by (rule qp_start_ok)
  note e = qp_started_effect [OF n c refl refl]
  have wlt: "?w < 128" using w by (simp add: word_less_nat_alt)
  have nx: "((?w + 1) mod 128 + 1) mod 128 = (?w + 2) mod 128"
    by (simp add: mod_simps)
  have ne: "?w \<noteq> (?w + 1) mod 128"
    using wlt by (cases "?w = 127") simp_all
  have f1: "?c1 = c\<lparr>s_wptr := (s_wptr c)(2 * n := 0), s_rptr := (s_rptr c)(2 * n := 0),
        c_ring := (c_ring c)(?w := ?e0), c_wptr := of_nat ((?w + 1) mod 128)\<rparr>"
    using room1 by (simp add: queued_cp_def)
  have w1: "unat (c_wptr ?c1) = (?w + 1) mod 128"
    by (simp only: f1) (simp add: unat_next_128 [simplified])
  have r1: "c_rptr ?c1 = c_rptr c" by simp
  have q0: "queue_trace c = submit_trace ?w"
    using room1 by (simp add: queue_trace_def)
  have q1: "queue_trace ?c1 = submit_trace ((?w + 1) mod 128)"
    unfolding queue_trace_def w1 r1 nx using room2 by simp
  have ring2: "c_ring ?c2 = (c_ring ?c1)((?w + 1) mod 128 := ?e1)"
    and wp2: "c_wptr ?c2 = of_nat ((?w + 2) mod 128)"
    unfolding queued_cp_def [of _ "of_nat (2 * n + 1)"] using room2 w1 r1 nx
    by simp_all
  have ring1: "c_ring ?c1 = (c_ring c)(?w := ?e0)"
    by (simp only: f1) simp
  have sel: "c_ring (C\<lparr>s_wptr := v\<rparr>) = c_ring C" "c_wptr (C\<lparr>s_wptr := v\<rparr>) = c_wptr C"
    for C :: control_page and v
    by simp_all
  have g0: "c_ring ?c' ?w = ?e0"
    unfolding sel ring2 ring1 using ne by (simp del: CMD_RING_OPEN_def CMD_FLAG_READY_def)
  have g1: "c_ring ?c' ((?w + 1) mod 128) = ?e1"
    unfolding sel ring2 ring1 by (simp del: CMD_RING_OPEN_def CMD_FLAG_READY_def)
  have g2: "c_wptr ?c' = of_nat ((?w + 2) mod 128)"
    unfolding sel by (rule wp2)
  have sw: "s_wptr ?c' (2 * n + 1) = 7" and sr: "s_rptr ?c' (2 * n + 1) = 0"
    by simp_all
  have op: "open (qp (qp_started n x) n) = 1"
    by (simp only: e(2)) simp
  have fl: "xmm7360_td_ring_full (qp_started n x) (of_nat (2 * n + 1)) = Inr True"
    using n e(1) e(4) sw sr by (rule full_after_start)
  have tr: "trace (qp_started n x) = trace x @
          create_trace (2 * n) 8 @ submit_trace ?w @ ding_trace c DOORBELL_CMD @
          create_trace (2 * n + 1) 8 @ submit_trace ((?w + 1) mod 128) @
          ding_trace c DOORBELL_CMD @
          ding_trace c DOORBELL_CMD @
          concat (map (post_trace (2 * n + 1)) [0..<7]) @
          ding_trace c DOORBELL_TD"
    using e(5) by (simp only: q0 q1)
  show ?thesis
    using st e(1) op e(3) e(4) sw sr fl g0 g1 g2 tr by blast
qed

text \<open>
  Claim C4, on the closed queue pair 0 of a device whose command ring is full (write
  pointer 5, read pointer 6). \<^verbatim>\<open>xmm7360_qp_start\<close> returns 0, both rings have capacity 8,
  seven receive slots are posted, the receive ring is full, the doorbells are rung in the
  order of the claim and the pair is marked open; but no \<^verbatim>\<open>RING_OPEN\<close> command is in the
  command ring: \<^verbatim>\<open>xmm7360_td_ring_create\<close> drops the \<open>-EAGAIN\<close> that
  \<^verbatim>\<open>xmm7360_cmd_ring_submit\<close> returns, so the write pointer of the command ring and its
  entries are as before, and the trace has no store to the command ring.
\<close>

theorem C4_qp_start_cmd_ring_full:
  "\<exists>x' c'. xmm7360_qp_start (closed_xmm 5 6) 0 = Some (Inr (0, x')) \<and> cp x' = Some c'
     \<and> open (qp x' 0) = 1
     \<and> size_ring (td_ring x' 0) = 8 \<and> size_ring (td_ring x' 1) = 8
     \<and> s_wptr c' 1 = 7 \<and> s_rptr c' 1 = 0
     \<and> xmm7360_td_ring_full x' 1 = Inr True
     \<and> c_wptr c' = 5 \<and> c_rptr c' = 6 \<and> c_ring c' = (\<lambda>_. zero_entry)
     \<and> trace x' =
          create_trace 0 8 @ [Bar0Write BAR0_DOORBELL 1] @
          create_trace 1 8 @ [Bar0Write BAR0_DOORBELL 1] @
          [Bar0Write BAR0_DOORBELL 1] @
          concat (map (post_trace 1) [0..<7]) @
          [Bar0Write BAR0_DOORBELL 0]"
proof -
  let ?x = "closed_xmm 5 6"
  let ?c = "zero_control_page\<lparr>c_wptr := 5, c_rptr := 6\<rparr>"
  let ?c1 = "queued_cp CMD_RING_OPEN (of_nat (2 * 0)) 8 (dma_pool ?x (dma_allocs ?x)) 0x60
               (?c\<lparr>s_wptr := (s_wptr ?c)(2 * 0 := 0), s_rptr := (s_rptr ?c)(2 * 0 := 0)\<rparr>)"
  let ?c2 = "queued_cp CMD_RING_OPEN (of_nat (2 * 0 + 1)) 8 (dma_pool ?x (dma_allocs ?x + 9)) 0x60
               (?c1\<lparr>s_wptr := (s_wptr ?c1)(2 * 0 + 1 := 0), s_rptr := (s_rptr ?c1)(2 * 0 + 1 := 0)\<rparr>)"
  have n: "(0::nat) < 8" by simp
  have c: "cp ?x = Some ?c" by (simp add: closed_xmm_def)
  have st: "xmm7360_qp_start ?x 0 = Some (Inr (0, qp_started 0 ?x))"
    by (rule qp_start_ok [OF _ _ n c]) (simp_all add: closed_xmm_def zero_xmm_dev_def zero_td_ring_def)
  note e = qp_started_effect [OF n c refl refl]
  have f1: "?c1 = ?c\<lparr>s_wptr := (s_wptr ?c)(0 := 0), s_rptr := (s_rptr ?c)(0 := 0)\<rparr>"
    by (simp add: queued_cp_def)
  have f2: "?c2 = ?c\<lparr>s_wptr := (s_wptr ?c)(0 := 0, 1 := 0), s_rptr := (s_rptr ?c)(0 := 0, 1 := 0)\<rparr>"
    by (simp add: queued_cp_def)
  have q0: "queue_trace ?c = []" and q1: "queue_trace ?c1 = []"
    by (simp_all add: queue_trace_def queued_cp_def)
  have d: "ding_trace ?c b = [Bar0Write BAR0_DOORBELL (of_int b)]" for b
    by (simp add: ding_trace_def zero_control_page_def)
  have cp': "cp (qp_started 0 ?x) = Some (?c2\<lparr>s_wptr := (s_wptr ?c2)(2 * 0 + 1 := 7)\<rparr>)"
    by (rule e(1))
  have tr: "trace (qp_started 0 ?x) =
          create_trace 0 8 @ [Bar0Write BAR0_DOORBELL 1] @
          create_trace 1 8 @ [Bar0Write BAR0_DOORBELL 1] @
          [Bar0Write BAR0_DOORBELL 1] @
          concat (map (post_trace 1) [0..<7]) @
          [Bar0Write BAR0_DOORBELL 0]"
    using e(5) by (simp only: q0 q1 d) (simp add: closed_xmm_def zero_xmm_dev_def)
  have op: "open (qp (qp_started 0 ?x) 0) = 1"
    by (simp only: e(2)) simp
  have s0: "size_ring (td_ring (qp_started 0 ?x) 0) = 8"
    and s1: "size_ring (td_ring (qp_started 0 ?x) 1) = 8"
    using e(3) e(4) by simp_all
  have w1: "s_wptr (?c2\<lparr>s_wptr := (s_wptr ?c2)(2 * 0 + 1 := 7)\<rparr>) 1 = 7"
    and r1: "s_rptr (?c2\<lparr>s_wptr := (s_wptr ?c2)(2 * 0 + 1 := 7)\<rparr>) 1 = 0"
    by (simp_all only: f2) simp_all
  have fl: "xmm7360_td_ring_full (qp_started 0 ?x) 1 = Inr True"
    using full_after_start [OF n cp'] s1 w1 r1 by simp
  have cw: "c_wptr (?c2\<lparr>s_wptr := (s_wptr ?c2)(2 * 0 + 1 := 7)\<rparr>) = 5"
    and cr: "c_rptr (?c2\<lparr>s_wptr := (s_wptr ?c2)(2 * 0 + 1 := 7)\<rparr>) = 6"
    and rg: "c_ring (?c2\<lparr>s_wptr := (s_wptr ?c2)(2 * 0 + 1 := 7)\<rparr>) = (\<lambda>_. zero_entry)"
    by (simp_all only: f2) (simp_all add: zero_control_page_def)
  show ?thesis
    using st cp' op s0 s1 w1 r1 fl cw cr rg tr by blast
qed


section \<open>Properties of reading\<close>

text \<open>
  Claim C8. When the wait of \<^verbatim>\<open>read\<close> is interrupted before data arrives (the read
  pointer of the receive ring equals \<^verbatim>\<open>last_handled\<close> and a signal ends the sleep),
  \<^verbatim>\<open>xmm7360_qp_read_user\<close> returns \<open>-ERESTARTSYS\<close> converted to \<^verbatim>\<open>size_t\<close>, and \<^verbatim>\<open>xmm7360_read\<close>
  returns to its caller the negative value \<open>-ERESTARTSYS\<close>, an error and not a byte
  count; no byte is copied and the state (rings, pointers, \<^verbatim>\<open>last_handled\<close>, trace) is
  the state given. The file offset is what \<^verbatim>\<open>*offset += ret\<close> makes of it.
\<close>

theorem C8_read_interrupted:
  assumes "cp xmm = Some c" and "num (qp xmm n) = int n" and "n < 8"
    and "s_rptr c (2 * n + 1) = ucast (last_handled (td_ring xmm (2 * n + 1)))"
  shows "xmm7360_qp_read_user xmm n size' Signal = Inr (of_int (- ERESTARTSYS), [], xmm)
    \<and> xmm7360_read xmm n size' offset Signal = Inr (- ERESTARTSYS, [], offset - 512, xmm)"
proof -
  have r: "nat (int n * 2 + 1) = 2 * n + 1" by (simp add: nat_add_distrib nat_mult_distrib)
  have q: "xmm7360_qp_read_user xmm n size' Signal = Inr (of_int (- ERESTARTSYS), [], xmm)"
    using assms
    by (simp add: xmm7360_qp_read_user_def Let_def wait_event_interruptible_def r
        del: steps.simps)
  have s: "sint (- 512 :: u64) = - 512" by simp
  show ?thesis
    using q s by (simp add: xmm7360_read_def)
qed

theorem C8_read_interrupted_witness:
  "xmm7360_read (example_xmm 0 0 7 0) 0 100 0 Signal = Inr (- 512, [], - 512, example_xmm 0 0 7 0)"
proof -
  have a: "cp (example_xmm 0 0 7 0) = Some (example_page 0 0 7 0)"
    and b: "num (qp (example_xmm 0 0 7 0) 0) = int 0"
    and d: "s_rptr (example_page 0 0 7 0) (2 * 0 + 1)
          = ucast (last_handled (td_ring (example_xmm 0 0 7 0) (2 * 0 + 1)))"
    by (simp_all add: example_xmm_def example_page_def example_ring_def)
  have n: "(0::nat) < 8" by simp
  show ?thesis
    using C8_read_interrupted [OF a b n d, of 100 0] by simp
qed

lemma unat_ucast_u8_u32: "unat (ucast (l::u8) :: u32) = unat l"
proof -
  have "unat l < 2 ^ LENGTH(8)" by (rule unsigned_less)
  then have "unat l < 2 ^ 32" by simp
  then show ?thesis by (simp add: unsigned_ucast_eq take_bit_nat_eq_self)
qed

lemma unat_ucast_u16_u64: "unat (ucast (l::u16) :: u64) = unat l"
proof -
  have "unat l < 2 ^ LENGTH(16)" by (rule unsigned_less)
  then have "unat l < 2 ^ 64" by simp
  then show ?thesis by (simp add: unsigned_ucast_eq take_bit_nat_eq_self)
qed

lemma ucast_u8_u32_eq: "((ucast (l::u8) :: u32) = r) = (unat l = unat r)"
  "(r = (ucast (l::u8) :: u32)) = (unat r = unat l)"
  using unat_ucast_u8_u32 [of l] by (metis word_unat_eq_iff)+

lemma ucast_u16_u64_less: "((ucast (l::u16) :: u64) > s) = (unat l > unat s)"
  by (simp add: word_less_nat_alt unat_ucast_u16_u64)

lemma last_handled_next:
  assumes "sz = (2::u8) ^ k" "k < 8"
  shows "(of_int ((int (unat (l::u8)) + 1) AND (uint sz - 1)) :: u8) = of_nat ((unat l + 1) mod 2 ^ k)"
  using td_next_pow2 [OF assms, of l] by (simp only: uint_nat)

lemma qp_read_user_core:
  assumes c: "cp xmm = Some c" and nm: "num (qp xmm n) * 2 + 1 = int rid" and b: "bar0 xmm"
    and i: "rid < 16" and odd: "(of_nat rid :: u8) AND 1 \<noteq> 0" and u: "unat (of_nat rid :: u8) = rid"
    and inv: "td_ring_inv xmm rid k"
    and behind: "(unat (s_wptr c rid) + 1) mod 2 ^ k = unat (last_handled (td_ring xmm rid))"
    and avail: "s_rptr c rid \<noteq> ucast (last_handled (td_ring xmm rid))"
    and fits: "min (unat (length_td (tds (td_ring xmm rid) ! unat (last_handled (td_ring xmm rid)))))
                   (unat size') \<le> unat (page_size (td_ring xmm rid))"
  shows "xmm7360_qp_read_user xmm n size' w =
     Inr (of_nat (min (unat (length_td (tds (td_ring xmm rid) ! unat (last_handled (td_ring xmm rid)))))
                      (unat size')),
          take (min (unat (length_td (tds (td_ring xmm rid) ! unat (last_handled (td_ring xmm rid)))))
                    (unat size'))
            (pages (td_ring xmm rid) ! unat (last_handled (td_ring xmm rid))),
          xmm\<lparr>td_ring := (td_ring xmm)(rid := (td_ring xmm rid)
                 \<lparr>tds := (tds (td_ring xmm rid))[unat (s_wptr c rid) :=
                      \<lparr>addr = addr (tds (td_ring xmm rid) ! unat (s_wptr c rid)),
                       length_td = page_size (td_ring xmm rid), flags_td = 0, unk_td = 0\<rparr>],
                  last_handled := of_nat ((unat (last_handled (td_ring xmm rid)) + 1) mod 2 ^ k)\<rparr>),
              cp := Some (c\<lparr>s_wptr := (s_wptr c)(rid := of_nat ((unat (s_wptr c rid) + 1) mod 2 ^ k))\<rparr>),
              trace := trace xmm @ post_trace rid (unat (s_wptr c rid)) @ ding_trace c DOORBELL_TD\<rparr>)"
proof -
  let ?ring = "td_ring xmm rid"
  let ?lh = "unat (last_handled ?ring)"
  let ?w = "unat (s_wptr c rid)"
  let ?rx = "of_nat rid :: u8"
  let ?L = "unat (length_td (tds ?ring ! ?lh))"
  from inv c have k: "k < 8" and sz: "size_ring ?ring = 2 ^ k"
    and lt: "length (tds ?ring) = 2 ^ k" and lp: "length (pages ?ring) = 2 ^ k"
    and pg: "\<forall>p \<in> set (pages ?ring). length p = unat (page_size ?ring)"
    and w: "?w < 2 ^ k"
    by (simp_all add: td_ring_inv_def)
  have lh: "?lh < 2 ^ k" using behind [symmetric] by simp
  have pl: "length (pages ?ring ! ?lh) = unat (page_size ?ring)"
    using pg lp lh by simp
  have i': "unat ?rx < 16" using i by (simp only: u)
  have sz': "size_ring (td_ring xmm (unat ?rx)) = 2 ^ k"
    and lt': "length (tds (td_ring xmm (unat ?rx))) = 2 ^ k"
    and w': "unat (s_wptr c (unat ?rx)) < 2 ^ k"
    using sz lt w by (simp_all only: u)
  have "unat (last_handled ?ring) \<noteq> unat (s_rptr c rid)"
    using avail by (simp only: ucast_u8_u32_eq)
  then have nf: "xmm7360_td_ring_full xmm ?rx = Inr False"
    using td_ring_full_pow2 [OF c i' sz' k] behind by (simp only: u)
  have rd: "xmm7360_td_ring_read xmm ?rx = Inr (posted rid xmm)"
    using read_posted [OF c i' sz' k w' lt' odd nf] by (simp only: u)
  have dg: "xmm7360_ding (posted rid xmm) DOORBELL_TD = Inr (rung DOORBELL_TD (posted rid xmm))"
    by (rule ding_rung') (use c b in simp_all)
  have st: "steps [\<lambda>x. xmm7360_td_ring_read x ?rx, \<lambda>x. xmm7360_ding x DOORBELL_TD] xmm
      = Inr (rung DOORBELL_TD (posted rid xmm))"
    by (simp only: steps.simps rd dg sum.case)
  have szp: "size_ring (td_ring (rung DOORBELL_TD (posted rid xmm)) rid) = 2 ^ k"
    using c sz by (simp add: posted_def)
  have fin: "(rung DOORBELL_TD (posted rid xmm))
       \<lparr>td_ring := (td_ring (rung DOORBELL_TD (posted rid xmm)))(rid :=
           (td_ring (rung DOORBELL_TD (posted rid xmm)) rid)
             \<lparr>last_handled := of_nat ((?lh + 1) mod 2 ^ k)\<rparr>)\<rparr>
     = xmm\<lparr>td_ring := (td_ring xmm)(rid := ?ring
                 \<lparr>tds := (tds ?ring)[?w :=
                      \<lparr>addr = addr (tds ?ring ! ?w),
                       length_td = page_size ?ring, flags_td = 0, unk_td = 0\<rparr>],
                  last_handled := of_nat ((?lh + 1) mod 2 ^ k)\<rparr>),
              cp := Some (c\<lparr>s_wptr := (s_wptr c)(rid := of_nat ((?w + 1) mod 2 ^ k))\<rparr>),
              trace := trace xmm @ post_trace rid ?w @ ding_trace c DOORBELL_TD\<rparr>"
    using c sz
    by (simp add: posted_def rung_def emit_def post_trace_def ding_trace_def unat_pow2_u8 [OF k])
  have wt: "wait_event_interruptible
              (\<lambda>x. case cp x of None \<Rightarrow> False
                    | Some c \<Rightarrow> s_rptr c rid \<noteq> ucast (last_handled (td_ring x rid))) w xmm
            = Inr (0, xmm)"
    using c avail by (simp add: wait_event_interruptible_def)
  have lhn: "(of_int ((int ?lh + 1) AND (uint (size_ring (td_ring (rung DOORBELL_TD (posted rid xmm)) rid)) - 1)) :: u8)
      = of_nat ((?lh + 1) mod 2 ^ k)"
    using szp k by (rule last_handled_next)
  have rg: "0 \<le> int rid \<and> int rid < 16" using i by simp
  have nr: "(if (ucast (length_td (tds ?ring ! ?lh)) :: u64) > size' then unat size' else ?L)
      = min ?L (unat size')"
    by (simp only: ucast_u16_u64_less) (simp add: min_def)
  have ok: "?lh < length (tds ?ring)"
    "?lh < length (pages ?ring) \<and> min ?L (unat size') \<le> length (pages ?ring ! ?lh)"
    using lh lt lp pl fits by simp_all
  have nn: "nat (int rid) = rid" and oi: "(of_int (int rid) :: u8) = of_nat rid" by simp_all
  show ?thesis
    unfolding xmm7360_qp_read_user_def Let_def nm nn oi
    by (simp only: rg c wt nr ok st lhn fin option.case sum.case prod.case simp_thms if_True if_False
        not_True_eq_False)
qed


text \<open>
  Claim C5, as the code has it. Let the receive ring of pair \<open>n\<close> have the shape creation
  gives it, its write pointer one slot behind \<^verbatim>\<open>last_handled\<close> (as \<^verbatim>\<open>xmm7360_qp_start\<close>
  leaves it and every read keeps it), data available (read pointer different from
  \<^verbatim>\<open>last_handled\<close>) and the bytes to copy within the page. Then \<^verbatim>\<open>xmm7360_qp_read_user\<close>
  returns \<open>min (delivered length) size\<close>, has copied that many bytes from the start of the
  page at \<^verbatim>\<open>last_handled\<close> (the rest is dropped), has posted the slot at the write pointer
  (not the slot it read) with the length of a page and zero flags, published the
  advanced write pointer, rung the data doorbell, and advanced \<^verbatim>\<open>last_handled\<close> by one
  modulo the capacity.
\<close>

theorem C5_qp_read_user:
  assumes c: "cp xmm = Some c" and nm: "num (qp xmm n) = int n" and n: "n < 8" and b: "bar0 xmm"
    and inv: "td_ring_inv xmm (2 * n + 1) k"
    and behind: "(unat (s_wptr c (2 * n + 1)) + 1) mod 2 ^ k
                   = unat (last_handled (td_ring xmm (2 * n + 1)))"
    and avail: "s_rptr c (2 * n + 1) \<noteq> ucast (last_handled (td_ring xmm (2 * n + 1)))"
    and fits: "min (unat (length_td (tds (td_ring xmm (2 * n + 1)) !
                      unat (last_handled (td_ring xmm (2 * n + 1))))))
                   (unat size') \<le> unat (page_size (td_ring xmm (2 * n + 1)))"
  shows "xmm7360_qp_read_user xmm n size' w =
     Inr (of_nat (min (unat (length_td (tds (td_ring xmm (2 * n + 1)) !
                      unat (last_handled (td_ring xmm (2 * n + 1)))))) (unat size')),
          take (min (unat (length_td (tds (td_ring xmm (2 * n + 1)) !
                      unat (last_handled (td_ring xmm (2 * n + 1)))))) (unat size'))
            (pages (td_ring xmm (2 * n + 1)) ! unat (last_handled (td_ring xmm (2 * n + 1)))),
          xmm\<lparr>td_ring := (td_ring xmm)(2 * n + 1 := (td_ring xmm (2 * n + 1))
                 \<lparr>tds := (tds (td_ring xmm (2 * n + 1)))[unat (s_wptr c (2 * n + 1)) :=
                      \<lparr>addr = addr (tds (td_ring xmm (2 * n + 1)) ! unat (s_wptr c (2 * n + 1))),
                       length_td = page_size (td_ring xmm (2 * n + 1)), flags_td = 0, unk_td = 0\<rparr>],
                  last_handled := of_nat ((unat (last_handled (td_ring xmm (2 * n + 1))) + 1) mod 2 ^ k)\<rparr>),
              cp := Some (c\<lparr>s_wptr := (s_wptr c)(2 * n + 1 :=
                     of_nat ((unat (s_wptr c (2 * n + 1)) + 1) mod 2 ^ k))\<rparr>),
              trace := trace xmm @ post_trace (2 * n + 1) (unat (s_wptr c (2 * n + 1)))
                         @ ding_trace c DOORBELL_TD\<rparr>)"
proof -
  note ids = ring_ids [OF n]
  have r: "num (qp xmm n) * 2 + 1 = int (2 * n + 1)" using nm by simp
  have i: "2 * n + 1 < 16" using n by simp
  show ?thesis
    using c r b i ids(3) ids(2) inv behind avail fits by (rule qp_read_user_core)
qed

theorem C5_qp_read_user_witness:
  "xmm7360_qp_read_user example_delivered 0 3 Signal
      = Inr (3, [1, 2, 3], example_after_read)"
proof -
  have c: "cp example_delivered = Some (example_page 0 0 7 1)"
    and nm: "num (qp example_delivered 0) = int 0" and b: "bar0 example_delivered"
    by (simp_all add: example_delivered_def example_xmm_def)
  have n: "(0::nat) < 8" by simp
  have inv: "td_ring_inv example_delivered (2 * 0 + 1) 3"
    by (simp add: td_ring_inv_def example_delivered_def example_xmm_def example_ring_def
        example_page_def)
  have behind: "(unat (s_wptr (example_page 0 0 7 1) (2 * 0 + 1)) + 1) mod 2 ^ 3
                   = unat (last_handled (td_ring example_delivered (2 * 0 + 1)))"
    and avail: "s_rptr (example_page 0 0 7 1) (2 * 0 + 1)
                   \<noteq> ucast (last_handled (td_ring example_delivered (2 * 0 + 1)))"
    and fits: "min (unat (length_td (tds (td_ring example_delivered (2 * 0 + 1)) !
                      unat (last_handled (td_ring example_delivered (2 * 0 + 1))))))
                   (unat (3::u64)) \<le> unat (page_size (td_ring example_delivered (2 * 0 + 1)))"
    by (simp_all add: example_delivered_def example_xmm_def example_ring_def example_page_def)
  show ?thesis
    using C5_qp_read_user [OF c nm n b inv behind avail fits, of Signal]
    by (simp add: example_delivered_def example_after_read_def example_xmm_def example_ring_def
        example_page_def post_trace_def ding_trace_def zero_control_page_def zero_xmm_dev_def
        list_update_append nth_append)
qed


text \<open>
  Claim C5 as stated says that the slot at \<^verbatim>\<open>last_handled\<close> is posted again. On the
  delivery of five bytes to slot 0 of the receive ring of pair 0, a read with a buffer of
  100 bytes returns the five bytes; afterwards descriptor 0, the slot that was read, is
  what it was (length 5, not the length of a page), and it is descriptor 7, the slot at
  the write pointer, that now offers a whole page.
\<close>

theorem C5_qp_read_user_counterexample:
  "xmm7360_qp_read_user example_delivered 0 100 Signal
      = Inr (5, [1, 2, 3, 4, 5], example_after_read)
   \<and> unat (last_handled (td_ring example_delivered 1)) = 0
   \<and> length_td (tds (td_ring example_after_read 1) ! 0) = 5
   \<and> length_td (tds (td_ring example_after_read 1) ! 0) \<noteq> page_size (td_ring example_after_read 1)
   \<and> tds (td_ring example_after_read 1) ! 0 = tds (td_ring example_delivered 1) ! 0
   \<and> length_td (tds (td_ring example_delivered 1) ! 7) = 0
   \<and> length_td (tds (td_ring example_after_read 1) ! 7) = page_size (td_ring example_after_read 1)"
proof -
  have c: "cp example_delivered = Some (example_page 0 0 7 1)"
    and nm: "num (qp example_delivered 0) * 2 + 1 = int 1" and b: "bar0 example_delivered"
    by (simp_all add: example_delivered_def example_xmm_def)
  have i: "(1::nat) < 16" and odd: "(of_nat 1 :: u8) AND 1 \<noteq> 0"
    and u: "unat (of_nat 1 :: u8) = 1" by simp_all
  have inv: "td_ring_inv example_delivered 1 3"
    by (simp add: td_ring_inv_def example_delivered_def example_xmm_def example_ring_def
        example_page_def)
  have behind: "(unat (s_wptr (example_page 0 0 7 1) 1) + 1) mod 2 ^ 3
                   = unat (last_handled (td_ring example_delivered 1))"
    and avail: "s_rptr (example_page 0 0 7 1) 1
                   \<noteq> ucast (last_handled (td_ring example_delivered 1))"
    and fits: "min (unat (length_td (tds (td_ring example_delivered 1) !
                      unat (last_handled (td_ring example_delivered 1)))))
                   (unat (100::u64)) \<le> unat (page_size (td_ring example_delivered 1))"
    by (simp_all add: example_delivered_def example_xmm_def example_ring_def example_page_def)
  have "xmm7360_qp_read_user example_delivered 0 100 Signal
      = Inr (5, [1, 2, 3, 4, 5], example_after_read)"
    using qp_read_user_core [OF c nm b i odd u inv behind avail fits, of Signal]
    by (simp add: example_delivered_def example_after_read_def example_xmm_def example_ring_def
        example_page_def post_trace_def ding_trace_def zero_control_page_def zero_xmm_dev_def
        list_update_append nth_append)
  then show ?thesis
    by (simp add: example_delivered_def example_after_read_def example_ring_def nth_append)
qed

section \<open>Properties of the bring-up\<close>

text \<open>
  The second polling loop of \<^verbatim>\<open>xmm7360_cmd_ring_init\<close>, entered with \<^verbatim>\<open>timeout = 100\<close>,
  reads the mode register once and leaves, whatever it read: with 2 the first operand of
  \<^verbatim>\<open>&&\<close> is false, and otherwise \<^verbatim>\<open>!--timeout\<close> is \<^verbatim>\<open>!99\<close>. It does not sleep, and the
  \<^verbatim>\<open>timeout\<close> it leaves is 100 or 99, never 0.
\<close>

lemma poll2_once:
  assumes "bar2 xmm"
  shows "cmd_ring_init_poll2 100 xmm =
           Inr (if bar2_dev xmm BAR2_MODE (bar2_reads xmm) = 2 then 100 else 99,
                emit (Bar2Read BAR2_MODE (bar2_dev xmm BAR2_MODE (bar2_reads xmm)))
                  (xmm\<lparr>bar2_reads := Suc (bar2_reads xmm)\<rparr>))"
  using assms by (simp add: cmd_ring_init_poll2.simps [of 100] bar2_read_def Let_def)

text \<open>
  Claim C6, on a modem that acknowledges the first stage of the handshake and whose mode
  register then stays at 1, so that the value 2 is never observed.
  \<^verbatim>\<open>xmm7360_cmd_ring_init\<close> clears the four reserved registers and writes mode 2, as the
  claim says; then it reads the mode register a single time, reads 1, does not sleep and
  does not read again, and goes on: it queues the two commands, rings the command
  doorbell and returns 0, not \<open>-ETIMEDOUT\<close>. The trace is the whole sequence of accesses;
  it has two reads of the mode register (one for each loop) and no \<^verbatim>\<open>msleep\<close>.
\<close>

theorem C6_cmd_ring_init_second_poll:
  "(case xmm7360_cmd_ring_init stuck_xmm drains of
      Inl e \<Rightarrow> False
    | Inr (ret, x') \<Rightarrow>
        ret = 0 \<and> ret \<noteq> - ETIMEDOUT \<and> bar2_reads x' = 2
        \<and> stuck_modem BAR2_MODE 0 = 1 \<and> stuck_modem BAR2_MODE 1 = 1
        \<and> trace x' =
            replicate 7 (Store Ctl) @
            [Bar2Write BAR2_CONTROL 0x10000, Bar2Write BAR2_CONTROLH 0, Bar0Write BAR0_MODE 1,
             Bar2Read BAR2_MODE 1,
             Bar2Write BAR2_BLANK0 0, Bar2Write BAR2_BLANK1 0, Bar2Write BAR2_BLANK2 0,
             Bar2Write BAR2_BLANK3 0, Bar0Write BAR0_MODE 2,
             Bar2Read BAR2_MODE 1] @
            submit_trace 0 @ submit_trace 1 @ [Bar0Write BAR0_DOORBELL 1])"
proof -
  have r: "replicate 7 (Store Ctl) =
             [Store Ctl, Store Ctl, Store Ctl, Store Ctl, Store Ctl, Store Ctl, Store Ctl]"
    by (simp add: numeral_eq_Suc)
  show ?thesis
    unfolding r
    by (simp add: xmm7360_cmd_ring_init_def stuck_xmm_def zero_xmm_dev_def dma_alloc_coherent_def
      example_pool_def stuck_modem_def drains_def cp_store_def bar2_write_def bar0_write_def
      bar2_read_def emit_def cmd_ring_init_poll1.simps [of 100] cmd_ring_init_poll2.simps [of 100]
      xmm7360_cmd_ring_submit_def c_ring_store_def zero_control_page_def xmm7360_ding_def
      xmm7360_cmd_ring_wait_def wait_event_interruptible_def submit_trace_def Let_def)
qed

subsection \<open>The wait for the modem to boot\<close>


lemma upt8: "[0..<8] = [0, 1, 2, 3, 4, 5, 6, 7]"
  by (simp add: upt_rec)












text \<open>
  A failure before \<^verbatim>\<open>pci_set_drvdata\<close> also goes to the label \<^verbatim>\<open>fail\<close>, where
  \<^verbatim>\<open>xmm7360_remove\<close> reads through the NULL that \<^verbatim>\<open>pci_get_drvdata\<close> returns.
\<close>

lemma probe_enable_fails:
  assumes "kzalloc_ok k" "pci_enable_device_ret k \<noteq> 0"
  shows "xmm7360_probe k dev pool = Inl NullPointer"
  using assms
  by (simp add: xmm7360_probe_def probe_fail_def xmm7360_remove_def zero_xmm_dev_def Let_def)





end
